theory Spec2Isabelle
  imports Main
begin

section \<open>JavaScript values and strings\<close>

text \<open>
  The client of \<^verbatim>\<open>src/index.js\<close> receives untyped JavaScript arguments. The values
  that the validation helpers distinguish are modelled by \<open>jsval\<close>: \<open>undefined\<close>,
  \<open>null\<close>, booleans, integer-valued numbers and strings (objects are left out). A string
  is a list of 8-bit characters, the code points 0 to 255 (Latin-1); text with code points
  above 255 is outside the model.
\<close>

datatype jsval = JUndefined | JNull | JBool bool | JNum int | JStr string

text \<open>\<open>falsy v\<close> is the JavaScript test \<^verbatim>\<open>!v\<close>.\<close>

fun falsy :: "jsval \<Rightarrow> bool" where
  "falsy JUndefined = True"
| "falsy JNull = True"
| "falsy (JBool b) = (\<not> b)"
| "falsy (JNum n) = (n = 0)"
| "falsy (JStr s) = (s = [])"

text \<open>\<open>x == null\<close> holds for \<open>null\<close> and \<open>undefined\<close> only.\<close>

definition nullish :: "jsval \<Rightarrow> bool" where
  "nullish v = (v = JNull \<or> v = JUndefined)"

definition digit_char :: "nat \<Rightarrow> char" where
  "digit_char d = char_of (48 + d)"

fun digits :: "nat \<Rightarrow> string" where
  "digits n = (if n < 10 then [digit_char n] else digits (n div 10) @ [digit_char (n mod 10)])"

declare digits.simps [simp del]

definition show_int :: "int \<Rightarrow> string" where
  "show_int i = (if i < 0 then CHR ''-'' # digits (nat (- i)) else digits (nat i))"

text \<open>\<open>js_String v\<close> is \<^verbatim>\<open>String(v)\<close>.\<close>

fun js_String :: "jsval \<Rightarrow> string" where
  "js_String JUndefined = ''undefined''"
| "js_String JNull = ''null''"
| "js_String (JBool b) = (if b then ''true'' else ''false'')"
| "js_String (JNum n) = show_int n"
| "js_String (JStr s) = s"

definition is_lower :: "char \<Rightarrow> bool" where
  "is_lower c = (97 \<le> (of_char c :: nat) \<and> (of_char c :: nat) \<le> 122)"

definition is_upper :: "char \<Rightarrow> bool" where
  "is_upper c = (65 \<le> (of_char c :: nat) \<and> (of_char c :: nat) \<le> 90)"

definition is_digit :: "char \<Rightarrow> bool" where
  "is_digit c = (48 \<le> (of_char c :: nat) \<and> (of_char c :: nat) \<le> 57)"

text \<open>
  The characters that \<^verbatim>\<open>String.prototype.trim\<close> strips are the white space and the line
  terminators of ECMAScript. Among the code points 0 to 255 these are tab (9), line feed
  (10), vertical tab (11), form feed (12), carriage return (13), space (32) and the
  no-break space (160).
\<close>

definition is_space :: "char \<Rightarrow> bool" where
  "is_space c = ((of_char c :: nat) \<in> {9, 10, 11, 12, 13, 32, 160})"

text \<open>
  \<open>toUpperCase\<close> and \<open>toLowerCase\<close> convert the letters \<open>a\<close> to \<open>z\<close> and \<open>A\<close> to \<open>Z\<close> and
  leave the characters from 128 to 255 as they are. The client compares the results only
  with words of such letters (\<open>PUBLIC\<close>, \<open>PRIVATE\<close>, the file extensions) or lower-cases a
  string that matched \<open>CUID2_REGEX\<close>. ECMAScript converts no character from 128 to 255 to
  one of these letters, except the sharp s (223), which \<open>toUpperCase\<close> turns into \<open>SS\<close>;
  neither \<open>PUBLIC\<close> nor \<open>PRIVATE\<close> holds an \<open>S\<close>, so every such comparison comes out as in
  the source.
\<close>

definition upper_char :: "char \<Rightarrow> char" where
  "upper_char c = (if is_lower c then char_of ((of_char c :: nat) - 32) else c)"

definition lower_char :: "char \<Rightarrow> char" where
  "lower_char c = (if is_upper c then char_of ((of_char c :: nat) + 32) else c)"

definition toUpperCase :: "string \<Rightarrow> string" where
  "toUpperCase s = map upper_char s"

definition toLowerCase :: "string \<Rightarrow> string" where
  "toLowerCase s = map lower_char s"

definition trim :: "string \<Rightarrow> string" where
  "trim s = rev (dropWhile is_space (rev (dropWhile is_space s)))"

text \<open>\<open>truthy_str\<close> is the truthiness of an optional string field: absent and empty are falsy.\<close>

definition truthy_str :: "string option \<Rightarrow> bool" where
  "truthy_str x = (case x of None \<Rightarrow> False | Some s \<Rightarrow> s \<noteq> [])"

section \<open>Data exchanged with the service\<close>

text \<open>
  The body of the upload endpoint, \<^verbatim>\<open>{ success, uploads, reason }\<close>; an absent
  \<open>success\<close> is falsy, absent \<open>uploads\<close> and \<open>reason\<close> are \<open>None\<close>.
\<close>

record upload_body =
  success :: bool
  uploads :: "string list option"
  reason :: "string option"

text \<open>
  The object that \<open>getUploadStatus\<close> returns: the parsed body \<^verbatim>\<open>{ status, src? }\<close>, or
  the sentinel \<^verbatim>\<open>{ missing: true }\<close>, which has neither \<open>status\<close> nor \<open>src\<close>.
\<close>

record status_obj =
  status :: "string option"
  src :: "string option"
  missing :: bool

definition missing_sentinel :: status_obj where
  "missing_sentinel = \<lparr>status = None, src = None, missing = True\<rparr>"

text \<open>
  A fetch \<open>Response\<close>: status code, status text and what \<^verbatim>\<open>resp.json()\<close> does:
  \<open>Inr\<close> the parsed body, or \<open>Inl\<close> the message of the rejection when the body does not
  parse.
\<close>

record 'b response =
  resp_status :: nat
  statusText :: string
  json :: "string + 'b"

text \<open>\<^verbatim>\<open>resp.ok\<close>: the status is in the range 200 to 299.\<close>

definition ok :: "'b response \<Rightarrow> bool" where
  "ok resp = (200 \<le> resp_status resp \<and> resp_status resp \<le> 299)"

text \<open>
  What the platform's \<open>fetch\<close> does with one request: it resolves with a response, rejects
  with an \<open>AbortError\<close> (the timer of \<open>fetchWithTimeout\<close> fired), or rejects with another
  error. A scripted reply pairs the outcome with the milliseconds the request took.
\<close>

datatype 'b fetch_outcome = Resolves "'b response" | RejectsAbort | RejectsOther string

type_synonym 'b reply = "nat \<times> 'b fetch_outcome"

record form_part =
  fp_filename :: string
  fp_contentType :: string
  fp_content :: string

record payload =
  p_body :: string
  p_medias :: "string list"
  p_replyPermission :: jsval
  p_quotePostID :: jsval
  p_userIP :: "string option"

section \<open>Errors\<close>

text \<open>
  The source throws plain \<open>Error\<close> objects, told apart by message and by the fields
  attached to them. Each throw site is one constructor carrying the attached fields.
\<close>

datatype error =
    ReplyPermissionEmpty
  | ReplyPermissionInvalid
  | QuotePostIDInvalid
  | FilesNotNonEmptyArray
  | FileItemInvalid
  | ReadFileFailed string
  | RequestTimedOut nat
  | FetchRejected string
  | JsonParseFailed string
  | UploadFailed nat string "upload_body option"
  | UploadNotSuccessful upload_body
  | StatusFetchFailed nat "status_obj option"
  | PollTimeout status_obj
  | UploadingFilesFailed string
  | ProcessingTimeout
  | UploadTerminalState string status_obj
  | UploadNoSrc string status_obj
  | SubmitFailed nat "string option"

definition REPLY_PERMISSIONS :: "string list" where
  "REPLY_PERMISSIONS = [''PRIVATE'', ''PUBLIC'']"

fun join :: "string \<Rightarrow> string list \<Rightarrow> string" where
  "join sep [] = []"
| "join sep [x] = x"
| "join sep (x # y # ys) = x @ sep @ join sep (y # ys)"

definition dq :: string where
  "dq = [char_of (34 :: nat)]"

text \<open>\<open>message_of e\<close> is \<^verbatim>\<open>e.message\<close>.\<close>

fun message_of :: "error \<Rightarrow> string" where
  "message_of ReplyPermissionEmpty =
     ''replyPermission cannot be empty. Use '' @ dq @ ''PUBLIC'' @ dq @ '' or '' @ dq @ ''PRIVATE'' @ dq @ ''.''"
| "message_of ReplyPermissionInvalid =
     ''replyPermission must be one of: '' @ join '', '' REPLY_PERMISSIONS"
| "message_of QuotePostIDInvalid =
     ''quotePostID must be a valid CUID v2-style id (letter + lowercase alphanumeric, length ~24-32).''"
| "message_of FilesNotNonEmptyArray = ''files must be a non-empty array''"
| "message_of FileItemInvalid = ''each file must contain either path, buffer, or file''"
| "message_of (ReadFileFailed m) = m"
| "message_of (RequestTimedOut ms) = ''Request timed out after '' @ digits ms @ ''ms''"
| "message_of (FetchRejected m) = m"
| "message_of (JsonParseFailed m) = m"
| "message_of (UploadFailed st txt b) =
     ''Upload failed: '' @
       (case b of
          None \<Rightarrow> digits st @ '' '' @ txt
        | Some j \<Rightarrow> if truthy_str (reason j) then the (reason j) else digits st @ '' '' @ txt)"
| "message_of (UploadNotSuccessful j) = ''upload endpoint returned success=false''"
| "message_of (StatusFetchFailed st b) = ''Failed to fetch upload status''"
| "message_of (PollTimeout s) = ''polling timeout waiting for processed''"
| "message_of (UploadingFilesFailed m) = ''Uploading files failed: '' @ m"
| "message_of ProcessingTimeout = ''Timeout while waiting for files to be processed''"
| "message_of (UploadTerminalState uid s) =
     ''Upload '' @ uid @ '' terminal state: '' @
       (case status s of None \<Rightarrow> ''undefined'' | Some t \<Rightarrow> t)"
| "message_of (UploadNoSrc uid s) = ''Upload '' @ uid @ '' processed but no src returned''"
| "message_of (SubmitFailed st b) = ''submit post failed''"

text \<open>The fields \<^verbatim>\<open>e.body\<close> (of upload errors), \<^verbatim>\<open>e.uploadStatus\<close> and \<^verbatim>\<open>e.statusObj\<close>.\<close>

fun err_body :: "error \<Rightarrow> upload_body option" where
  "err_body (UploadFailed st txt b) = b"
| "err_body (UploadNotSuccessful j) = Some j"
| "err_body _ = None"

fun err_uploadStatus :: "error \<Rightarrow> status_obj option" where
  "err_uploadStatus (PollTimeout s) = Some s"
| "err_uploadStatus _ = None"

fun err_statusObj :: "error \<Rightarrow> status_obj option" where
  "err_statusObj (UploadTerminalState uid s) = Some s"
| "err_statusObj (UploadNoSrc uid s) = Some s"
| "err_statusObj _ = None"

section \<open>Validation helpers\<close>

text \<open>
  \<open>validateReplyPermission\<close>, lines 46 to 56: \<open>undefined\<close> is returned as it is; \<open>null\<close>, a
  string that is empty after trimming, and every falsy value are rejected; otherwise the
  value is upper-cased and must be a member of \<open>REPLY_PERMISSIONS\<close>.
\<close>

definition validateReplyPermission :: "jsval \<Rightarrow> error + jsval" where
  "validateReplyPermission rp =
     (if rp = JUndefined then Inr JUndefined
      else if rp = JNull \<or> (case rp of JStr s \<Rightarrow> trim s = [] | _ \<Rightarrow> False) \<or> falsy rp
        then Inl ReplyPermissionEmpty
      else let up = toUpperCase (js_String rp) in
        if up \<notin> set REPLY_PERMISSIONS then Inl ReplyPermissionInvalid
        else Inr (JStr up))"

text \<open>
  \<open>CUID2_REGEX\<close>, line 25, is \<^verbatim>\<open>/^[a-z][a-z0-9]{23,31}$/i\<close>: with the \<open>i\<close> flag the
  classes match both cases.
\<close>

definition is_letter :: "char \<Rightarrow> bool" where
  "is_letter c = (is_lower c \<or> is_upper c)"

definition is_alnum :: "char \<Rightarrow> bool" where
  "is_alnum c = (is_letter c \<or> is_digit c)"

definition CUID2_REGEX_test :: "string \<Rightarrow> bool" where
  "CUID2_REGEX_test s =
     (case s of
        [] \<Rightarrow> False
      | c # cs \<Rightarrow> is_letter c \<and> list_all is_alnum cs \<and> 23 \<le> length cs \<and> length cs \<le> 31)"

definition validateQuotePostID :: "jsval \<Rightarrow> error + jsval" where
  "validateQuotePostID ident =
     (if nullish ident then Inr JUndefined
      else let s = trim (js_String ident) in
        if \<not> CUID2_REGEX_test s then Inl QuotePostIDInvalid
        else Inr (JStr (toLowerCase s)))"

section \<open>The environment\<close>

text \<open>
  An item of the \<open>files\<close> argument, \<^verbatim>\<open>{ path }\<close>, \<^verbatim>\<open>{ buffer, filename?, contentType? }\<close>
  or \<^verbatim>\<open>{ file }\<close>; an absent field is \<open>None\<close>. A buffer or a file, when present, is an object
  and so truthy; a path or a file name is truthy when it is not empty. The argument itself
  may be a value that is not an array.
\<close>

record file_handle =
  fh_name :: string
  fh_type :: string
  fh_content :: string

record file_item =
  f_path :: "string option"
  f_buffer :: "string option"
  f_file :: "file_handle option"
  f_filename :: "string option"
  f_contentType :: "string option"

datatype files_arg = NotAnArray | FileArray "file_item list"

text \<open>
  Every effect of the client is recorded in a trace: each HTTP exchange with the request's
  content and the scripted reply it received, and each timer wait with its delay.
\<close>

datatype event =
    Uploaded "form_part list" "upload_body reply"
  | StatusQueried string "status_obj reply"
  | Posted payload "string reply"
  | Waited nat

text \<open>
  The world a call runs in: the clock read by \<^verbatim>\<open>Date.now()\<close>, the file system
  (\<open>readFileSync\<close> gives \<open>Inr\<close> the content or \<open>Inl\<close> the message of the error it throws,
  \<open>basename\<close> is \<^verbatim>\<open>path.basename\<close>), the replies that the three endpoints will give to
  the requests still to come, in order, and the trace so far. A request for which the
  script holds no reply never settles: the call does not return, which is the value
  \<open>None\<close>. URL resolution and the request headers are not modelled.
\<close>

record world =
  now :: int
  readFileSync :: "string \<Rightarrow> string + string"
  basename :: "string \<Rightarrow> string"
  uploadReplies :: "upload_body reply list"
  statusReplies :: "status_obj reply list"
  postReplies :: "string reply list"
  trace :: "event list"

text \<open>
  The fields of the configuration that the operations below read; the base URL, the paths
  and the key only shape URLs and headers. \<open>maxRetries\<close> is a count.
\<close>

record config =
  pollIntervalMs :: nat
  pollTimeoutMs :: int
  maxRetries :: nat

definition DEFAULTS :: config where
  "DEFAULTS = \<lparr>pollIntervalMs = 1000, pollTimeoutMs = 30000, maxRetries = 3\<rparr>"

text \<open>
  \<open>wait ms\<close>, line 285: the caller is suspended for \<open>ms\<close> milliseconds; the timer is taken
  to fire on time.
\<close>

definition wait :: "nat \<Rightarrow> world \<Rightarrow> world" where
  "wait ms w = w\<lparr>now := now w + int ms, trace := trace w @ [Waited ms]\<rparr>"

text \<open>
  \<open>fetchWithTimeout\<close> of \<^verbatim>\<open>src/lib/http.js\<close>, given the reply that \<open>fetch\<close> receives: an
  \<open>AbortError\<close> becomes the time-out error naming \<open>timeoutMs\<close>, any other rejection is
  thrown on, a response is returned.
\<close>

definition fetchWithTimeout :: "'b reply \<Rightarrow> nat \<Rightarrow> world \<Rightarrow> world \<times> (error + 'b response)" where
  "fetchWithTimeout r timeoutMs w =
     (let w' = w\<lparr>now := now w + int (fst r)\<rparr> in
      case snd r of
        Resolves resp \<Rightarrow> (w', Inr resp)
      | RejectsAbort \<Rightarrow> (w', Inl (RequestTimedOut timeoutMs))
      | RejectsOther m \<Rightarrow> (w', Inl (FetchRejected m)))"

text \<open>\<open>safeParseJSON\<close>, line 287: a body that does not parse is \<open>null\<close>.\<close>

definition safeParseJSON :: "'b response \<Rightarrow> 'b option" where
  "safeParseJSON resp = (case json resp of Inl m \<Rightarrow> None | Inr b \<Rightarrow> Some b)"

text \<open>\<open>name.split('.').pop()\<close>: the text after the last dot, the whole name without one.\<close>

definition last_segment :: "string \<Rightarrow> string" where
  "last_segment name = rev (takeWhile (\<lambda>c. c \<noteq> CHR ''.'') (rev name))"

definition guessContentTypeFromFilename :: "string \<Rightarrow> string option" where
  "guessContentTypeFromFilename name =
     (if name = [] then None
      else let ext = toLowerCase (last_segment name) in
        if ext = ''jpg'' \<or> ext = ''jpeg'' then Some ''image/jpeg''
        else if ext = ''png'' then Some ''image/png''
        else if ext = ''webp'' then Some ''image/webp''
        else if ext = ''gif'' then Some ''image/gif''
        else None)"

text \<open>\<open>a || b\<close> on optional strings.\<close>

definition or_else :: "string option \<Rightarrow> string option \<Rightarrow> string option" where
  "or_else a b = (if truthy_str a then a else b)"

definition contentType_for :: "file_item \<Rightarrow> string \<Rightarrow> string" where
  "contentType_for f filename =
     the (or_else (or_else (f_contentType f) (guessContentTypeFromFilename filename))
            (Some ''application/octet-stream''))"

section \<open>uploadFiles\<close>

text \<open>
  The loop of lines 96 to 124 that fills the multipart form. A \<open>File\<close> and a \<open>Blob\<close> with a
  file name put the same part into the form, so the test for a global \<open>File\<close> is not
  modelled.
\<close>

fun buildForm :: "world \<Rightarrow> file_item list \<Rightarrow> form_part list \<Rightarrow> error + form_part list" where
  "buildForm w [] form = Inr form"
| "buildForm w (f # fs) form =
     (if truthy_str (f_path f) then
        (let filename = the (or_else (f_filename f) (Some (basename w (the (f_path f))))) in
         case readFileSync w (the (f_path f)) of
           Inl m \<Rightarrow> Inl (ReadFileFailed m)
         | Inr buffer \<Rightarrow>
             buildForm w fs (form @ [\<lparr>fp_filename = filename,
               fp_contentType = contentType_for f filename, fp_content = buffer\<rparr>]))
      else if f_buffer f \<noteq> None then
        (let filename = the (or_else (f_filename f) (Some ''file'')) in
         buildForm w fs (form @ [\<lparr>fp_filename = filename,
           fp_contentType = contentType_for f filename, fp_content = the (f_buffer f)\<rparr>]))
      else (case f_file f of
          Some fh \<Rightarrow>
            buildForm w fs (form @ [\<lparr>fp_filename = (if fh_name fh = [] then ''file'' else fh_name fh),
              fp_contentType = fh_type fh, fp_content = fh_content fh\<rparr>])
        | None \<Rightarrow> Inl FileItemInvalid))"

text \<open>The POST of line 126: the next scripted upload reply answers it.\<close>

definition fetch_upload :: "form_part list \<Rightarrow> world \<Rightarrow> (world \<times> (error + upload_body response)) option" where
  "fetch_upload form w =
     (case uploadReplies w of
        [] \<Rightarrow> None
      | r # rs \<Rightarrow>
          Some (fetchWithTimeout r 60000
                 (w\<lparr>uploadReplies := rs, trace := trace w @ [Uploaded form r]\<rparr>)))"

definition uploadFiles :: "files_arg \<Rightarrow> world \<Rightarrow> (world \<times> (error + string list)) option" where
  "uploadFiles files w =
     (case files of
        NotAnArray \<Rightarrow> Some (w, Inl FilesNotNonEmptyArray)
      | FileArray fs \<Rightarrow>
          if fs = [] then Some (w, Inl FilesNotNonEmptyArray)
          else (case buildForm w fs [] of
              Inl e \<Rightarrow> Some (w, Inl e)
            | Inr form \<Rightarrow>
                (case fetch_upload form w of
                   None \<Rightarrow> None
                 | Some (w1, Inl e) \<Rightarrow> Some (w1, Inl e)
                 | Some (w1, Inr resp) \<Rightarrow>
                     if \<not> ok resp then
                       Some (w1, Inl (UploadFailed (resp_status resp) (statusText resp) (safeParseJSON resp)))
                     else (case json resp of
                         Inl m \<Rightarrow> Some (w1, Inl (JsonParseFailed m))
                       | Inr j \<Rightarrow>
                           if \<not> success j then Some (w1, Inl (UploadNotSuccessful j))
                           else Some (w1, Inr (case uploads j of None \<Rightarrow> [] | Some us \<Rightarrow> us))))))"

section \<open>getUploadStatus and pollUntilProcessed\<close>

definition fetch_status :: "string \<Rightarrow> world \<Rightarrow> (world \<times> (error + status_obj response)) option" where
  "fetch_status uploadId w =
     (case statusReplies w of
        [] \<Rightarrow> None
      | r # rs \<Rightarrow>
          Some (fetchWithTimeout r 15000
                 (w\<lparr>statusReplies := rs, trace := trace w @ [StatusQueried uploadId r]\<rparr>)))"

definition getUploadStatus :: "string \<Rightarrow> world \<Rightarrow> (world \<times> (error + status_obj)) option" where
  "getUploadStatus uploadId w =
     (case fetch_status uploadId w of
        None \<Rightarrow> None
      | Some (w1, Inl e) \<Rightarrow> Some (w1, Inl e)
      | Some (w1, Inr resp) \<Rightarrow>
          if resp_status resp = 404 then Some (w1, Inr missing_sentinel)
          else if \<not> ok resp then
            Some (w1, Inl (StatusFetchFailed (resp_status resp) (safeParseJSON resp)))
          else (case json resp of
              Inl m \<Rightarrow> Some (w1, Inl (JsonParseFailed m))
            | Inr s \<Rightarrow> Some (w1, Inr s)))"

text \<open>
  The \<open>while (true)\<close> loop of lines 163 to 173. Every round consumes one scripted status
  reply, so the recursion ends with the script.
\<close>

function pollLoop :: "string \<Rightarrow> nat \<Rightarrow> int \<Rightarrow> int \<Rightarrow> world \<Rightarrow> (world \<times> (error + status_obj)) option" where
  "pollLoop uploadId interval timeoutMs start w =
     (case getUploadStatus uploadId w of
        None \<Rightarrow> None
      | Some (w1, Inl e) \<Rightarrow> Some (w1, Inl e)
      | Some (w1, Inr statusObj) \<Rightarrow>
          if status statusObj = Some ''PROCESSED'' then Some (w1, Inr statusObj)
          else if status statusObj = Some ''DELETED'' \<or> status statusObj = Some ''ATTACHED''
            then Some (w1, Inr statusObj)
          else if now w1 - start > timeoutMs then Some (w1, Inl (PollTimeout statusObj))
          else pollLoop uploadId interval timeoutMs start (wait interval w1))"
  by pat_completeness auto
termination
  by (relation "measure (\<lambda>(uploadId, interval, timeoutMs, start, w). length (statusReplies w))")
     (auto simp: wait_def getUploadStatus_def fetch_status_def fetchWithTimeout_def Let_def
        split: list.splits sum.splits fetch_outcome.splits if_splits prod.splits)

declare pollLoop.simps [simp del]

record poll_options =
  po_intervalMs :: "nat option"
  po_timeoutMs :: "int option"

definition pollUntilProcessed :: "config \<Rightarrow> string \<Rightarrow> poll_options \<Rightarrow> world \<Rightarrow> (world \<times> (error + status_obj)) option" where
  "pollUntilProcessed cfg uploadId options w =
     (let interval = (case po_intervalMs options of None \<Rightarrow> pollIntervalMs cfg | Some i \<Rightarrow> i);
          timeoutMs = (case po_timeoutMs options of None \<Rightarrow> pollTimeoutMs cfg | Some t \<Rightarrow> t);
          start = now w
      in pollLoop uploadId interval timeoutMs start w)"

section \<open>retryAsync\<close>

text \<open>
  \<open>retryAsync\<close>, lines 291 to 300. \<open>retryLoop\<close> is the \<open>while (true)\<close> loop with its counter
  \<open>i\<close>; a failed attempt increments \<open>i\<close>, throws the error on when \<open>i > retries\<close> and waits
  \<open>backoffMs * i\<close> otherwise.
\<close>

function retryLoop :: "(world \<Rightarrow> (world \<times> (error + 'a)) option) \<Rightarrow> nat \<Rightarrow> nat \<Rightarrow> nat \<Rightarrow> world \<Rightarrow> (world \<times> (error + 'a)) option" where
  "retryLoop fn retries backoffMs i w =
     (case fn w of
        None \<Rightarrow> None
      | Some (w1, Inr v) \<Rightarrow> Some (w1, Inr v)
      | Some (w1, Inl e) \<Rightarrow>
          if Suc i > retries then Some (w1, Inl e)
          else retryLoop fn retries backoffMs (Suc i) (wait (backoffMs * Suc i) w1))"
  by pat_completeness auto
termination
  by (relation "measure (\<lambda>(fn, retries, backoffMs, i, w). Suc retries - i)") auto

declare retryLoop.simps [simp del]

definition retryAsync :: "(world \<Rightarrow> (world \<times> (error + 'a)) option) \<Rightarrow> nat \<Rightarrow> nat \<Rightarrow> world \<Rightarrow> (world \<times> (error + 'a)) option" where
  "retryAsync fn retries backoffMs w = retryLoop fn retries backoffMs 0 w"

section \<open>submitPost\<close>

record submit_args =
  sp_body :: string
  sp_medias :: "string list"
  sp_replyPermission :: jsval
  sp_quotePostID :: jsval
  sp_userIP :: "string option"

definition fetch_post :: "payload \<Rightarrow> world \<Rightarrow> (world \<times> (error + string response)) option" where
  "fetch_post p w =
     (case postReplies w of
        [] \<Rightarrow> None
      | r # rs \<Rightarrow>
          Some (fetchWithTimeout r 20000
                 (w\<lparr>postReplies := rs, trace := trace w @ [Posted p r]\<rparr>)))"

text \<open>
  \<open>submitPost\<close>, lines 190 to 219. The reply permission is \<open>PUBLIC\<close> when the argument is
  \<open>undefined\<close> and the result of \<open>validateReplyPermission\<close> otherwise; the quote identifier
  is \<open>null\<close> when the argument is \<open>null\<close> or \<open>undefined\<close> and validated otherwise.
\<close>

definition submitPost :: "submit_args \<Rightarrow> world \<Rightarrow> (world \<times> (error + string)) option" where
  "submitPost args w =
     (case (if sp_replyPermission args = JUndefined then Inr (JStr ''PUBLIC'')
            else validateReplyPermission (sp_replyPermission args)) of
        Inl e \<Rightarrow> Some (w, Inl e)
      | Inr rp \<Rightarrow>
          (case (if nullish (sp_quotePostID args) then Inr JNull
                 else validateQuotePostID (sp_quotePostID args)) of
             Inl e \<Rightarrow> Some (w, Inl e)
           | Inr qid \<Rightarrow>
               (case fetch_post
                       \<lparr>p_body = sp_body args, p_medias = sp_medias args, p_replyPermission = rp,
                        p_quotePostID = qid,
                        p_userIP = (if truthy_str (sp_userIP args) then sp_userIP args else None)\<rparr> w of
                  None \<Rightarrow> None
                | Some (w1, Inl e) \<Rightarrow> Some (w1, Inl e)
                | Some (w1, Inr resp) \<Rightarrow>
                    if \<not> ok resp then
                      Some (w1, Inl (SubmitFailed (resp_status resp) (safeParseJSON resp)))
                    else (case json resp of
                        Inl m \<Rightarrow> Some (w1, Inl (JsonParseFailed m))
                      | Inr post \<Rightarrow> Some (w1, Inr post)))))"

section \<open>submitPostWithFiles\<close>

record swf_args =
  sw_body :: string
  sw_files :: files_arg
  sw_replyPermission :: jsval
  sw_quotePostID :: jsval
  sw_pollOptions :: poll_options
  sw_timeoutMs :: int

text \<open>
  The \<open>for\<close> loop of lines 247 to 267 over the upload identifiers, with the sources
  collected so far.
\<close>

fun pollUploads :: "config \<Rightarrow> poll_options \<Rightarrow> int \<Rightarrow> int \<Rightarrow> string list \<Rightarrow> string list \<Rightarrow> world \<Rightarrow> (world \<times> (error + string list)) option" where
  "pollUploads cfg pollOptions timeoutMs start [] finalSrcs w = Some (w, Inr finalSrcs)"
| "pollUploads cfg pollOptions timeoutMs start (uploadId # rest) finalSrcs w =
     (let remainingTime = timeoutMs - (now w - start) in
      if remainingTime \<le> 0 then Some (w, Inl ProcessingTimeout)
      else
        (case pollUntilProcessed cfg uploadId
                \<lparr>po_intervalMs = po_intervalMs pollOptions,
                 po_timeoutMs = Some (min remainingTime
                   (case po_timeoutMs pollOptions of None \<Rightarrow> pollTimeoutMs cfg | Some t \<Rightarrow> t))\<rparr> w of
           None \<Rightarrow> None
         | Some (w1, Inl e) \<Rightarrow> Some (w1, Inl e)
         | Some (w1, Inr statusObj) \<Rightarrow>
             if status statusObj \<noteq> Some ''PROCESSED'' then
               Some (w1, Inl (UploadTerminalState uploadId statusObj))
             else if \<not> truthy_str (src statusObj) then
               Some (w1, Inl (UploadNoSrc uploadId statusObj))
             else pollUploads cfg pollOptions timeoutMs start rest
                    (finalSrcs @ [the (src statusObj)]) w1))"

definition submitPostWithFiles :: "config \<Rightarrow> swf_args \<Rightarrow> world \<Rightarrow> (world \<times> (error + string)) option" where
  "submitPostWithFiles cfg args w =
     (if sw_files args = NotAnArray \<or> sw_files args = FileArray [] then
        submitPost \<lparr>sp_body = sw_body args, sp_medias = [],
          sp_replyPermission = sw_replyPermission args, sp_quotePostID = sw_quotePostID args,
          sp_userIP = None\<rparr> w
      else
        (case (if sw_replyPermission args = JUndefined then Inr JUndefined
               else validateReplyPermission (sw_replyPermission args)) of
           Inl e \<Rightarrow> Some (w, Inl e)
         | Inr rp \<Rightarrow>
             (case (if \<not> nullish (sw_quotePostID args) then validateQuotePostID (sw_quotePostID args)
                    else Inr JUndefined) of
                Inl e \<Rightarrow> Some (w, Inl e)
              | Inr qid \<Rightarrow>
                  (case retryAsync (uploadFiles (sw_files args)) (maxRetries cfg) 300 w of
                     None \<Rightarrow> None
                   | Some (w1, Inl err) \<Rightarrow> Some (w1, Inl (UploadingFilesFailed (message_of err)))
                   | Some (w1, Inr ups) \<Rightarrow>
                       (case pollUploads cfg (sw_pollOptions args) (sw_timeoutMs args) (now w1) ups [] w1 of
                          None \<Rightarrow> None
                        | Some (w2, Inl e) \<Rightarrow> Some (w2, Inl e)
                        | Some (w2, Inr finalSrcs) \<Rightarrow>
                            submitPost \<lparr>sp_body = sw_body args, sp_medias = finalSrcs,
                              sp_replyPermission = sw_replyPermission args,
                              sp_quotePostID = sw_quotePostID args, sp_userIP = None\<rparr> w2)))))"

section \<open>Notions used in the statements\<close>

text \<open>
  A quote identifier that \<open>submitPost\<close> lets through: \<open>null\<close> or \<open>undefined\<close>, or a value
  whose trimmed string passes \<open>CUID2_REGEX\<close>.
\<close>

definition quote_ok :: "jsval \<Rightarrow> bool" where
  "quote_ok q = (nullish q \<or> CUID2_REGEX_test (trim (js_String q)))"

text \<open>A world whose post endpoint answers the next request with 200 and a post.\<close>

definition example_reply :: "string reply" where
  "example_reply = (5, Resolves \<lparr>resp_status = 200, statusText = ''OK'', json = Inr ''post''\<rparr>)"

definition example_world :: world where
  "example_world = \<lparr>now = 0, readFileSync = (\<lambda>p. Inl ''ENOENT''), basename = (\<lambda>p. p),
     uploadReplies = [], statusReplies = [], postReplies = [example_reply], trace = []\<rparr>"

definition example_post :: "jsval \<Rightarrow> submit_args" where
  "example_post rp = \<lparr>sp_body = ''hello'', sp_medias = [], sp_replyPermission = rp,
     sp_quotePostID = JNull, sp_userIP = None\<rparr>"

text \<open>
  The identifier shape in the words of the specification: a leading letter followed by
  lowercase alphanumerics, total length between 24 and 32.
\<close>

definition spec_cuid_shape :: "string \<Rightarrow> bool" where
  "spec_cuid_shape s =
     (24 \<le> length s \<and> length s \<le> 32 \<and> is_letter (hd s) \<and>
      list_all (\<lambda>c. is_lower c \<or> is_digit c) (tl s))"

text \<open>The same shape with letters of either case after the leading letter.\<close>

definition cuid_shape_any_case :: "string \<Rightarrow> bool" where
  "cuid_shape_any_case s =
     (24 \<le> length s \<and> length s \<le> 32 \<and> is_letter (hd s) \<and> list_all is_alnum (tl s))"

text \<open>The statuses at which \<open>pollUntilProcessed\<close> returns.\<close>

definition terminal :: "status_obj \<Rightarrow> bool" where
  "terminal s = (status s = Some ''PROCESSED'' \<or> status s = Some ''DELETED'' \<or> status s = Some ''ATTACHED'')"

text \<open>
  What \<open>getUploadStatus\<close> makes of one scripted reply, and the status objects that an
  event of the trace handed to the caller.
\<close>

definition status_result :: "status_obj reply \<Rightarrow> error + status_obj" where
  "status_result r =
     (case snd r of
        RejectsAbort \<Rightarrow> Inl (RequestTimedOut 15000)
      | RejectsOther m \<Rightarrow> Inl (FetchRejected m)
      | Resolves resp \<Rightarrow>
          if resp_status resp = 404 then Inr missing_sentinel
          else if \<not> ok resp then Inl (StatusFetchFailed (resp_status resp) (safeParseJSON resp))
          else (case json resp of Inl m \<Rightarrow> Inl (JsonParseFailed m) | Inr s \<Rightarrow> Inr s))"

fun observed :: "event \<Rightarrow> status_obj list" where
  "observed (StatusQueried uploadId r) = (case status_result r of Inl e \<Rightarrow> [] | Inr s \<Rightarrow> [s])"
| "observed (Uploaded form r) = []"
| "observed (Posted p r) = []"
| "observed (Waited ms) = []"

text \<open>The interval and the timeout that \<open>pollUntilProcessed\<close> resolves from its options.\<close>

definition poll_interval :: "config \<Rightarrow> poll_options \<Rightarrow> nat" where
  "poll_interval cfg options = (case po_intervalMs options of None \<Rightarrow> pollIntervalMs cfg | Some i \<Rightarrow> i)"

definition poll_timeout :: "config \<Rightarrow> poll_options \<Rightarrow> int" where
  "poll_timeout cfg options = (case po_timeoutMs options of None \<Rightarrow> pollTimeoutMs cfg | Some t \<Rightarrow> t)"

text \<open>Scripted status replies and a world that holds only such replies.\<close>

definition status_reply :: "nat \<Rightarrow> string \<Rightarrow> string option \<Rightarrow> status_obj reply" where
  "status_reply ms st sr =
     (ms, Resolves \<lparr>resp_status = 200, statusText = ''OK'',
        json = Inr \<lparr>status = Some st, src = sr, missing = False\<rparr>\<rparr>)"

definition not_found_reply :: "nat \<Rightarrow> status_obj reply" where
  "not_found_reply ms =
     (ms, Resolves \<lparr>resp_status = 404, statusText = ''Not Found'', json = Inl ''Unexpected end of JSON input''\<rparr>)"

definition polling_world :: "status_obj reply list \<Rightarrow> world" where
  "polling_world rs = \<lparr>now = 0, readFileSync = (\<lambda>p. Inl ''ENOENT''), basename = (\<lambda>p. p),
     uploadReplies = [], statusReplies = rs, postReplies = [], trace = []\<rparr>"

text \<open>The world after one status query was answered by \<open>r\<close>.\<close>

definition answered :: "string \<Rightarrow> status_obj reply \<Rightarrow> world \<Rightarrow> world" where
  "answered uploadId r w =
     w\<lparr>now := now w + int (fst r), statusReplies := tl (statusReplies w),
       trace := trace w @ [StatusQueried uploadId r]\<rparr>"

text \<open>
  What \<open>uploadFiles\<close> makes of one scripted reply of the upload endpoint, and the world after
  the upload request was answered by \<open>r\<close>.
\<close>

definition upload_result :: "upload_body reply \<Rightarrow> error + string list" where
  "upload_result r =
     (case snd r of
        RejectsAbort \<Rightarrow> Inl (RequestTimedOut 60000)
      | RejectsOther m \<Rightarrow> Inl (FetchRejected m)
      | Resolves resp \<Rightarrow>
          if \<not> ok resp then
            Inl (UploadFailed (resp_status resp) (statusText resp) (safeParseJSON resp))
          else (case json resp of
              Inl m \<Rightarrow> Inl (JsonParseFailed m)
            | Inr j \<Rightarrow>
                if \<not> success j then Inl (UploadNotSuccessful j)
                else Inr (case uploads j of None \<Rightarrow> [] | Some us \<Rightarrow> us)))"

definition uploaded :: "form_part list \<Rightarrow> upload_body reply \<Rightarrow> world \<Rightarrow> world" where
  "uploaded form r w =
     w\<lparr>now := now w + int (fst r), uploadReplies := tl (uploadReplies w),
       trace := trace w @ [Uploaded form r]\<rparr>"

text \<open>
  An item that supplies one of the three forms (a truthy \<open>path\<close>, a \<open>buffer\<close> or a \<open>file\<close>),
  and an item whose \<open>path\<close> cannot be read.
\<close>

definition item_has_form :: "file_item \<Rightarrow> bool" where
  "item_has_form f = (truthy_str (f_path f) \<or> f_buffer f \<noteq> None \<or> f_file f \<noteq> None)"

definition path_unreadable :: "world \<Rightarrow> file_item \<Rightarrow> bool" where
  "path_unreadable w f = (truthy_str (f_path f) \<and> isl (readFileSync w (the (f_path f))))"

text \<open>
  The failure conditions of \<open>uploadFiles\<close> in the words of the specification: the list is
  empty or not a list, an item supplies none of the three forms, the response has a
  non-success status, or its body has \<open>success\<close> false.
\<close>

definition spec_upload_fails :: "files_arg \<Rightarrow> upload_body reply \<Rightarrow> bool" where
  "spec_upload_fails files r =
     (case files of
        NotAnArray \<Rightarrow> True
      | FileArray fs \<Rightarrow>
          fs = [] \<or> list_ex (\<lambda>f. \<not> item_has_form f) fs \<or>
          (case snd r of
             Resolves resp \<Rightarrow>
               \<not> ok resp \<or> (case json resp of Inl m \<Rightarrow> False | Inr j \<Rightarrow> \<not> success j)
           | RejectsAbort \<Rightarrow> False
           | RejectsOther m \<Rightarrow> False))"

text \<open>
  The failure conditions of the code: those of the specification, and also a path that
  cannot be read, a request that is rejected, and a success response whose body does not
  parse.
\<close>

definition upload_fails :: "world \<Rightarrow> files_arg \<Rightarrow> upload_body reply \<Rightarrow> bool" where
  "upload_fails w files r =
     (case files of
        NotAnArray \<Rightarrow> True
      | FileArray fs \<Rightarrow>
          fs = [] \<or> list_ex (\<lambda>f. \<not> item_has_form f) fs \<or> list_ex (path_unreadable w) fs \<or>
          (case snd r of
             Resolves resp \<Rightarrow>
               \<not> ok resp \<or> (case json resp of Inl m \<Rightarrow> True | Inr j \<Rightarrow> \<not> success j)
           | RejectsAbort \<Rightarrow> True
           | RejectsOther m \<Rightarrow> True))"

text \<open>Example data: a buffer item, the form part made from it, scripted worlds and replies.\<close>

definition buffer_file :: file_item where
  "buffer_file = \<lparr>f_path = None, f_buffer = Some ''bytes'', f_file = None,
     f_filename = Some ''a.png'', f_contentType = None\<rparr>"

definition png_part :: form_part where
  "png_part = \<lparr>fp_filename = ''a.png'', fp_contentType = ''image/png'', fp_content = ''bytes''\<rparr>"

definition scripted_world :: "upload_body reply list \<Rightarrow> status_obj reply list \<Rightarrow> string reply list \<Rightarrow> world" where
  "scripted_world us ss ps = \<lparr>now = 0, readFileSync = (\<lambda>p. Inl ''ENOENT''), basename = (\<lambda>p. p),
     uploadReplies = us, statusReplies = ss, postReplies = ps, trace = []\<rparr>"

definition upload_ok_reply :: "nat \<Rightarrow> string list option \<Rightarrow> upload_body reply" where
  "upload_ok_reply ms ids =
     (ms, Resolves \<lparr>resp_status = 200, statusText = ''OK'',
        json = Inr \<lparr>success = True, uploads = ids, reason = None\<rparr>\<rparr>)"

definition upload_error_reply :: "nat \<Rightarrow> upload_body reply" where
  "upload_error_reply ms =
     (ms, Resolves \<lparr>resp_status = 500, statusText = ''Internal Server Error'',
        json = Inr \<lparr>success = False, uploads = None, reason = Some ''boom''\<rparr>\<rparr>)"

text \<open>The delays of the waits in a trace, and the number of upload requests in it.\<close>

fun wait_of :: "event \<Rightarrow> nat list" where
  "wait_of (Waited ms) = [ms]"
| "wait_of (Uploaded form r) = []"
| "wait_of (StatusQueried uploadId r) = []"
| "wait_of (Posted p r) = []"

definition waits :: "event list \<Rightarrow> nat list" where
  "waits evs = concat (map wait_of evs)"

fun is_upload :: "event \<Rightarrow> bool" where
  "is_upload (Uploaded form r) = True"
| "is_upload (Waited ms) = False"
| "is_upload (StatusQueried uploadId r) = False"
| "is_upload (Posted p r) = False"

fun is_wait :: "event \<Rightarrow> bool" where
  "is_wait (Waited ms) = True"
| "is_wait (Uploaded form r) = False"
| "is_wait (StatusQueried uploadId r) = False"
| "is_wait (Posted p r) = False"

definition uploads_in :: "event list \<Rightarrow> nat" where
  "uploads_in evs = length (filter is_upload evs)"

definition example_files_post :: swf_args where
  "example_files_post = \<lparr>sw_body = ''hello'', sw_files = FileArray [buffer_file],
     sw_replyPermission = JUndefined, sw_quotePostID = JNull,
     sw_pollOptions = \<lparr>po_intervalMs = None, po_timeoutMs = None\<rparr>, sw_timeoutMs = 120000\<rparr>"

text \<open>A reply permission that the eager validation of \<open>submitPostWithFiles\<close> lets through.\<close>

definition reply_permission_ok :: "jsval \<Rightarrow> bool" where
  "reply_permission_ok rp = (\<not> isl (validateReplyPermission rp))"

text \<open>
  The status with which each poll of a trace ended, with its upload identifier: the
  terminal statuses that the status queries returned, in order. And the payloads of the
  post requests of a trace.
\<close>

fun final_of :: "event \<Rightarrow> (string \<times> status_obj) list" where
  "final_of (StatusQueried uploadId r) =
     (case status_result r of
        Inl e \<Rightarrow> []
      | Inr s \<Rightarrow> if terminal s then [(uploadId, s)] else [])"
| "final_of (Uploaded form r) = []"
| "final_of (Posted p r) = []"
| "final_of (Waited ms) = []"

definition finals :: "event list \<Rightarrow> (string \<times> status_obj) list" where
  "finals evs = concat (map final_of evs)"

fun posted_of :: "event \<Rightarrow> payload list" where
  "posted_of (Posted p r) = [p]"
| "posted_of (StatusQueried uploadId r) = []"
| "posted_of (Uploaded form r) = []"
| "posted_of (Waited ms) = []"

definition posts :: "event list \<Rightarrow> payload list" where
  "posts evs = concat (map posted_of evs)"

text \<open>A status that may be referenced by a post: \<open>PROCESSED\<close> with a truthy \<open>src\<close>.\<close>

definition processed_with_src :: "status_obj \<Rightarrow> bool" where
  "processed_with_src s = (status s = Some ''PROCESSED'' \<and> truthy_str (src s))"

text \<open>
  A reply of the status endpoint after which the polling loop goes on: it resolves with a
  status that is not terminal.
\<close>

definition non_terminal_reply :: "status_obj reply \<Rightarrow> bool" where
  "non_terminal_reply r = (case status_result r of Inl e \<Rightarrow> False | Inr s \<Rightarrow> \<not> terminal s)"

text \<open>
  \<open>within_budget timeoutMs interval elapsed rs\<close>: when the queries answered by \<open>rs\<close> are made
  one after another, with a wait of \<open>interval\<close> after each, starting \<open>elapsed\<close> milliseconds
  after the start of the poll, every one of them completes with at most \<open>timeoutMs\<close>
  milliseconds elapsed since that start.
\<close>

fun within_budget :: "int \<Rightarrow> nat \<Rightarrow> int \<Rightarrow> status_obj reply list \<Rightarrow> bool" where
  "within_budget timeoutMs interval elapsed [] = True"
| "within_budget timeoutMs interval elapsed (r # rs) =
     (elapsed + int (fst r) \<le> timeoutMs \<and>
      within_budget timeoutMs interval (elapsed + int (fst r) + int interval) rs)"

text \<open>
  The world after the status queries answered by \<open>rs\<close>, each followed by a wait of
  \<open>interval\<close>, and the events that these rounds add to the trace.
\<close>

fun polled :: "string \<Rightarrow> nat \<Rightarrow> status_obj reply list \<Rightarrow> world \<Rightarrow> world" where
  "polled uploadId interval [] w = w"
| "polled uploadId interval (r # rs) w =
     polled uploadId interval rs (wait interval (answered uploadId r w))"

fun poll_events :: "string \<Rightarrow> nat \<Rightarrow> status_obj reply list \<Rightarrow> event list" where
  "poll_events uploadId interval [] = []"
| "poll_events uploadId interval (r # rs) =
     StatusQueried uploadId r # Waited interval # poll_events uploadId interval rs"

text \<open>
  The replies that one poll consumes, as a pair: the replies with a non-terminal status
  and the reply that ends the poll. \<open>script_time\<close> is the time such a poll takes (the
  requests and the waits between them), \<open>script_ends sc s\<close> says that the last reply is the
  terminal status \<open>s\<close>.
\<close>

type_synonym poll_script = "status_obj reply list \<times> status_obj reply"

definition script_replies :: "poll_script \<Rightarrow> status_obj reply list" where
  "script_replies sc = fst sc @ [snd sc]"

definition script_time :: "nat \<Rightarrow> poll_script \<Rightarrow> int" where
  "script_time interval sc =
     sum_list (map (\<lambda>r. int (fst r) + int interval) (fst sc)) + int (fst (snd sc))"

definition script_ends :: "poll_script \<Rightarrow> status_obj \<Rightarrow> bool" where
  "script_ends sc s = (status_result (snd sc) = Inr s \<and> terminal s)"

text \<open>
  \<open>polls_in_budget timeoutMs pollTimeout interval elapsed scs\<close>: when the polls scripted by
  \<open>scs\<close> run one after another, the first of them starting \<open>elapsed\<close> milliseconds after the
  start of the polling phase, each poll starts before the overall \<open>timeoutMs\<close> has elapsed
  and each of its non-terminal replies arrives within the timeout of that poll, which is
  the smaller of the remaining time and \<open>pollTimeout\<close>.
\<close>

fun polls_in_budget :: "int \<Rightarrow> int \<Rightarrow> nat \<Rightarrow> int \<Rightarrow> poll_script list \<Rightarrow> bool" where
  "polls_in_budget timeoutMs pollTimeout interval elapsed [] = True"
| "polls_in_budget timeoutMs pollTimeout interval elapsed (sc # scs) =
     (elapsed < timeoutMs \<and> list_all non_terminal_reply (fst sc) \<and>
      within_budget (min (timeoutMs - elapsed) pollTimeout) interval 0 (fst sc) \<and>
      polls_in_budget timeoutMs pollTimeout interval (elapsed + script_time interval sc) scs)"

text \<open>
  The world after the polls of the identifiers \<open>ids\<close> consumed the scripts \<open>scs\<close>, and the
  events that these polls add to the trace.
\<close>

fun polled_all :: "nat \<Rightarrow> string list \<Rightarrow> poll_script list \<Rightarrow> world \<Rightarrow> world" where
  "polled_all interval (uploadId # ids) (sc # scs) w =
     polled_all interval ids scs (answered uploadId (snd sc) (polled uploadId interval (fst sc) w))"
| "polled_all interval [] scs w = w"
| "polled_all interval ids [] w = w"

fun polls_events :: "nat \<Rightarrow> string list \<Rightarrow> poll_script list \<Rightarrow> event list" where
  "polls_events interval (uploadId # ids) (sc # scs) =
     poll_events uploadId interval (fst sc) @ StatusQueried uploadId (snd sc) #
       polls_events interval ids scs"
| "polls_events interval [] scs = []"
| "polls_events interval ids [] = []"

text \<open>
  The world after the upload attempts answered by the failing replies \<open>rs\<close>, each followed
  by the wait of \<open>retryAsync\<close> (\<open>i\<close> failed attempts came before), and the events that these
  attempts add to the trace.
\<close>

fun retried :: "form_part list \<Rightarrow> nat \<Rightarrow> nat \<Rightarrow> upload_body reply list \<Rightarrow> world \<Rightarrow> world" where
  "retried form backoffMs i [] w = w"
| "retried form backoffMs i (r # rs) w =
     retried form backoffMs (Suc i) rs (wait (backoffMs * Suc i) (uploaded form r w))"

fun retry_events :: "form_part list \<Rightarrow> nat \<Rightarrow> nat \<Rightarrow> upload_body reply list \<Rightarrow> event list" where
  "retry_events form backoffMs i [] = []"
| "retry_events form backoffMs i (r # rs) =
     Uploaded form r # Waited (backoffMs * Suc i) # retry_events form backoffMs (Suc i) rs"

text \<open>A reply of the upload endpoint that makes \<open>uploadFiles\<close> fail.\<close>

definition failing_reply :: "upload_body reply \<Rightarrow> bool" where
  "failing_reply r = isl (upload_result r)"

text \<open>
  A list of file items that \<open>uploadFiles\<close> turns into a form: it is not empty, every item
  supplies one of the three forms, and every path can be read.
\<close>

definition well_formed :: "world \<Rightarrow> file_item list \<Rightarrow> bool" where
  "well_formed w fs =
     (fs \<noteq> [] \<and> \<not> list_ex (\<lambda>f. \<not> item_has_form f) fs \<and> \<not> list_ex (path_unreadable w) fs)"

text \<open>
  More example data: an item with none of the three forms, a path item, a reply with a
  success status whose body has \<open>success\<close> false, and one whose body does not parse.
\<close>

definition empty_item :: file_item where
  "empty_item = \<lparr>f_path = None, f_buffer = None, f_file = None,
     f_filename = Some ''b.png'', f_contentType = None\<rparr>"

definition path_item :: file_item where
  "path_item = \<lparr>f_path = Some ''/tmp/c.png'', f_buffer = None, f_file = None,
     f_filename = None, f_contentType = None\<rparr>"

definition upload_refused_reply :: "nat \<Rightarrow> upload_body reply" where
  "upload_refused_reply ms =
     (ms, Resolves \<lparr>resp_status = 200, statusText = ''OK'',
        json = Inr \<lparr>success = False, uploads = None, reason = Some ''quota''\<rparr>\<rparr>)"

definition upload_garbled_reply :: "nat \<Rightarrow> upload_body reply" where
  "upload_garbled_reply ms =
     (ms, Resolves \<lparr>resp_status = 200, statusText = ''OK'', json = Inl ''Unexpected token''\<rparr>)"

text \<open>
  The world after \<open>n\<close> waits of \<open>retryAsync\<close> with no request between them (\<open>i\<close> failed
  attempts came before).
\<close>

fun backed_off :: "nat \<Rightarrow> nat \<Rightarrow> nat \<Rightarrow> world \<Rightarrow> world" where
  "backed_off backoffMs i 0 w = w"
| "backed_off backoffMs i (Suc n) w = backed_off backoffMs (Suc i) n (wait (backoffMs * Suc i) w)"

section \<open>Characters and strings\<close>

lemmas char_defs = is_lower_def is_upper_def is_digit_def is_space_def is_letter_def is_alnum_def
  upper_char_def lower_char_def char_of_eq_iff

lemma trim_empty_all_space: "trim s = [] \<Longrightarrow> \<forall>c\<in>set s. is_space c"
proof -
  assume "trim s = []"
  then have "dropWhile is_space (rev (dropWhile is_space s)) = []"
    by (simp add: trim_def)
  then have a: "\<forall>c\<in>set (dropWhile is_space s). is_space c"
    by (simp add: dropWhile_eq_Nil_conv)
  have "dropWhile is_space s = []"
  proof (cases "dropWhile is_space s")
    case Nil then show ?thesis .
  next
    case (Cons c cs)
    then have "\<not> is_space c" using hd_dropWhile[of is_space s] by simp
    with a Cons show ?thesis by simp
  qed
  then show ?thesis by (simp add: dropWhile_eq_Nil_conv)
qed

lemma upper_space: "is_space c \<Longrightarrow> upper_char c = c"
  by (auto simp: upper_char_def is_space_def is_lower_def)

lemma blank_not_permission: "trim s = [] \<Longrightarrow> toUpperCase s \<notin> set REPLY_PERMISSIONS"
proof
  assume t: "trim s = []" and m: "toUpperCase s \<in> set REPLY_PERMISSIONS"
  from m obtain c cs where s: "s = c # cs" and u: "upper_char c = CHR ''P''"
    by (cases s) (auto simp: toUpperCase_def REPLY_PERMISSIONS_def)
  from t s have "is_space c" using trim_empty_all_space by fastforce
  with u have "is_space (CHR ''P'')" using upper_space by metis
  then show False by (simp add: is_space_def)
qed

lemma example_world_simps:
  "postReplies example_world = [example_reply]" "trace example_world = []"
  by (simp_all add: example_world_def)

lemma example_post_simps:
  "sp_replyPermission (example_post rp) = rp" "sp_quotePostID (example_post rp) = JNull"
  by (simp_all add: example_post_def)

lemma uploaded_simps [simp]:
  "statusReplies (uploaded form r w) = statusReplies w" "postReplies (uploaded form r w) = postReplies w"
  "trace (uploaded form r w) = trace w @ [Uploaded form r]" "now (uploaded form r w) = now w + int (fst r)"
  "uploadReplies (uploaded form r w) = tl (uploadReplies w)"
  "readFileSync (uploaded form r w) = readFileSync w" "basename (uploaded form r w) = basename w"
  by (simp_all add: uploaded_def)

lemma answered_simps [simp]:
  "statusReplies (answered uploadId r w) = tl (statusReplies w)"
  "postReplies (answered uploadId r w) = postReplies w"
  "uploadReplies (answered uploadId r w) = uploadReplies w"
  "trace (answered uploadId r w) = trace w @ [StatusQueried uploadId r]"
  "now (answered uploadId r w) = now w + int (fst r)"
  by (simp_all add: answered_def)

lemma wait_simps [simp]:
  "statusReplies (wait ms w) = statusReplies w" "postReplies (wait ms w) = postReplies w"
  "uploadReplies (wait ms w) = uploadReplies w"
  "trace (wait ms w) = trace w @ [Waited ms]" "now (wait ms w) = now w + int ms"
  "readFileSync (wait ms w) = readFileSync w" "basename (wait ms w) = basename w"
  by (simp_all add: wait_def)

section \<open>submitPost: the reply permission\<close>

lemma submitPost_sends:
  assumes "(if sp_replyPermission args = JUndefined then Inr (JStr ''PUBLIC'')
            else validateReplyPermission (sp_replyPermission args)) = Inr rp"
    and "(if nullish (sp_quotePostID args) then Inr JNull
                 else validateQuotePostID (sp_quotePostID args)) = Inr qid"
    and "postReplies w = r # rs"
  shows "\<exists>w' res. submitPost args w = Some (w', res) \<and>
     trace w' = trace w @ [Posted \<lparr>p_body = sp_body args, p_medias = sp_medias args, p_replyPermission = rp,
                        p_quotePostID = qid,
                        p_userIP = (if truthy_str (sp_userIP args) then sp_userIP args else None)\<rparr> r]"
  using assms unfolding submitPost_def
  by (auto simp: fetch_post_def fetchWithTimeout_def Let_def split: fetch_outcome.splits sum.splits)

lemma submitPost_rejects:
  assumes "(if sp_replyPermission args = JUndefined then Inr (JStr ''PUBLIC'')
            else validateReplyPermission (sp_replyPermission args)) = Inl e"
  shows "submitPost args w = Some (w, Inl e)"
  using assms unfolding submitPost_def by simp

lemma quote_ok_result:
  "quote_ok q \<Longrightarrow> \<exists>qid. (if nullish q then Inr JNull else validateQuotePostID q) = Inr qid"
  by (cases "nullish q") (auto simp: quote_ok_def validateQuotePostID_def Let_def)

lemma reply_permission_ok_result:
  "reply_permission_ok rp \<Longrightarrow>
     \<exists>v. (if rp = JUndefined then Inr (JStr ''PUBLIC'') else validateReplyPermission rp) = Inr v"
  by (cases "validateReplyPermission rp") (auto simp: reply_permission_ok_def)

text \<open>
  Claim C3. For every \<open>replyPermission\<close> given to \<open>submitPost\<close>: when it is \<open>undefined\<close> the
  request that is sent carries \<open>PUBLIC\<close>; when it is supplied but falsy (the empty string,
  \<open>null\<close>, \<open>false\<close>, \<open>0\<close>) the call fails validation in the unchanged world, so before any
  request; when it is supplied, not falsy, and its upper-cased string is \<open>PUBLIC\<close> or
  \<open>PRIVATE\<close>, the request carries that upper-cased value; and every supplied value whose
  upper-cased string is neither fails validation in the unchanged world. The two cases that
  send a request assume a quote identifier that passes and a reply of the post endpoint.
\<close>

theorem submitPost_replyPermission:
  "(sp_replyPermission args = JUndefined \<and> quote_ok (sp_quotePostID args) \<and> postReplies w = r # rs \<longrightarrow>
      (\<exists>w' res p. submitPost args w = Some (w', res) \<and> trace w' = trace w @ [Posted p r] \<and>
         p_replyPermission p = JStr ''PUBLIC''))
   \<and> (sp_replyPermission args \<noteq> JUndefined \<and> falsy (sp_replyPermission args) \<longrightarrow>
      submitPost args w = Some (w, Inl ReplyPermissionEmpty))
   \<and> (sp_replyPermission args \<noteq> JUndefined \<and> \<not> falsy (sp_replyPermission args) \<and>
      toUpperCase (js_String (sp_replyPermission args)) \<in> {''PUBLIC'', ''PRIVATE''} \<and>
      quote_ok (sp_quotePostID args) \<and> postReplies w = r # rs \<longrightarrow>
      (\<exists>w' res p. submitPost args w = Some (w', res) \<and> trace w' = trace w @ [Posted p r] \<and>
         p_replyPermission p = JStr (toUpperCase (js_String (sp_replyPermission args)))))
   \<and> (sp_replyPermission args \<noteq> JUndefined \<and>
      toUpperCase (js_String (sp_replyPermission args)) \<notin> {''PUBLIC'', ''PRIVATE''} \<longrightarrow>
      (\<exists>e. submitPost args w = Some (w, Inl e) \<and>
         (e = ReplyPermissionEmpty \<or> e = ReplyPermissionInvalid)))"
proof (intro conjI impI)
  assume a: "sp_replyPermission args = JUndefined \<and> quote_ok (sp_quotePostID args) \<and> postReplies w = r # rs"
  then obtain qid where "(if nullish (sp_quotePostID args) then Inr JNull
                 else validateQuotePostID (sp_quotePostID args)) = Inr qid"
    using quote_ok_result by blast
  with a show "\<exists>w' res p. submitPost args w = Some (w', res) \<and> trace w' = trace w @ [Posted p r] \<and>
         p_replyPermission p = JStr ''PUBLIC''"
    using submitPost_sends[of args "JStr ''PUBLIC''" qid w r rs] by auto
next
  assume "sp_replyPermission args \<noteq> JUndefined \<and> falsy (sp_replyPermission args)"
  then show "submitPost args w = Some (w, Inl ReplyPermissionEmpty)"
    by (intro submitPost_rejects) (simp add: validateReplyPermission_def)
next
  assume a: "sp_replyPermission args \<noteq> JUndefined \<and> \<not> falsy (sp_replyPermission args) \<and>
      toUpperCase (js_String (sp_replyPermission args)) \<in> {''PUBLIC'', ''PRIVATE''} \<and>
      quote_ok (sp_quotePostID args) \<and> postReplies w = r # rs"
  then obtain qid where q: "(if nullish (sp_quotePostID args) then Inr JNull
                 else validateQuotePostID (sp_quotePostID args)) = Inr qid"
    using quote_ok_result by blast
  from a have m: "toUpperCase (js_String (sp_replyPermission args)) \<in> set REPLY_PERMISSIONS"
    by (auto simp: REPLY_PERMISSIONS_def)
  have nb: "\<not> (case sp_replyPermission args of JStr s \<Rightarrow> trim s = [] | _ \<Rightarrow> False)"
    using m blank_not_permission by (auto split: jsval.splits)
  from a have nn: "sp_replyPermission args \<noteq> JNull" by auto
  have "validateReplyPermission (sp_replyPermission args) =
      Inr (JStr (toUpperCase (js_String (sp_replyPermission args))))"
    using a m nb nn by (simp add: validateReplyPermission_def Let_def)
  with a q show "\<exists>w' res p. submitPost args w = Some (w', res) \<and> trace w' = trace w @ [Posted p r] \<and>
         p_replyPermission p = JStr (toUpperCase (js_String (sp_replyPermission args)))"
    using submitPost_sends[of args "JStr (toUpperCase (js_String (sp_replyPermission args)))" qid w r rs]
    by auto
next
  assume a: "sp_replyPermission args \<noteq> JUndefined \<and>
      toUpperCase (js_String (sp_replyPermission args)) \<notin> {''PUBLIC'', ''PRIVATE''}"
  then have "toUpperCase (js_String (sp_replyPermission args)) \<notin> set REPLY_PERMISSIONS"
    by (auto simp: REPLY_PERMISSIONS_def)
  with a have "validateReplyPermission (sp_replyPermission args) = Inl ReplyPermissionEmpty
     \<or> validateReplyPermission (sp_replyPermission args) = Inl ReplyPermissionInvalid"
    by (simp add: validateReplyPermission_def Let_def)
  with a show "\<exists>e. submitPost args w = Some (w, Inl e) \<and>
         (e = ReplyPermissionEmpty \<or> e = ReplyPermissionInvalid)"
    using submitPost_rejects[of args _ w] by auto
qed

theorem submitPost_replyPermission_witness:
  "(\<exists>w' res p. submitPost (example_post JUndefined) example_world = Some (w', res) \<and>
       trace w' = [Posted p example_reply] \<and> p_replyPermission p = JStr ''PUBLIC'')
   \<and> submitPost (example_post (JStr [])) example_world = Some (example_world, Inl ReplyPermissionEmpty)
   \<and> submitPost (example_post JNull) example_world = Some (example_world, Inl ReplyPermissionEmpty)
   \<and> submitPost (example_post (JBool False)) example_world = Some (example_world, Inl ReplyPermissionEmpty)
   \<and> submitPost (example_post (JNum 0)) example_world = Some (example_world, Inl ReplyPermissionEmpty)
   \<and> (\<exists>w' res p. submitPost (example_post (JStr ''Public'')) example_world = Some (w', res) \<and>
       trace w' = [Posted p example_reply] \<and> p_replyPermission p = JStr ''PUBLIC'')
   \<and> (\<exists>w' res p. submitPost (example_post (JStr ''private'')) example_world = Some (w', res) \<and>
       trace w' = [Posted p example_reply] \<and> p_replyPermission p = JStr ''PRIVATE'')
   \<and> (\<exists>e. submitPost (example_post (JStr ''other'')) example_world = Some (example_world, Inl e) \<and>
         (e = ReplyPermissionEmpty \<or> e = ReplyPermissionInvalid))"
proof -
  note T = submitPost_replyPermission
  note S = example_world_simps example_post_simps quote_ok_def nullish_def
  have u: "toUpperCase ''Public'' = ''PUBLIC''" "toUpperCase ''private'' = ''PRIVATE''"
     "toUpperCase ''other'' = ''OTHER''"
    by (simp_all add: toUpperCase_def char_defs)
  have 1: "\<exists>w' res p. submitPost (example_post JUndefined) example_world = Some (w', res) \<and>
       trace w' = [Posted p example_reply] \<and> p_replyPermission p = JStr ''PUBLIC''"
    using T[of "example_post JUndefined" example_world example_reply "[]"] by (simp add: S)
  have 2: "submitPost (example_post (JStr [])) example_world = Some (example_world, Inl ReplyPermissionEmpty)"
    using T[of "example_post (JStr [])" example_world] by (simp add: S)
  have 3: "submitPost (example_post JNull) example_world = Some (example_world, Inl ReplyPermissionEmpty)"
    using T[of "example_post JNull" example_world] by (simp add: S)
  have 4: "submitPost (example_post (JBool False)) example_world = Some (example_world, Inl ReplyPermissionEmpty)"
    using T[of "example_post (JBool False)" example_world] by (simp add: S)
  have 5: "submitPost (example_post (JNum 0)) example_world = Some (example_world, Inl ReplyPermissionEmpty)"
    using T[of "example_post (JNum 0)" example_world] by (simp add: S)
  have 6: "\<exists>w' res p. submitPost (example_post (JStr ''Public'')) example_world = Some (w', res) \<and>
       trace w' = [Posted p example_reply] \<and> p_replyPermission p = JStr ''PUBLIC''"
    using T[of "example_post (JStr ''Public'')" example_world example_reply "[]"] by (simp add: S u)
  have 7: "\<exists>w' res p. submitPost (example_post (JStr ''private'')) example_world = Some (w', res) \<and>
       trace w' = [Posted p example_reply] \<and> p_replyPermission p = JStr ''PRIVATE''"
    using T[of "example_post (JStr ''private'')" example_world example_reply "[]"] by (simp add: S u)
  have 8: "\<exists>e. submitPost (example_post (JStr ''other'')) example_world = Some (example_world, Inl e) \<and>
         (e = ReplyPermissionEmpty \<or> e = ReplyPermissionInvalid)"
    using T[of "example_post (JStr ''other'')" example_world] by (simp add: S u)
  from 1 2 3 4 5 6 7 8 show ?thesis by blast
qed

section \<open>validateQuotePostID\<close>

lemma CUID2_REGEX_test_iff: "CUID2_REGEX_test s = cuid_shape_any_case s"
  by (cases s) (auto simp: CUID2_REGEX_test_def cuid_shape_any_case_def)

lemma lower_char_letter: "is_letter c \<Longrightarrow> is_letter (lower_char c)"
  by (auto simp: is_letter_def lower_char_def is_upper_def is_lower_def)

lemma lower_char_alnum: "is_alnum c \<Longrightarrow> is_lower (lower_char c) \<or> is_digit (lower_char c)"
  by (auto simp: is_alnum_def is_letter_def lower_char_def is_upper_def is_lower_def is_digit_def)

lemma toLowerCase_shape: "cuid_shape_any_case s \<Longrightarrow> spec_cuid_shape (toLowerCase s)"
proof -
  assume a: "cuid_shape_any_case s"
  then obtain c cs where s: "s = c # cs" by (cases s) (auto simp: cuid_shape_any_case_def)
  with a show ?thesis
    by (auto simp: cuid_shape_any_case_def spec_cuid_shape_def toLowerCase_def list_all_iff
        lower_char_letter dest: lower_char_alnum)
qed

text \<open>
  Claim C6, amended. For every quote identifier that is neither \<open>null\<close> nor \<open>undefined\<close>,
  validation succeeds exactly when the trimmed string is a letter followed by letters of
  either case and digits, 24 to 32 characters in all, and fails otherwise; on success the
  result is the lower-cased string, which has the shape of the specification. A \<open>null\<close>
  or \<open>undefined\<close> identifier passes validation, and \<open>submitPost\<close> submits it as \<open>null\<close>
  whatever valid reply permission comes with it.
\<close>

theorem validateQuotePostID_any_case:
  "(\<not> nullish ident \<longrightarrow>
      validateQuotePostID ident =
        (if cuid_shape_any_case (trim (js_String ident))
         then Inr (JStr (toLowerCase (trim (js_String ident))))
         else Inl QuotePostIDInvalid))
   \<and> (cuid_shape_any_case s \<longrightarrow> spec_cuid_shape (toLowerCase s))
   \<and> (nullish ident \<longrightarrow> validateQuotePostID ident = Inr JUndefined)
   \<and> (nullish (sp_quotePostID args) \<and> reply_permission_ok (sp_replyPermission args) \<and>
        postReplies w = r # rs \<longrightarrow>
        (\<exists>w' res p. submitPost args w = Some (w', res) \<and> trace w' = trace w @ [Posted p r] \<and>
           p_quotePostID p = JNull))"
proof (intro conjI impI)
  assume "\<not> nullish ident"
  then show "validateQuotePostID ident =
        (if cuid_shape_any_case (trim (js_String ident))
         then Inr (JStr (toLowerCase (trim (js_String ident))))
         else Inl QuotePostIDInvalid)"
    by (simp add: validateQuotePostID_def Let_def CUID2_REGEX_test_iff)
next
  assume "cuid_shape_any_case s"
  then show "spec_cuid_shape (toLowerCase s)" by (rule toLowerCase_shape)
next
  assume "nullish ident"
  then show "validateQuotePostID ident = Inr JUndefined" by (simp add: validateQuotePostID_def)
next
  assume a: "nullish (sp_quotePostID args) \<and> reply_permission_ok (sp_replyPermission args) \<and>
        postReplies w = r # rs"
  then obtain v where v: "(if sp_replyPermission args = JUndefined then Inr (JStr ''PUBLIC'')
      else validateReplyPermission (sp_replyPermission args)) = Inr v"
    using reply_permission_ok_result by blast
  from a have q: "(if nullish (sp_quotePostID args) then Inr JNull
      else validateQuotePostID (sp_quotePostID args)) = Inr JNull" by simp
  from a have p: "postReplies w = r # rs" by simp
  from submitPost_sends[OF v q p]
  show "\<exists>w' res p. submitPost args w = Some (w', res) \<and> trace w' = trace w @ [Posted p r] \<and>
           p_quotePostID p = JNull"
    by auto
qed

lemma cuid_examples:
  "trim ''a1b2c3d4e5f6g7h8i9j0k1l2'' = ''a1b2c3d4e5f6g7h8i9j0k1l2''"
  "cuid_shape_any_case ''a1b2c3d4e5f6g7h8i9j0k1l2''"
  "toLowerCase ''a1b2c3d4e5f6g7h8i9j0k1l2'' = ''a1b2c3d4e5f6g7h8i9j0k1l2''"
  "trim ''A1B2C3D4E5F6G7H8I9J0K1L2'' = ''A1B2C3D4E5F6G7H8I9J0K1L2''"
  "cuid_shape_any_case ''A1B2C3D4E5F6G7H8I9J0K1L2''"
  "toLowerCase ''A1B2C3D4E5F6G7H8I9J0K1L2'' = ''a1b2c3d4e5f6g7h8i9j0k1l2''"
  "\<not> spec_cuid_shape ''A1B2C3D4E5F6G7H8I9J0K1L2''"
  "trim ''1abcdefghijklmnopqrstuvw'' = ''1abcdefghijklmnopqrstuvw''"
  "\<not> cuid_shape_any_case ''1abcdefghijklmnopqrstuvw''"
  "trim ''abcdefghij'' = ''abcdefghij''"
  "\<not> cuid_shape_any_case ''abcdefghij''"
  by (simp_all add: trim_def cuid_shape_any_case_def spec_cuid_shape_def toLowerCase_def char_defs)

text \<open>
  Claim C6 as stated fails: an identifier in upper case does not have the stated shape
  (its tail is not lowercase), and validation accepts it.
\<close>

theorem validateQuotePostID_counterexample:
  "validateQuotePostID (JStr ''A1B2C3D4E5F6G7H8I9J0K1L2'') = Inr (JStr ''a1b2c3d4e5f6g7h8i9j0k1l2'')
   \<and> \<not> spec_cuid_shape (trim (js_String (JStr ''A1B2C3D4E5F6G7H8I9J0K1L2'')))"
  by (simp add: validateQuotePostID_def nullish_def Let_def CUID2_REGEX_test_iff cuid_examples)

lemma padded_example:
  "trim (CHR 0xA0 # ''A1B2C3D4E5F6G7H8I9J0K1L2 '') = ''A1B2C3D4E5F6G7H8I9J0K1L2''"
  by (simp add: trim_def char_defs)

lemma private_ok: "reply_permission_ok (JStr ''private'')"
  by (simp add: reply_permission_ok_def validateReplyPermission_def trim_def toUpperCase_def
      REPLY_PERMISSIONS_def Let_def char_defs)

theorem validateQuotePostID_any_case_witness:
  "validateQuotePostID (JStr ''a1b2c3d4e5f6g7h8i9j0k1l2'') = Inr (JStr ''a1b2c3d4e5f6g7h8i9j0k1l2'')
   \<and> validateQuotePostID (JStr (CHR 0xA0 # ''A1B2C3D4E5F6G7H8I9J0K1L2 ''))
        = Inr (JStr ''a1b2c3d4e5f6g7h8i9j0k1l2'')
   \<and> validateQuotePostID (JStr ''1abcdefghijklmnopqrstuvw'') = Inl QuotePostIDInvalid
   \<and> validateQuotePostID (JStr ''abcdefghij'') = Inl QuotePostIDInvalid
   \<and> spec_cuid_shape (toLowerCase ''A1B2C3D4E5F6G7H8I9J0K1L2'')
   \<and> validateQuotePostID JNull = Inr JUndefined
   \<and> (\<exists>w' res p. submitPost (example_post (JStr ''private'')) example_world = Some (w', res) \<and>
         trace w' = [Posted p example_reply] \<and> p_quotePostID p = JNull)"
proof -
  note T = validateQuotePostID_any_case
  have 1: "validateQuotePostID (JStr ''a1b2c3d4e5f6g7h8i9j0k1l2'') = Inr (JStr ''a1b2c3d4e5f6g7h8i9j0k1l2'')"
    using T[of "JStr ''a1b2c3d4e5f6g7h8i9j0k1l2''"] by (simp add: nullish_def cuid_examples)
  have 2: "validateQuotePostID (JStr (CHR 0xA0 # ''A1B2C3D4E5F6G7H8I9J0K1L2 ''))
        = Inr (JStr ''a1b2c3d4e5f6g7h8i9j0k1l2'')"
    using T[of "JStr (CHR 0xA0 # ''A1B2C3D4E5F6G7H8I9J0K1L2 '')"]
    by (simp add: nullish_def cuid_examples padded_example)
  have 3: "validateQuotePostID (JStr ''1abcdefghijklmnopqrstuvw'') = Inl QuotePostIDInvalid"
    using T[of "JStr ''1abcdefghijklmnopqrstuvw''"] by (simp add: nullish_def cuid_examples)
  have 4: "validateQuotePostID (JStr ''abcdefghij'') = Inl QuotePostIDInvalid"
    using T[of "JStr ''abcdefghij''"] by (simp add: nullish_def cuid_examples)
  have 5: "spec_cuid_shape (toLowerCase ''A1B2C3D4E5F6G7H8I9J0K1L2'')"
    using T[of _ "''A1B2C3D4E5F6G7H8I9J0K1L2''"] by (simp add: cuid_examples)
  have 6: "validateQuotePostID JNull = Inr JUndefined"
    using T[of JNull] by (simp add: nullish_def)
  have 7: "\<exists>w' res p. submitPost (example_post (JStr ''private'')) example_world = Some (w', res) \<and>
         trace w' = [Posted p example_reply] \<and> p_quotePostID p = JNull"
    using T[of _ _ "example_post (JStr ''private'')" example_world example_reply "[]"] private_ok
    by (simp add: example_world_simps example_post_simps nullish_def)
  from 1 2 3 4 5 6 7 show ?thesis by blast
qed

section \<open>pollUntilProcessed\<close>

lemma getUploadStatus_eq:
  "getUploadStatus uploadId w =
     (case statusReplies w of [] \<Rightarrow> None
      | r # rs \<Rightarrow> Some (answered uploadId r w, status_result r))"
  by (auto simp: getUploadStatus_def fetch_status_def fetchWithTimeout_def status_result_def
      answered_def Let_def split: list.splits fetch_outcome.splits sum.splits)

lemma status_result_not_PollTimeout: "status_result r \<noteq> Inl (PollTimeout s)"
  by (auto simp: status_result_def split: fetch_outcome.splits sum.splits)

lemma pollLoop_terminal:
  assumes "statusReplies w = r # rs" "status_result r = Inr s" "terminal s"
  shows "pollLoop uploadId interval timeoutMs start w = Some (answered uploadId r w, Inr s)"
  using assms by (subst pollLoop.simps) (auto simp: getUploadStatus_eq terminal_def)

lemma pollLoop_error:
  assumes "statusReplies w = r # rs" "status_result r = Inl e"
  shows "pollLoop uploadId interval timeoutMs start w = Some (answered uploadId r w, Inl e)"
  using assms by (subst pollLoop.simps) (auto simp: getUploadStatus_eq)

lemma pollLoop_timeout:
  assumes "statusReplies w = r # rs" "status_result r = Inr s" "\<not> terminal s"
    "now w + int (fst r) - start > timeoutMs"
  shows "pollLoop uploadId interval timeoutMs start w = Some (answered uploadId r w, Inl (PollTimeout s))"
  using assms by (subst pollLoop.simps) (auto simp: getUploadStatus_eq terminal_def answered_def)

lemma pollLoop_continue:
  assumes "statusReplies w = r # rs" "status_result r = Inr s" "\<not> terminal s"
    "\<not> now w + int (fst r) - start > timeoutMs"
  shows "pollLoop uploadId interval timeoutMs start w =
     pollLoop uploadId interval timeoutMs start (wait interval (answered uploadId r w))"
  using assms by (subst pollLoop.simps) (auto simp: getUploadStatus_eq terminal_def answered_def)

lemma pollLoop_None:
  "statusReplies w = [] \<Longrightarrow> pollLoop uploadId interval timeoutMs start w = None"
  by (subst pollLoop.simps) (auto simp: getUploadStatus_eq)

lemma pollLoop_trace:
  "pollLoop uploadId interval timeoutMs start w = Some (w', res) \<Longrightarrow>
     \<exists>pre r. trace w' = trace w @ pre @ [StatusQueried uploadId r] \<and>
       (\<forall>s\<in>set (concat (map observed pre)). \<not> terminal s) \<and>
       (case res of
          Inr s \<Rightarrow> terminal s \<and> status_result r = Inr s
        | Inl e \<Rightarrow> (\<forall>s\<in>set (observed (StatusQueried uploadId r)). \<not> terminal s) \<and>
            (\<forall>s. e = PollTimeout s \<longrightarrow> status_result r = Inr s))"
proof (induction uploadId interval timeoutMs start w rule: pollLoop.induct)
  case (1 uploadId interval timeoutMs start w)
  show ?case
  proof (cases "statusReplies w")
    case Nil
    with 1 show ?thesis by (simp add: pollLoop_None)
  next
    case (Cons r rs)
    show ?thesis
    proof (cases "status_result r")
      case (Inl e)
      with Cons 1(2) have "w' = answered uploadId r w" "res = Inl e"
        by (simp_all add: pollLoop_error)
      with Inl show ?thesis
        by (intro exI[of _ "[]"] exI[of _ r]) (auto simp: answered_def status_result_not_PollTimeout)
    next
      case (Inr s)
      show ?thesis
      proof (cases "terminal s")
        case True
        with Cons Inr 1(2) have "w' = answered uploadId r w" "res = Inr s"
          by (simp_all add: pollLoop_terminal)
        with Inr True show ?thesis
          by (intro exI[of _ "[]"] exI[of _ r]) (auto simp: answered_def)
      next
        case False
        show ?thesis
        proof (cases "now w + int (fst r) - start > timeoutMs")
          case True
          with Cons Inr False 1(2) have "w' = answered uploadId r w" "res = Inl (PollTimeout s)"
            by (simp_all add: pollLoop_timeout)
          with Inr False show ?thesis
            by (intro exI[of _ "[]"] exI[of _ r]) (auto simp: answered_def)
        next
          case t: False
          let ?w1 = "answered uploadId r w"
          have g: "getUploadStatus uploadId w = Some (?w1, Inr s)"
            using Cons Inr by (simp add: getUploadStatus_eq)
          have c: "pollLoop uploadId interval timeoutMs start (wait interval ?w1) = Some (w', res)"
            using pollLoop_continue[OF Cons Inr False t] 1(2) by simp
          have n: "status s \<noteq> Some ''PROCESSED''"
            "\<not> (status s = Some ''DELETED'' \<or> status s = Some ''ATTACHED'')"
            using False by (auto simp: terminal_def)
          have t': "\<not> timeoutMs < now ?w1 - start" using t by (simp add: answered_def)
          from 1(1)[OF g refl refl n t' c]
          obtain pre r' where
            p: "trace w' = trace (wait interval ?w1) @ pre @ [StatusQueried uploadId r']"
            "\<forall>s\<in>set (concat (map observed pre)). \<not> terminal s"
            "(case res of
               Inr s \<Rightarrow> terminal s \<and> status_result r' = Inr s
             | Inl e \<Rightarrow> (\<forall>s\<in>set (observed (StatusQueried uploadId r')). \<not> terminal s) \<and>
                 (\<forall>s. e = PollTimeout s \<longrightarrow> status_result r' = Inr s))"
            by blast
          show ?thesis
            using p Inr False
            by (intro exI[of _ "StatusQueried uploadId r # Waited interval # pre"] exI[of _ r'])
               (auto simp: wait_def answered_def)
        qed
      qed
    qed
  qed
qed

lemma pollUntilProcessed_eq:
  "pollUntilProcessed cfg uploadId options w =
     pollLoop uploadId (poll_interval cfg options) (poll_timeout cfg options) (now w) w"
  by (simp add: pollUntilProcessed_def poll_interval_def poll_timeout_def)

lemma pollLoop_first:
  assumes "pollLoop uploadId interval timeoutMs start w = Some (w', res)"
  shows "\<exists>r rs evs. statusReplies w = r # rs \<and> trace w' = trace w @ StatusQueried uploadId r # evs"
proof (cases "statusReplies w")
  case Nil
  with assms show ?thesis by (simp add: pollLoop_None)
next
  case (Cons r rs)
  let ?w1 = "answered uploadId r w"
  have a: "trace ?w1 = trace w @ [StatusQueried uploadId r]" by (simp add: answered_def)
  consider (stop) "w' = ?w1"
    | (go) "pollLoop uploadId interval timeoutMs start (wait interval ?w1) = Some (w', res)"
  proof (cases "status_result r")
    case (Inl e)
    with Cons assms stop show ?thesis by (simp add: pollLoop_error)
  next
    case (Inr s)
    show ?thesis
    proof (cases "terminal s")
      case True
      with Cons Inr assms stop show ?thesis by (simp add: pollLoop_terminal)
    next
      case False
      show ?thesis
      proof (cases "now w + int (fst r) - start > timeoutMs")
        case True
        with Cons Inr False assms stop show ?thesis by (simp add: pollLoop_timeout)
      next
        case t: False
        with Cons Inr False assms go show ?thesis by (simp add: pollLoop_continue)
      qed
    qed
  qed
  then show ?thesis
  proof cases
    case stop
    with a Cons show ?thesis by simp
  next
    case go
    from pollLoop_trace[OF go] obtain pre r' where
      "trace w' = trace (wait interval ?w1) @ pre @ [StatusQueried uploadId r']" by blast
    with a Cons show ?thesis by (simp add: wait_def)
  qed
qed

lemma pollLoop_times_out:
  "n < length (statusReplies w) \<Longrightarrow>
   \<forall>k\<le>n. \<exists>s. status_result (statusReplies w ! k) = Inr s \<and> \<not> terminal s \<Longrightarrow>
   now w - start + sum_list (map (\<lambda>r. int (fst r)) (take (Suc n) (statusReplies w)))
     + int n * int interval > timeoutMs \<Longrightarrow>
   \<exists>w' s pre r. pollLoop uploadId interval timeoutMs start w = Some (w', Inl (PollTimeout s)) \<and>
     \<not> terminal s \<and> trace w' = trace w @ pre @ [StatusQueried uploadId r] \<and> status_result r = Inr s"
proof (induction n arbitrary: w)
  case 0
  then obtain r rs where c: "statusReplies w = r # rs" by (cases "statusReplies w") auto
  with 0 obtain s where s: "status_result r = Inr s" "\<not> terminal s" by auto
  from 0 c have "now w + int (fst r) - start > timeoutMs" by simp
  from pollLoop_timeout[OF c s this] s show ?case
    by (intro exI[of _ "answered uploadId r w"] exI[of _ s] exI[of _ "[]"] exI[of _ r])
       (simp add: answered_def)
next
  case (Suc n)
  then obtain r rs where c: "statusReplies w = r # rs" by (cases "statusReplies w") auto
  with Suc(3) obtain s where s: "status_result r = Inr s" "\<not> terminal s" by fastforce
  let ?w1 = "answered uploadId r w"
  show ?case
  proof (cases "now w + int (fst r) - start > timeoutMs")
    case True
    from pollLoop_timeout[OF c s True] s show ?thesis
      by (intro exI[of _ ?w1] exI[of _ s] exI[of _ "[]"] exI[of _ r]) (simp add: answered_def)
  next
    case False
    let ?w2 = "wait interval ?w1"
    have r2: "statusReplies ?w2 = rs" using c by (simp add: wait_def answered_def)
    have l: "n < length (statusReplies ?w2)" using Suc(2) c r2 by simp
    have a: "\<forall>k\<le>n. \<exists>s. status_result (statusReplies ?w2 ! k) = Inr s \<and> \<not> terminal s"
    proof (intro allI impI)
      fix k assume "k \<le> n"
      then have "Suc k \<le> Suc n" by simp
      with Suc(3) have "\<exists>s. status_result (statusReplies w ! Suc k) = Inr s \<and> \<not> terminal s" by blast
      with c r2 show "\<exists>s. status_result (statusReplies ?w2 ! k) = Inr s \<and> \<not> terminal s" by simp
    qed
    have t: "now ?w2 - start + sum_list (map (\<lambda>r. int (fst r)) (take (Suc n) (statusReplies ?w2)))
       + int n * int interval > timeoutMs"
      using Suc(4) c by (simp add: wait_def answered_def algebra_simps)
    from Suc.IH[OF l a t] obtain w' s' pre r' where
      p: "pollLoop uploadId interval timeoutMs start ?w2 = Some (w', Inl (PollTimeout s'))"
      "\<not> terminal s'" "trace w' = trace ?w2 @ pre @ [StatusQueried uploadId r']"
      "status_result r' = Inr s'" by blast
    have "pollLoop uploadId interval timeoutMs start w = Some (w', Inl (PollTimeout s'))"
      using pollLoop_continue[OF c s False] p(1) by simp
    with p show ?thesis
      by (intro exI[of _ w'] exI[of _ s'] exI[of _ "StatusQueried uploadId r # Waited interval # pre"]
          exI[of _ r']) (simp add: wait_def answered_def)
  qed
qed

lemma status_reply_result [simp]:
  "status_result (status_reply ms st sr) = Inr \<lparr>status = Some st, src = sr, missing = False\<rparr>"
  "status_result (not_found_reply ms) = Inr missing_sentinel"
  "fst (status_reply ms st sr) = ms" "fst (not_found_reply ms) = ms"
  by (simp_all add: status_result_def status_reply_def not_found_reply_def ok_def)

lemma polling_world_simps [simp]:
  "statusReplies (polling_world rs) = rs" "trace (polling_world rs) = []" "now (polling_world rs) = 0"
  by (simp_all add: polling_world_def)

lemma terminal_simps [simp]:
  "terminal \<lparr>status = Some ''PROCESSED'', src = sr, missing = m\<rparr>"
  "\<not> terminal \<lparr>status = Some ''PENDING'', src = sr, missing = m\<rparr>"
  "\<not> terminal missing_sentinel"
  by (simp_all add: terminal_def missing_sentinel_def)

lemma polled_simps [simp]:
  "statusReplies (polled uploadId interval rs w) = drop (length rs) (statusReplies w)"
  "postReplies (polled uploadId interval rs w) = postReplies w"
  "uploadReplies (polled uploadId interval rs w) = uploadReplies w"
  "trace (polled uploadId interval rs w) = trace w @ poll_events uploadId interval rs"
  "now (polled uploadId interval rs w) =
     now w + sum_list (map (\<lambda>r. int (fst r) + int interval) rs)"
  by (induction rs arbitrary: w) (simp_all add: wait_def answered_def drop_Suc tl_drop)

lemma pollLoop_prefix:
  "statusReplies w = pre @ rest \<Longrightarrow> list_all non_terminal_reply pre \<Longrightarrow>
   within_budget timeoutMs interval (now w - start) pre \<Longrightarrow>
   pollLoop uploadId interval timeoutMs start w =
     pollLoop uploadId interval timeoutMs start (polled uploadId interval pre w)"
proof (induction pre arbitrary: w)
  case Nil
  then show ?case by simp
next
  case (Cons r pre)
  from Cons.prems(2) obtain s where s: "status_result r = Inr s" "\<not> terminal s"
    by (auto simp: non_terminal_reply_def split: sum.splits)
  from Cons.prems(1) have c: "statusReplies w = r # (pre @ rest)" by simp
  from Cons.prems(3) have t: "\<not> now w + int (fst r) - start > timeoutMs" by simp
  let ?w2 = "wait interval (answered uploadId r w)"
  have 1: "pollLoop uploadId interval timeoutMs start w = pollLoop uploadId interval timeoutMs start ?w2"
    by (rule pollLoop_continue[OF c s t])
  have r2: "statusReplies ?w2 = pre @ rest" using c by (simp add: wait_def answered_def)
  have b2: "within_budget timeoutMs interval (now ?w2 - start) pre"
    using Cons.prems(3) by (simp add: wait_def answered_def algebra_simps)
  from Cons.prems(2) have n2: "list_all non_terminal_reply pre" by simp
  from Cons.IH[OF r2 n2 b2] 1 show ?case by simp
qed

lemma pollLoop_script_terminal:
  assumes "statusReplies w = pre @ r # rs" "list_all non_terminal_reply pre"
    "within_budget timeoutMs interval (now w - start) pre"
    "status_result r = Inr s" "terminal s"
  shows "pollLoop uploadId interval timeoutMs start w =
     Some (answered uploadId r (polled uploadId interval pre w), Inr s)"
proof -
  have "statusReplies (polled uploadId interval pre w) = r # rs" using assms(1) by simp
  from pollLoop_terminal[OF this assms(4,5)] pollLoop_prefix[OF assms(1,2,3)]
  show ?thesis by simp
qed

lemma pollLoop_script_timeout:
  assumes "statusReplies w = pre @ r # rs" "list_all non_terminal_reply pre"
    "within_budget timeoutMs interval (now w - start) pre"
    "status_result r = Inr s" "\<not> terminal s"
    "timeoutMs < now w - start + sum_list (map (\<lambda>r. int (fst r) + int interval) pre) + int (fst r)"
  shows "pollLoop uploadId interval timeoutMs start w =
     Some (answered uploadId r (polled uploadId interval pre w), Inl (PollTimeout s))"
proof -
  have c: "statusReplies (polled uploadId interval pre w) = r # rs" using assms(1) by simp
  have t: "now (polled uploadId interval pre w) + int (fst r) - start > timeoutMs"
    using assms(6) by simp
  from pollLoop_timeout[OF c assms(4,5) t] pollLoop_prefix[OF assms(1,2,3)]
  show ?thesis by simp
qed

lemma not_found_non_terminal:
  "resp_status resp = 404 \<Longrightarrow> non_terminal_reply (ms, Resolves resp)"
  by (simp add: non_terminal_reply_def status_result_def terminal_def missing_sentinel_def)

lemma example_replies_non_terminal [simp]:
  "non_terminal_reply (status_reply ms ''PENDING'' sr)" "non_terminal_reply (not_found_reply ms)"
  by (simp_all add: non_terminal_reply_def)

text \<open>
  Claim C2, amended. Let the status endpoint answer with the replies \<open>pre\<close>, each a
  non-terminal status (a 404 among them) that arrives within the timeout, and then with a
  reply \<open>r\<close>. When \<open>r\<close> is \<open>PROCESSED\<close>, \<open>DELETED\<close> or \<open>ATTACHED\<close> the call returns that status
  object: it made the queries answered by \<open>pre\<close>, each followed by a wait of the interval,
  and the query answered by \<open>r\<close>, and nothing after it (the replies \<open>rs\<close> are left unread).
  When \<open>r\<close> is a non-terminal status that arrives after the timeout, the call fails with the
  timeout error carrying it. In every run that returns, no status seen before the last
  query was terminal and a terminal status of the last query is the result. A reply with
  status 404 becomes the missing sentinel, which is not terminal, so it is one of the
  replies after which the loop waits and queries again.
\<close>

theorem pollUntilProcessed_stops_at_terminal:
  "(statusReplies w = pre @ r # rs \<and> list_all non_terminal_reply pre \<and>
    within_budget (poll_timeout cfg options) (poll_interval cfg options) 0 pre \<and>
    status_result r = Inr s \<and> terminal s \<longrightarrow>
      pollUntilProcessed cfg uploadId options w =
        Some (answered uploadId r (polled uploadId (poll_interval cfg options) pre w), Inr s) \<and>
      trace (answered uploadId r (polled uploadId (poll_interval cfg options) pre w)) =
        trace w @ poll_events uploadId (poll_interval cfg options) pre @ [StatusQueried uploadId r] \<and>
      statusReplies (answered uploadId r (polled uploadId (poll_interval cfg options) pre w)) = rs)
   \<and> (statusReplies w = pre @ r # rs \<and> list_all non_terminal_reply pre \<and>
    within_budget (poll_timeout cfg options) (poll_interval cfg options) 0 pre \<and>
    status_result r = Inr s \<and> \<not> terminal s \<and>
    poll_timeout cfg options <
      sum_list (map (\<lambda>q. int (fst q) + int (poll_interval cfg options)) pre) + int (fst r) \<longrightarrow>
      pollUntilProcessed cfg uploadId options w =
        Some (answered uploadId r (polled uploadId (poll_interval cfg options) pre w),
              Inl (PollTimeout s)))
   \<and> (pollUntilProcessed cfg uploadId options w = Some (w', res) \<longrightarrow>
      (\<exists>pre q. trace w' = trace w @ pre @ [StatusQueried uploadId q] \<and>
         (\<forall>s\<in>set (concat (map observed pre)). \<not> terminal s) \<and>
         (\<forall>s. status_result q = Inr s \<and> terminal s \<longrightarrow> res = Inr s)))
   \<and> (resp_status resp = 404 \<longrightarrow>
        status_result (ms, Resolves resp) = Inr missing_sentinel \<and>
        non_terminal_reply (ms, Resolves resp))
   \<and> \<not> terminal missing_sentinel
   \<and> (statusReplies w = r # r2 # rs \<and> status_result r = Inr missing_sentinel \<and>
      int (fst r) \<le> poll_timeout cfg options \<and>
      pollUntilProcessed cfg uploadId options w = Some (w', res) \<longrightarrow>
      (\<exists>evs. trace w' = trace w @ StatusQueried uploadId r # Waited (poll_interval cfg options) #
          StatusQueried uploadId r2 # evs))"
proof -
  let ?i = "poll_interval cfg options" and ?t = "poll_timeout cfg options"
  have 1: "pollUntilProcessed cfg uploadId options w =
        Some (answered uploadId r (polled uploadId ?i pre w), Inr s) \<and>
      trace (answered uploadId r (polled uploadId ?i pre w)) =
        trace w @ poll_events uploadId ?i pre @ [StatusQueried uploadId r] \<and>
      statusReplies (answered uploadId r (polled uploadId ?i pre w)) = rs"
    if a: "statusReplies w = pre @ r # rs \<and> list_all non_terminal_reply pre \<and>
      within_budget ?t ?i 0 pre \<and> status_result r = Inr s \<and> terminal s"
  proof -
    from a have c: "statusReplies w = pre @ r # rs" and n: "list_all non_terminal_reply pre"
      and b: "within_budget ?t ?i (now w - now w) pre" and s: "status_result r = Inr s" "terminal s"
      by simp_all
    from pollLoop_script_terminal[OF c n b s] c show ?thesis
      by (simp add: pollUntilProcessed_eq answered_def)
  qed
  have 2: "pollUntilProcessed cfg uploadId options w =
        Some (answered uploadId r (polled uploadId ?i pre w), Inl (PollTimeout s))"
    if a: "statusReplies w = pre @ r # rs \<and> list_all non_terminal_reply pre \<and>
      within_budget ?t ?i 0 pre \<and> status_result r = Inr s \<and> \<not> terminal s \<and>
      ?t < sum_list (map (\<lambda>q. int (fst q) + int ?i) pre) + int (fst r)"
  proof -
    from a have c: "statusReplies w = pre @ r # rs" and n: "list_all non_terminal_reply pre"
      and b: "within_budget ?t ?i (now w - now w) pre" and s: "status_result r = Inr s" "\<not> terminal s"
      and t: "?t < now w - now w + sum_list (map (\<lambda>q. int (fst q) + int ?i) pre) + int (fst r)"
      by simp_all
    from pollLoop_script_timeout[OF c n b s t] show ?thesis
      by (simp add: pollUntilProcessed_eq)
  qed
  have 3: "\<exists>pre q. trace w' = trace w @ pre @ [StatusQueried uploadId q] \<and>
         (\<forall>s\<in>set (concat (map observed pre)). \<not> terminal s) \<and>
         (\<forall>s. status_result q = Inr s \<and> terminal s \<longrightarrow> res = Inr s)"
    if a: "pollUntilProcessed cfg uploadId options w = Some (w', res)"
  proof -
    from a have "pollLoop uploadId ?i ?t (now w) w = Some (w', res)"
      by (simp add: pollUntilProcessed_eq)
    from pollLoop_trace[OF this] obtain pre q where
      p: "trace w' = trace w @ pre @ [StatusQueried uploadId q]"
         "\<forall>s\<in>set (concat (map observed pre)). \<not> terminal s"
         "(case res of
            Inr s \<Rightarrow> terminal s \<and> status_result q = Inr s
          | Inl e \<Rightarrow> (\<forall>s\<in>set (observed (StatusQueried uploadId q)). \<not> terminal s) \<and>
              (\<forall>s. e = PollTimeout s \<longrightarrow> status_result q = Inr s))"
      by blast
    have "\<forall>s. status_result q = Inr s \<and> terminal s \<longrightarrow> res = Inr s"
      using p(3) by (cases res) auto
    with p show ?thesis by blast
  qed
  have 4: "status_result (ms, Resolves resp) = Inr missing_sentinel \<and>
        non_terminal_reply (ms, Resolves resp)"
    if "resp_status resp = 404"
    using that not_found_non_terminal[of resp ms] by (simp add: status_result_def)
  have 5: "\<not> terminal missing_sentinel" by simp
  have 6: "\<exists>evs. trace w' = trace w @ StatusQueried uploadId r # Waited ?i #
          StatusQueried uploadId r2 # evs"
    if a: "statusReplies w = r # r2 # rs \<and> status_result r = Inr missing_sentinel \<and>
      int (fst r) \<le> ?t \<and> pollUntilProcessed cfg uploadId options w = Some (w', res)"
  proof -
    let ?w2 = "wait ?i (answered uploadId r w)"
    from a have c: "statusReplies w = r # r2 # rs" and m: "status_result r = Inr missing_sentinel"
      and t: "\<not> now w + int (fst r) - now w > ?t" by auto
    have "pollLoop uploadId ?i ?t (now w) ?w2 = Some (w', res)"
      using pollLoop_continue[OF c m _ t] a by (simp add: pollUntilProcessed_eq)
    from pollLoop_first[OF this] obtain evs where
      "trace w' = trace ?w2 @ StatusQueried uploadId (hd (statusReplies ?w2)) # evs" by force
    with c show ?thesis by (simp add: wait_def answered_def)
  qed
  from 1 2 3 4 5 6 show ?thesis by blast
qed

text \<open>
  A run in which the first query is answered 404 and the second \<open>PROCESSED\<close>: the poll
  waits after the 404, queries again and returns the processed status.
\<close>

lemma example_poll_not_found:
  "pollUntilProcessed DEFAULTS ''U1'' \<lparr>po_intervalMs = None, po_timeoutMs = None\<rparr>
     (polling_world [not_found_reply 5, status_reply 5 ''PROCESSED'' (Some ''X'')])
   = Some ((polling_world [not_found_reply 5, status_reply 5 ''PROCESSED'' (Some ''X'')])
            \<lparr>now := 1010, statusReplies := [],
             trace := [StatusQueried ''U1'' (not_found_reply 5), Waited 1000,
                       StatusQueried ''U1'' (status_reply 5 ''PROCESSED'' (Some ''X''))]\<rparr>,
           Inr \<lparr>status = Some ''PROCESSED'', src = Some ''X'', missing = False\<rparr>)"
proof -
  let ?w = "polling_world [not_found_reply 5, status_reply 5 ''PROCESSED'' (Some ''X'')]"
  let ?w2 = "wait 1000 (answered ''U1'' (not_found_reply 5) ?w)"
  have i: "poll_interval DEFAULTS \<lparr>po_intervalMs = None, po_timeoutMs = None\<rparr> = 1000"
    "poll_timeout DEFAULTS \<lparr>po_intervalMs = None, po_timeoutMs = None\<rparr> = 30000"
    by (simp_all add: poll_interval_def poll_timeout_def DEFAULTS_def)
  have 1: "pollLoop ''U1'' 1000 30000 0 ?w = pollLoop ''U1'' 1000 30000 0 ?w2"
    by (rule pollLoop_continue[where s = missing_sentinel and rs = "[status_reply 5 ''PROCESSED'' (Some ''X'')]"]) simp_all
  have 2: "pollLoop ''U1'' 1000 30000 0 ?w2 =
      Some (answered ''U1'' (status_reply 5 ''PROCESSED'' (Some ''X'')) ?w2,
            Inr \<lparr>status = Some ''PROCESSED'', src = Some ''X'', missing = False\<rparr>)"
    by (rule pollLoop_terminal[where rs = "[]"]) (simp_all add: wait_def answered_def)
  show ?thesis
    by (simp add: pollUntilProcessed_eq i 1 2) (simp add: wait_def answered_def polling_world_def)
qed

text \<open>
  Claim C2 as stated fails in its last part: the 404 reply does not stop the polling.
\<close>

theorem pollUntilProcessed_not_found_counterexample:
  "pollUntilProcessed DEFAULTS ''U1'' \<lparr>po_intervalMs = None, po_timeoutMs = None\<rparr>
     (polling_world [not_found_reply 5, status_reply 5 ''PROCESSED'' (Some ''X'')])
   = Some ((polling_world [not_found_reply 5, status_reply 5 ''PROCESSED'' (Some ''X'')])
            \<lparr>now := 1010, statusReplies := [],
             trace := [StatusQueried ''U1'' (not_found_reply 5), Waited 1000,
                       StatusQueried ''U1'' (status_reply 5 ''PROCESSED'' (Some ''X''))]\<rparr>,
           Inr \<lparr>status = Some ''PROCESSED'', src = Some ''X'', missing = False\<rparr>)"
  by (rule example_poll_not_found)

theorem pollUntilProcessed_stops_at_terminal_witness:
  "pollUntilProcessed DEFAULTS ''U1'' \<lparr>po_intervalMs = None, po_timeoutMs = None\<rparr>
      (polling_world [status_reply 5 ''PENDING'' None, not_found_reply 5,
         status_reply 5 ''PROCESSED'' (Some ''X'')])
    = Some (answered ''U1'' (status_reply 5 ''PROCESSED'' (Some ''X''))
             (polled ''U1'' 1000 [status_reply 5 ''PENDING'' None, not_found_reply 5]
               (polling_world [status_reply 5 ''PENDING'' None, not_found_reply 5,
                  status_reply 5 ''PROCESSED'' (Some ''X'')])),
            Inr \<lparr>status = Some ''PROCESSED'', src = Some ''X'', missing = False\<rparr>)
   \<and> trace (answered ''U1'' (status_reply 5 ''PROCESSED'' (Some ''X''))
             (polled ''U1'' 1000 [status_reply 5 ''PENDING'' None, not_found_reply 5]
               (polling_world [status_reply 5 ''PENDING'' None, not_found_reply 5,
                  status_reply 5 ''PROCESSED'' (Some ''X'')])))
      = [StatusQueried ''U1'' (status_reply 5 ''PENDING'' None), Waited 1000,
         StatusQueried ''U1'' (not_found_reply 5), Waited 1000,
         StatusQueried ''U1'' (status_reply 5 ''PROCESSED'' (Some ''X''))]
   \<and> pollUntilProcessed DEFAULTS ''U1'' \<lparr>po_intervalMs = None, po_timeoutMs = Some 500\<rparr>
      (polling_world [not_found_reply 5, status_reply 5 ''PENDING'' None])
    = Some (answered ''U1'' (status_reply 5 ''PENDING'' None)
             (polled ''U1'' 1000 [not_found_reply 5]
               (polling_world [not_found_reply 5, status_reply 5 ''PENDING'' None])),
            Inl (PollTimeout \<lparr>status = Some ''PENDING'', src = None, missing = False\<rparr>))
   \<and> status_result (not_found_reply 5) = Inr missing_sentinel
   \<and> non_terminal_reply (not_found_reply 5)
   \<and> (\<exists>w' res evs.
        pollUntilProcessed DEFAULTS ''U1'' \<lparr>po_intervalMs = None, po_timeoutMs = None\<rparr>
          (polling_world [not_found_reply 5, status_reply 5 ''PROCESSED'' (Some ''X'')]) = Some (w', res) \<and>
        trace w' = StatusQueried ''U1'' (not_found_reply 5) # Waited 1000 #
          StatusQueried ''U1'' (status_reply 5 ''PROCESSED'' (Some ''X'')) # evs)"
proof -
  note T = pollUntilProcessed_stops_at_terminal
  let ?o = "\<lparr>po_intervalMs = None, po_timeoutMs = None\<rparr>"
  let ?o2 = "\<lparr>po_intervalMs = None, po_timeoutMs = Some 500\<rparr>"
  let ?p = "status_reply 5 ''PENDING'' None" and ?n = "not_found_reply 5"
  let ?d = "status_reply 5 ''PROCESSED'' (Some ''X'')"
  have i: "poll_interval DEFAULTS ?o = 1000" "poll_timeout DEFAULTS ?o = 30000"
    "poll_interval DEFAULTS ?o2 = 1000" "poll_timeout DEFAULTS ?o2 = 500"
    by (simp_all add: poll_interval_def poll_timeout_def DEFAULTS_def)
  have 1: "pollUntilProcessed DEFAULTS ''U1'' ?o (polling_world [?p, ?n, ?d])
      = Some (answered ''U1'' ?d (polled ''U1'' 1000 [?p, ?n] (polling_world [?p, ?n, ?d])),
            Inr \<lparr>status = Some ''PROCESSED'', src = Some ''X'', missing = False\<rparr>)
     \<and> trace (answered ''U1'' ?d (polled ''U1'' 1000 [?p, ?n] (polling_world [?p, ?n, ?d])))
      = [StatusQueried ''U1'' ?p, Waited 1000, StatusQueried ''U1'' ?n, Waited 1000,
         StatusQueried ''U1'' ?d]"
    using T[where w = "polling_world [?p, ?n, ?d]" and pre = "[?p, ?n]" and r = ?d and rs = "[]"
        and cfg = DEFAULTS and options = ?o and uploadId = "''U1''"
        and s = "\<lparr>status = Some ''PROCESSED'', src = Some ''X'', missing = False\<rparr>",
        THEN conjunct1]
    by (simp add: i)
  have 2: "pollUntilProcessed DEFAULTS ''U1'' ?o2 (polling_world [?n, ?p])
      = Some (answered ''U1'' ?p (polled ''U1'' 1000 [?n] (polling_world [?n, ?p])),
            Inl (PollTimeout \<lparr>status = Some ''PENDING'', src = None, missing = False\<rparr>))"
    using T[where w = "polling_world [?n, ?p]" and pre = "[?n]" and r = ?p and rs = "[]"
        and cfg = DEFAULTS and options = ?o2 and uploadId = "''U1''"
        and s = "\<lparr>status = Some ''PENDING'', src = None, missing = False\<rparr>",
        THEN conjunct2, THEN conjunct1]
    by (simp add: i)
  have 3: "status_result ?n = Inr missing_sentinel \<and> non_terminal_reply ?n"
    using T[where resp = "\<lparr>resp_status = 404, statusText = ''Not Found'', json = Inl ''Unexpected end of JSON input''\<rparr>"
        and ms = 5]
    by (simp add: not_found_reply_def)
  have 4: "\<exists>w' res evs.
        pollUntilProcessed DEFAULTS ''U1'' ?o (polling_world [?n, ?d]) = Some (w', res) \<and>
        trace w' = StatusQueried ''U1'' ?n # Waited 1000 # StatusQueried ''U1'' ?d # evs"
    using T[where w = "polling_world [?n, ?d]" and r = ?n and ?r2.0 = ?d and rs = "[]"
        and cfg = DEFAULTS and options = ?o and uploadId = "''U1''"]
      example_poll_not_found
    by (simp add: i)
  from 1 2 3 4 show ?thesis by blast
qed

text \<open>
  Claim C9. \<open>pollUntilProcessed\<close> queries before it looks at the timeout: the trace gained
  by every run that returns starts with a status query; when the first reply is a terminal
  status the call returns it although the timeout is zero or negative; when the first reply
  is a non-terminal status and the request took longer than the timeout (as every request
  does when the timeout is negative) the call fails with the timeout error carrying that
  status, in the world right after that one query; and a timeout error always carries a
  non-terminal status, the one that the last query of the run returned.
\<close>

theorem pollUntilProcessed_queries_first:
  "(pollUntilProcessed cfg uploadId options w = Some (w', res) \<longrightarrow>
      (\<exists>r rs evs. statusReplies w = r # rs \<and> trace w' = trace w @ StatusQueried uploadId r # evs))
   \<and> (statusReplies w = r # rs \<and> status_result r = Inr s \<and> terminal s \<and>
        poll_timeout cfg options \<le> 0 \<longrightarrow>
      pollUntilProcessed cfg uploadId options w = Some (answered uploadId r w, Inr s))
   \<and> (statusReplies w = r # rs \<and> status_result r = Inr s \<and> \<not> terminal s \<and>
        poll_timeout cfg options < int (fst r) \<longrightarrow>
      pollUntilProcessed cfg uploadId options w = Some (answered uploadId r w, Inl (PollTimeout s)))
   \<and> (pollUntilProcessed cfg uploadId options w = Some (w', Inl (PollTimeout s)) \<longrightarrow>
      \<not> terminal s \<and>
      (\<exists>pre q. trace w' = trace w @ pre @ [StatusQueried uploadId q] \<and> status_result q = Inr s))"
proof -
  have 1: "\<exists>r rs evs. statusReplies w = r # rs \<and> trace w' = trace w @ StatusQueried uploadId r # evs"
    if "pollUntilProcessed cfg uploadId options w = Some (w', res)"
    using that pollLoop_first by (simp add: pollUntilProcessed_eq)
  have 2: "pollUntilProcessed cfg uploadId options w = Some (answered uploadId r w, Inr s)"
    if "statusReplies w = r # rs \<and> status_result r = Inr s \<and> terminal s \<and> poll_timeout cfg options \<le> 0"
    using that by (simp add: pollUntilProcessed_eq pollLoop_terminal)
  have 3: "pollUntilProcessed cfg uploadId options w = Some (answered uploadId r w, Inl (PollTimeout s))"
    if "statusReplies w = r # rs \<and> status_result r = Inr s \<and> \<not> terminal s \<and>
        poll_timeout cfg options < int (fst r)"
    using that by (simp add: pollUntilProcessed_eq pollLoop_timeout)
  have 4: "\<not> terminal s \<and>
      (\<exists>pre q. trace w' = trace w @ pre @ [StatusQueried uploadId q] \<and> status_result q = Inr s)"
    if "pollUntilProcessed cfg uploadId options w = Some (w', Inl (PollTimeout s))"
  proof -
    from that have "pollLoop uploadId (poll_interval cfg options) (poll_timeout cfg options) (now w) w
        = Some (w', Inl (PollTimeout s))"
      by (simp add: pollUntilProcessed_eq)
    from pollLoop_trace[OF this] obtain pre q where
      p: "trace w' = trace w @ pre @ [StatusQueried uploadId q]"
         "\<forall>s\<in>set (observed (StatusQueried uploadId q)). \<not> terminal s"
         "status_result q = Inr s"
      by auto
    then show ?thesis by auto
  qed
  from 1 2 3 4 show ?thesis by blast
qed

theorem pollUntilProcessed_queries_first_witness:
  "pollUntilProcessed DEFAULTS ''U1'' \<lparr>po_intervalMs = None, po_timeoutMs = Some (- 5)\<rparr>
      (polling_world [status_reply 5 ''PROCESSED'' (Some ''X'')])
    = Some (answered ''U1'' (status_reply 5 ''PROCESSED'' (Some ''X''))
             (polling_world [status_reply 5 ''PROCESSED'' (Some ''X'')]),
            Inr \<lparr>status = Some ''PROCESSED'', src = Some ''X'', missing = False\<rparr>)
   \<and> pollUntilProcessed DEFAULTS ''U1'' \<lparr>po_intervalMs = None, po_timeoutMs = Some 0\<rparr>
      (polling_world [status_reply 5 ''PENDING'' None])
    = Some (answered ''U1'' (status_reply 5 ''PENDING'' None) (polling_world [status_reply 5 ''PENDING'' None]),
            Inl (PollTimeout \<lparr>status = Some ''PENDING'', src = None, missing = False\<rparr>))
   \<and> (\<exists>r rs evs. statusReplies (polling_world [status_reply 5 ''PENDING'' None]) = r # rs \<and>
         trace (answered ''U1'' (status_reply 5 ''PENDING'' None) (polling_world [status_reply 5 ''PENDING'' None]))
           = trace (polling_world [status_reply 5 ''PENDING'' None]) @ StatusQueried ''U1'' r # evs)
   \<and> \<not> terminal \<lparr>status = Some ''PENDING'', src = None, missing = False\<rparr>"
proof -
  note T = pollUntilProcessed_queries_first
  let ?p = "\<lparr>status = Some ''PENDING'', src = None, missing = False\<rparr>"
  let ?wp = "polling_world [status_reply 5 ''PENDING'' None]"
  let ?o0 = "\<lparr>po_intervalMs = None, po_timeoutMs = Some 0\<rparr>"
  have 1: "pollUntilProcessed DEFAULTS ''U1'' \<lparr>po_intervalMs = None, po_timeoutMs = Some (- 5)\<rparr>
      (polling_world [status_reply 5 ''PROCESSED'' (Some ''X'')])
    = Some (answered ''U1'' (status_reply 5 ''PROCESSED'' (Some ''X''))
             (polling_world [status_reply 5 ''PROCESSED'' (Some ''X'')]),
            Inr \<lparr>status = Some ''PROCESSED'', src = Some ''X'', missing = False\<rparr>)"
    using T[of DEFAULTS "''U1''" "\<lparr>po_intervalMs = None, po_timeoutMs = Some (- 5)\<rparr>"
        "polling_world [status_reply 5 ''PROCESSED'' (Some ''X'')]" _ _
        "status_reply 5 ''PROCESSED'' (Some ''X'')" "[]"
        "\<lparr>status = Some ''PROCESSED'', src = Some ''X'', missing = False\<rparr>"]
    by (simp add: poll_timeout_def)
  have 2: "pollUntilProcessed DEFAULTS ''U1'' ?o0 ?wp
    = Some (answered ''U1'' (status_reply 5 ''PENDING'' None) ?wp, Inl (PollTimeout ?p))"
    using T[of DEFAULTS "''U1''" ?o0 ?wp _ _ "status_reply 5 ''PENDING'' None" "[]" ?p]
    by (simp add: poll_timeout_def)
  have 3: "\<exists>r rs evs. statusReplies ?wp = r # rs \<and>
         trace (answered ''U1'' (status_reply 5 ''PENDING'' None) ?wp) = trace ?wp @ StatusQueried ''U1'' r # evs"
    using T[of DEFAULTS "''U1''" ?o0 ?wp "answered ''U1'' (status_reply 5 ''PENDING'' None) ?wp"
        "Inl (PollTimeout ?p)"] 2
    by simp
  have 4: "\<not> terminal ?p"
    using T[of DEFAULTS "''U1''" ?o0 ?wp "answered ''U1'' (status_reply 5 ''PENDING'' None) ?wp"
        _ _ _ ?p] 2
    by simp
  from 1 2 3 4 show ?thesis by blast
qed

text \<open>
  Claim C7, amended. If the replies up to and including the first query that completes
  after the timeout has elapsed (reply \<open>n\<close>: the requests so far and the \<open>n\<close> waits took
  longer than the timeout) all are non-terminal statuses, then \<open>pollUntilProcessed\<close> fails
  with the timeout error carrying the status of the last query of the run. In particular,
  when the first two replies are \<open>PENDING\<close> and the timeout is shorter than the interval, the
  call fails with the timeout error carrying the last \<open>PENDING\<close> status.
\<close>

theorem pollUntilProcessed_timeout:
  "(n < length (statusReplies w) \<and>
    (\<forall>k\<le>n. \<exists>s. status_result (statusReplies w ! k) = Inr s \<and> \<not> terminal s) \<and>
    poll_timeout cfg options <
      sum_list (map (\<lambda>r. int (fst r)) (take (Suc n) (statusReplies w)))
        + int n * int (poll_interval cfg options) \<longrightarrow>
    (\<exists>w' s pre q. pollUntilProcessed cfg uploadId options w = Some (w', Inl (PollTimeout s)) \<and>
       \<not> terminal s \<and> trace w' = trace w @ pre @ [StatusQueried uploadId q] \<and>
       status_result q = Inr s))
   \<and> (statusReplies w = r1 # r2 # rs \<and>
      status_result r1 = Inr s1 \<and> status s1 = Some ''PENDING'' \<and>
      status_result r2 = Inr s2 \<and> status s2 = Some ''PENDING'' \<and>
      poll_timeout cfg options < int (poll_interval cfg options) \<longrightarrow>
    (\<exists>w' s pre q. pollUntilProcessed cfg uploadId options w = Some (w', Inl (PollTimeout s)) \<and>
       status s = Some ''PENDING'' \<and> trace w' = trace w @ pre @ [StatusQueried uploadId q] \<and>
       status_result q = Inr s))"
proof -
  let ?i = "poll_interval cfg options" and ?t = "poll_timeout cfg options"
  have 1: "\<exists>w' s pre q. pollUntilProcessed cfg uploadId options w = Some (w', Inl (PollTimeout s)) \<and>
       \<not> terminal s \<and> trace w' = trace w @ pre @ [StatusQueried uploadId q] \<and>
       status_result q = Inr s"
    if a: "n < length (statusReplies w) \<and>
      (\<forall>k\<le>n. \<exists>s. status_result (statusReplies w ! k) = Inr s \<and> \<not> terminal s) \<and>
      ?t < sum_list (map (\<lambda>r. int (fst r)) (take (Suc n) (statusReplies w))) + int n * int ?i"
  proof -
    from a have "now w - now w + sum_list (map (\<lambda>r. int (fst r)) (take (Suc n) (statusReplies w)))
        + int n * int ?i > ?t" by simp
    from pollLoop_times_out[OF _ _ this, of uploadId] a show ?thesis
      by (simp add: pollUntilProcessed_eq)
  qed
  have 2: "\<exists>w' s pre q. pollUntilProcessed cfg uploadId options w = Some (w', Inl (PollTimeout s)) \<and>
       status s = Some ''PENDING'' \<and> trace w' = trace w @ pre @ [StatusQueried uploadId q] \<and>
       status_result q = Inr s"
    if a: "statusReplies w = r1 # r2 # rs \<and>
      status_result r1 = Inr s1 \<and> status s1 = Some ''PENDING'' \<and>
      status_result r2 = Inr s2 \<and> status s2 = Some ''PENDING'' \<and> ?t < int ?i"
  proof -
    from a have c: "statusReplies w = r1 # r2 # rs" and s1: "status_result r1 = Inr s1"
      and s2: "status_result r2 = Inr s2" and n1: "\<not> terminal s1" and n2: "\<not> terminal s2"
      by (auto simp: terminal_def)
    let ?w1 = "answered uploadId r1 w"
    show ?thesis
    proof (cases "now w + int (fst r1) - now w > ?t")
      case True
      from pollLoop_timeout[OF c s1 n1 True] a s1 show ?thesis
        by (intro exI[of _ ?w1] exI[of _ s1] exI[of _ "[]"] exI[of _ r1])
           (simp add: pollUntilProcessed_eq answered_def)
    next
      case False
      let ?w2 = "wait ?i ?w1"
      have c2: "statusReplies ?w2 = r2 # rs" using c by (simp add: wait_def answered_def)
      have t2: "now ?w2 + int (fst r2) - now w > ?t" using a by (simp add: wait_def answered_def)
      have "pollLoop uploadId ?i ?t (now w) w = Some (answered uploadId r2 ?w2, Inl (PollTimeout s2))"
        using pollLoop_continue[OF c s1 n1 False] pollLoop_timeout[OF c2 s2 n2 t2] by simp
      with a s2 show ?thesis
        by (intro exI[of _ "answered uploadId r2 ?w2"] exI[of _ s2]
            exI[of _ "[StatusQueried uploadId r1, Waited ?i]"] exI[of _ r2])
           (simp add: pollUntilProcessed_eq answered_def wait_def)
    qed
  qed
  from 1 2 show ?thesis by blast
qed

text \<open>
  A run with a timeout of 10 ms and an interval of 1000 ms: the first query is answered
  \<open>PENDING\<close> after 5 ms, the second \<open>PROCESSED\<close> at 1010 ms.
\<close>

lemma example_poll_late:
  "pollUntilProcessed DEFAULTS ''U1'' \<lparr>po_intervalMs = Some 1000, po_timeoutMs = Some 10\<rparr>
     (polling_world [status_reply 5 ''PENDING'' None, status_reply 5 ''PROCESSED'' (Some ''X'')])
   = Some ((polling_world [status_reply 5 ''PENDING'' None, status_reply 5 ''PROCESSED'' (Some ''X'')])
            \<lparr>now := 1010, statusReplies := [],
             trace := [StatusQueried ''U1'' (status_reply 5 ''PENDING'' None), Waited 1000,
                       StatusQueried ''U1'' (status_reply 5 ''PROCESSED'' (Some ''X''))]\<rparr>,
           Inr \<lparr>status = Some ''PROCESSED'', src = Some ''X'', missing = False\<rparr>)"
proof -
  let ?w = "polling_world [status_reply 5 ''PENDING'' None, status_reply 5 ''PROCESSED'' (Some ''X'')]"
  let ?w2 = "wait 1000 (answered ''U1'' (status_reply 5 ''PENDING'' None) ?w)"
  have i: "poll_interval DEFAULTS \<lparr>po_intervalMs = Some 1000, po_timeoutMs = Some 10\<rparr> = 1000"
    "poll_timeout DEFAULTS \<lparr>po_intervalMs = Some 1000, po_timeoutMs = Some 10\<rparr> = 10"
    by (simp_all add: poll_interval_def poll_timeout_def)
  have 1: "pollLoop ''U1'' 1000 10 0 ?w = pollLoop ''U1'' 1000 10 0 ?w2"
    by (rule pollLoop_continue[where s = "\<lparr>status = Some ''PENDING'', src = None, missing = False\<rparr>"
          and rs = "[status_reply 5 ''PROCESSED'' (Some ''X'')]"]) simp_all
  have 2: "pollLoop ''U1'' 1000 10 0 ?w2 =
      Some (answered ''U1'' (status_reply 5 ''PROCESSED'' (Some ''X'')) ?w2,
            Inr \<lparr>status = Some ''PROCESSED'', src = Some ''X'', missing = False\<rparr>)"
    by (rule pollLoop_terminal[where rs = "[]"]) (simp_all add: wait_def answered_def)
  show ?thesis
    by (simp add: pollUntilProcessed_eq i 1 2) (simp add: wait_def answered_def polling_world_def)
qed

text \<open>
  Claim C7 as stated fails: in that run no terminal status is seen within the 10 ms of the
  timeout, and the call returns the processed status instead of failing.
\<close>

theorem pollUntilProcessed_timeout_counterexample:
  "pollUntilProcessed DEFAULTS ''U1'' \<lparr>po_intervalMs = Some 1000, po_timeoutMs = Some 10\<rparr>
     (polling_world [status_reply 5 ''PENDING'' None, status_reply 5 ''PROCESSED'' (Some ''X'')])
   = Some ((polling_world [status_reply 5 ''PENDING'' None, status_reply 5 ''PROCESSED'' (Some ''X'')])
            \<lparr>now := 1010, statusReplies := [],
             trace := [StatusQueried ''U1'' (status_reply 5 ''PENDING'' None), Waited 1000,
                       StatusQueried ''U1'' (status_reply 5 ''PROCESSED'' (Some ''X''))]\<rparr>,
           Inr \<lparr>status = Some ''PROCESSED'', src = Some ''X'', missing = False\<rparr>)
   \<and> now (polling_world [status_reply 5 ''PENDING'' None, status_reply 5 ''PROCESSED'' (Some ''X'')]) = 0
   \<and> \<not> terminal \<lparr>status = Some ''PENDING'', src = None, missing = False\<rparr>"
  using example_poll_late by simp

theorem pollUntilProcessed_timeout_witness:
  "(\<exists>w' s pre q.
      pollUntilProcessed DEFAULTS ''U1'' \<lparr>po_intervalMs = Some 100, po_timeoutMs = Some 200\<rparr>
        (polling_world [status_reply 5 ''PENDING'' None, status_reply 5 ''PENDING'' None,
           status_reply 5 ''PENDING'' None]) = Some (w', Inl (PollTimeout s)) \<and>
      \<not> terminal s \<and> trace w' = pre @ [StatusQueried ''U1'' q] \<and> status_result q = Inr s)
   \<and> (\<exists>w' s pre q.
      pollUntilProcessed DEFAULTS ''U1'' \<lparr>po_intervalMs = Some 1000, po_timeoutMs = Some 500\<rparr>
        (polling_world [status_reply 5 ''PENDING'' None, status_reply 5 ''PENDING'' None])
        = Some (w', Inl (PollTimeout s)) \<and>
      status s = Some ''PENDING'' \<and> trace w' = pre @ [StatusQueried ''U1'' q] \<and> status_result q = Inr s)"
proof -
  note T = pollUntilProcessed_timeout
  let ?o1 = "\<lparr>po_intervalMs = Some 100, po_timeoutMs = Some 200\<rparr>"
  let ?o2 = "\<lparr>po_intervalMs = Some 1000, po_timeoutMs = Some 500\<rparr>"
  let ?p = "status_reply 5 ''PENDING'' None"
  have a: "\<forall>k\<le>Suc (Suc 0). \<exists>s. status_result ([?p, ?p, ?p] ! k) = Inr s \<and> \<not> terminal s"
    by (auto simp: le_Suc_eq)
  have 1: "\<exists>w' s pre q.
      pollUntilProcessed DEFAULTS ''U1'' ?o1 (polling_world [?p, ?p, ?p]) = Some (w', Inl (PollTimeout s)) \<and>
      \<not> terminal s \<and> trace w' = pre @ [StatusQueried ''U1'' q] \<and> status_result q = Inr s"
    using T[of "Suc (Suc 0)" "polling_world [?p, ?p, ?p]" DEFAULTS ?o1 "''U1''"] a
    by (simp add: poll_timeout_def poll_interval_def)
  have 2: "\<exists>w' s pre q.
      pollUntilProcessed DEFAULTS ''U1'' ?o2 (polling_world [?p, ?p]) = Some (w', Inl (PollTimeout s)) \<and>
      status s = Some ''PENDING'' \<and> trace w' = pre @ [StatusQueried ''U1'' q] \<and> status_result q = Inr s"
    using T[of _ "polling_world [?p, ?p]" DEFAULTS ?o2 "''U1''" ?p ?p "[]"
        "\<lparr>status = Some ''PENDING'', src = None, missing = False\<rparr>"
        "\<lparr>status = Some ''PENDING'', src = None, missing = False\<rparr>"]
    by (simp add: poll_timeout_def poll_interval_def)
  from 1 2 show ?thesis by blast
qed

section \<open>uploadFiles\<close>

lemma uploadFiles_eq:
  "uploadFiles files w =
     (case files of
        NotAnArray \<Rightarrow> Some (w, Inl FilesNotNonEmptyArray)
      | FileArray fs \<Rightarrow>
          if fs = [] then Some (w, Inl FilesNotNonEmptyArray)
          else (case buildForm w fs [] of
              Inl e \<Rightarrow> Some (w, Inl e)
            | Inr form \<Rightarrow>
                (case uploadReplies w of
                   [] \<Rightarrow> None
                 | r # rs \<Rightarrow> Some (uploaded form r w, upload_result r))))"
  by (auto simp: uploadFiles_def fetch_upload_def fetchWithTimeout_def upload_result_def
      uploaded_def Let_def split: files_arg.splits list.splits fetch_outcome.splits sum.splits)

lemma uploadFiles_sends:
  assumes "files = FileArray fs" "fs \<noteq> []" "buildForm w fs [] = Inr form" "uploadReplies w = r # rs"
  shows "uploadFiles files w = Some (uploaded form r w, upload_result r)"
  using assms by (simp add: uploadFiles_eq del: buildForm.simps)

lemma buildForm_fails_iff:
  "isl (buildForm w fs form) \<longleftrightarrow>
     list_ex (\<lambda>f. \<not> item_has_form f) fs \<or> list_ex (path_unreadable w) fs"
proof (induction fs arbitrary: form)
  case Nil
  then show ?case by simp
next
  case (Cons f fs)
  show ?case
  proof (cases "truthy_str (f_path f)")
    case True
    then show ?thesis
      using Cons.IH by (cases "readFileSync w (the (f_path f))")
        (auto simp: item_has_form_def path_unreadable_def Let_def)
  next
    case False
    then show ?thesis
      using Cons.IH
      by (cases "f_file f") (auto simp: item_has_form_def path_unreadable_def Let_def)
  qed
qed

lemma buildForm_error:
  "buildForm w fs form = Inl e \<Longrightarrow> e = FileItemInvalid \<or> (\<exists>m. e = ReadFileFailed m)"
proof (induction fs arbitrary: form)
  case Nil
  then show ?case by simp
next
  case (Cons f fs)
  then show ?case
    by (auto simp: Let_def split: if_splits sum.splits option.splits)
qed

lemma upload_result_fails_iff:
  "isl (upload_result r) \<longleftrightarrow>
     (case snd r of
        Resolves resp \<Rightarrow> \<not> ok resp \<or> (case json resp of Inl m \<Rightarrow> True | Inr j \<Rightarrow> \<not> success j)
      | RejectsAbort \<Rightarrow> True
      | RejectsOther m \<Rightarrow> True)"
  by (auto simp: upload_result_def split: fetch_outcome.splits sum.splits)

lemma uploadFiles_fails_iff:
  assumes "uploadFiles files w = Some (w', res)"
  shows "isl res \<longleftrightarrow> upload_fails w files (hd (uploadReplies w))"
proof (cases files)
  case NotAnArray
  with assms show ?thesis by (auto simp: uploadFiles_eq upload_fails_def)
next
  case (FileArray fs)
  show ?thesis
  proof (cases "fs = []")
    case True
    with FileArray assms show ?thesis by (auto simp: uploadFiles_eq upload_fails_def)
  next
    case ne: False
    show ?thesis
    proof (cases "buildForm w fs []")
      case (Inl e)
      then have "isl (buildForm w fs [])" by simp
      with buildForm_fails_iff[of w fs "[]"]
      have "list_ex (\<lambda>f. \<not> item_has_form f) fs \<or> list_ex (path_unreadable w) fs"
        by auto
      with Inl FileArray ne assms show ?thesis
        by (auto simp: uploadFiles_eq upload_fails_def)
    next
      case (Inr form)
      then have "\<not> isl (buildForm w fs [])" by simp
      with buildForm_fails_iff[of w fs "[]"]
      have n: "\<not> list_ex (\<lambda>f. \<not> item_has_form f) fs" "\<not> list_ex (path_unreadable w) fs"
        by auto
      from Inr FileArray ne assms obtain r rs where
        r: "uploadReplies w = r # rs" "res = upload_result r"
        by (auto simp: uploadFiles_eq split: list.splits)
      with n FileArray ne show ?thesis
        using upload_result_fails_iff[of r] by (simp add: upload_fails_def)
    qed
  qed
qed

lemma scripted_world_simps [simp]:
  "uploadReplies (scripted_world us ss ps) = us" "statusReplies (scripted_world us ss ps) = ss"
  "postReplies (scripted_world us ss ps) = ps" "trace (scripted_world us ss ps) = []"
  "now (scripted_world us ss ps) = 0"
  by (simp_all add: scripted_world_def)

lemma buffer_file_form [simp]: "buildForm w [buffer_file] [] = Inr [png_part]"
  by (simp add: buffer_file_def png_part_def contentType_for_def or_else_def truthy_str_def
      guessContentTypeFromFilename_def last_segment_def toLowerCase_def Let_def char_defs)

lemma buffer_file_ok [simp]: "item_has_form buffer_file" "\<not> path_unreadable w buffer_file"
  by (simp_all add: item_has_form_def path_unreadable_def buffer_file_def truthy_str_def)

lemma upload_reply_results [simp]:
  "upload_result (upload_ok_reply ms ids) = Inr (case ids of None \<Rightarrow> [] | Some us \<Rightarrow> us)"
  "upload_result (upload_error_reply ms) =
     Inl (UploadFailed 500 ''Internal Server Error'' (Some \<lparr>success = False, uploads = None, reason = Some ''boom''\<rparr>))"
  "upload_result (ms, RejectsAbort) = Inl (RequestTimedOut 60000)"
  by (simp_all add: upload_result_def upload_ok_reply_def upload_error_reply_def ok_def safeParseJSON_def)

lemma well_formed_form: "well_formed w fs \<Longrightarrow> \<exists>form. buildForm w fs [] = Inr form"
  using buildForm_fails_iff[of w fs "[]"]
  by (cases "buildForm w fs []") (auto simp: well_formed_def)

lemma buildForm_no_form:
  "list_ex (\<lambda>f. \<not> item_has_form f) fs \<Longrightarrow> \<not> list_ex (path_unreadable w) fs \<Longrightarrow>
     buildForm w fs form = Inl FileItemInvalid"
proof (induction fs arbitrary: form)
  case Nil
  then show ?case by simp
next
  case (Cons f fs)
  show ?case
  proof (cases "item_has_form f")
    case False
    then show ?thesis by (auto simp: item_has_form_def split: option.splits)
  next
    case True
    with Cons.prems have a: "list_ex (\<lambda>f. \<not> item_has_form f) fs"
      "\<not> list_ex (path_unreadable w) fs" "\<not> path_unreadable w f" by simp_all
    note ih = Cons.IH[OF a(1,2)]
    show ?thesis
    proof (cases "truthy_str (f_path f)")
      case p: True
      with a(3) obtain b where "readFileSync w (the (f_path f)) = Inr b"
        by (cases "readFileSync w (the (f_path f))") (auto simp: path_unreadable_def)
      with p ih show ?thesis by (simp add: Let_def)
    next
      case p: False
      with True ih show ?thesis
        by (cases "f_file f") (auto simp: item_has_form_def Let_def)
    qed
  qed
qed

lemma uploadFiles_local_failure:
  assumes "fs \<noteq> []" "list_ex (\<lambda>f. \<not> item_has_form f) fs \<or> list_ex (path_unreadable w) fs"
  shows "\<exists>e. uploadFiles (FileArray fs) w = Some (w, Inl e) \<and>
     (e = FileItemInvalid \<or> (\<exists>m. e = ReadFileFailed m))"
proof -
  from assms(2) buildForm_fails_iff[of w fs "[]"] obtain e where e: "buildForm w fs [] = Inl e"
    by (cases "buildForm w fs []") auto
  from buildForm_error[OF e] e assms(1) show ?thesis by (simp add: uploadFiles_eq)
qed

text \<open>
  Claim C8, amended. \<open>uploadFiles\<close> fails with no request made (the world is unchanged) when
  the list is empty or not a list, when an item supplies none of the three forms, and when
  the file of a path item cannot be read. With a well-formed list the request is made, and
  the call fails when the request is rejected (it timed out, or another transport error),
  when the response has a non-success status, when the body of a success response does not
  parse, and when the body has \<open>success\<close> false; when the response has a non-success status
  or its body has \<open>success\<close> false, the error carries the parsed body of the response.
  Whenever the upload endpoint has a reply the call returns, and it fails exactly when one
  of these conditions holds.
\<close>

theorem uploadFiles_failures:
  "(files = NotAnArray \<or> files = FileArray [] \<longrightarrow>
      uploadFiles files w = Some (w, Inl FilesNotNonEmptyArray))
   \<and> (fs \<noteq> [] \<and> list_ex (\<lambda>f. \<not> item_has_form f) fs \<and> \<not> list_ex (path_unreadable w) fs \<longrightarrow>
      uploadFiles (FileArray fs) w = Some (w, Inl FileItemInvalid))
   \<and> (fs \<noteq> [] \<and> (list_ex (\<lambda>f. \<not> item_has_form f) fs \<or> list_ex (path_unreadable w) fs) \<longrightarrow>
      (\<exists>e. uploadFiles (FileArray fs) w = Some (w, Inl e) \<and>
         (e = FileItemInvalid \<or> (\<exists>m. e = ReadFileFailed m))))
   \<and> (well_formed w fs \<and> uploadReplies w = r # rs \<and> snd r = RejectsAbort \<longrightarrow>
      (\<exists>form. uploadFiles (FileArray fs) w = Some (uploaded form r w, Inl (RequestTimedOut 60000))))
   \<and> (well_formed w fs \<and> uploadReplies w = r # rs \<and> snd r = RejectsOther m \<longrightarrow>
      (\<exists>form. uploadFiles (FileArray fs) w = Some (uploaded form r w, Inl (FetchRejected m))))
   \<and> (well_formed w fs \<and> uploadReplies w = r # rs \<and> snd r = Resolves resp \<and> \<not> ok resp \<longrightarrow>
      (\<exists>form e. uploadFiles (FileArray fs) w = Some (uploaded form r w, Inl e) \<and>
         e = UploadFailed (resp_status resp) (statusText resp) (safeParseJSON resp) \<and>
         err_body e = safeParseJSON resp))
   \<and> (well_formed w fs \<and> uploadReplies w = r # rs \<and> snd r = Resolves resp \<and> ok resp \<and>
       json resp = Inl m \<longrightarrow>
      (\<exists>form. uploadFiles (FileArray fs) w = Some (uploaded form r w, Inl (JsonParseFailed m))))
   \<and> (well_formed w fs \<and> uploadReplies w = r # rs \<and> snd r = Resolves resp \<and> ok resp \<and>
       json resp = Inr j \<and> \<not> success j \<longrightarrow>
      (\<exists>form e. uploadFiles (FileArray fs) w = Some (uploaded form r w, Inl e) \<and>
         e = UploadNotSuccessful j \<and> err_body e = safeParseJSON resp))
   \<and> (uploadReplies w = r # rs \<longrightarrow>
      (\<exists>w' res. uploadFiles files w = Some (w', res) \<and> (isl res \<longleftrightarrow> upload_fails w files r)))
   \<and> (uploadFiles files w = Some (w', res) \<longrightarrow>
        (isl res \<longleftrightarrow> upload_fails w files (hd (uploadReplies w))))"
proof -
  have sends: "\<exists>form. uploadFiles (FileArray fs) w = Some (uploaded form r w, upload_result r)"
    if "well_formed w fs" "uploadReplies w = r # rs" for r rs
  proof -
    from well_formed_form[OF that(1)] obtain form where f: "buildForm w fs [] = Inr form" ..
    from that(1) have "fs \<noteq> []" by (simp add: well_formed_def)
    from uploadFiles_sends[OF refl this f that(2)] show ?thesis ..
  qed
  have 1: "uploadFiles files w = Some (w, Inl FilesNotNonEmptyArray)"
    if "files = NotAnArray \<or> files = FileArray []"
    using that by (auto simp: uploadFiles_eq)
  have 2: "uploadFiles (FileArray fs) w = Some (w, Inl FileItemInvalid)"
    if "fs \<noteq> [] \<and> list_ex (\<lambda>f. \<not> item_has_form f) fs \<and> \<not> list_ex (path_unreadable w) fs"
    using that buildForm_no_form[of fs w "[]"] by (simp add: uploadFiles_eq del: buildForm.simps)
  have 3: "\<exists>e. uploadFiles (FileArray fs) w = Some (w, Inl e) \<and>
         (e = FileItemInvalid \<or> (\<exists>m. e = ReadFileFailed m))"
    if "fs \<noteq> [] \<and> (list_ex (\<lambda>f. \<not> item_has_form f) fs \<or> list_ex (path_unreadable w) fs)"
    using that uploadFiles_local_failure[of fs w] by blast
  have 4: "\<exists>form. uploadFiles (FileArray fs) w = Some (uploaded form r w, Inl (RequestTimedOut 60000))"
    if "well_formed w fs \<and> uploadReplies w = r # rs \<and> snd r = RejectsAbort"
    using that sends[of r rs] by (auto simp: upload_result_def)
  have 5: "\<exists>form. uploadFiles (FileArray fs) w = Some (uploaded form r w, Inl (FetchRejected m))"
    if "well_formed w fs \<and> uploadReplies w = r # rs \<and> snd r = RejectsOther m"
    using that sends[of r rs] by (auto simp: upload_result_def)
  have 6: "\<exists>form e. uploadFiles (FileArray fs) w = Some (uploaded form r w, Inl e) \<and>
         e = UploadFailed (resp_status resp) (statusText resp) (safeParseJSON resp) \<and>
         err_body e = safeParseJSON resp"
    if "well_formed w fs \<and> uploadReplies w = r # rs \<and> snd r = Resolves resp \<and> \<not> ok resp"
    using that sends[of r rs] by (auto simp: upload_result_def)
  have 7: "\<exists>form. uploadFiles (FileArray fs) w = Some (uploaded form r w, Inl (JsonParseFailed m))"
    if "well_formed w fs \<and> uploadReplies w = r # rs \<and> snd r = Resolves resp \<and> ok resp \<and>
       json resp = Inl m"
    using that sends[of r rs] by (auto simp: upload_result_def)
  have 8: "\<exists>form e. uploadFiles (FileArray fs) w = Some (uploaded form r w, Inl e) \<and>
         e = UploadNotSuccessful j \<and> err_body e = safeParseJSON resp"
    if "well_formed w fs \<and> uploadReplies w = r # rs \<and> snd r = Resolves resp \<and> ok resp \<and>
       json resp = Inr j \<and> \<not> success j"
    using that sends[of r rs] by (auto simp: upload_result_def safeParseJSON_def)
  have 9: "\<exists>w' res. uploadFiles files w = Some (w', res) \<and> (isl res \<longleftrightarrow> upload_fails w files r)"
    if a: "uploadReplies w = r # rs"
  proof -
    have "\<exists>w' res. uploadFiles files w = Some (w', res)"
      using a by (auto simp: uploadFiles_eq split: files_arg.splits sum.splits)
    then obtain w' res where u: "uploadFiles files w = Some (w', res)" by blast
    from uploadFiles_fails_iff[OF u] a u show ?thesis by simp
  qed
  have 10: "isl res \<longleftrightarrow> upload_fails w files (hd (uploadReplies w))"
    if "uploadFiles files w = Some (w', res)"
    using that by (rule uploadFiles_fails_iff)
  from 1 2 3 4 5 6 7 8 9 10 show ?thesis by blast
qed


text \<open>
  Claim C8 as stated fails: a well-formed list whose request times out makes \<open>uploadFiles\<close>
  fail, and none of the four stated conditions holds.
\<close>

theorem uploadFiles_failures_counterexample:
  "uploadFiles (FileArray [buffer_file]) (scripted_world [(60000, RejectsAbort)] [] [])
     = Some (uploaded [png_part] (60000, RejectsAbort) (scripted_world [(60000, RejectsAbort)] [] []),
             Inl (RequestTimedOut 60000))
   \<and> \<not> spec_upload_fails (FileArray [buffer_file]) (60000, RejectsAbort)"
  by (simp add: uploadFiles_eq spec_upload_fails_def del: buildForm.simps)

lemma example_items [simp]:
  "\<not> item_has_form empty_item" "\<not> path_unreadable w empty_item"
  "item_has_form path_item" "path_unreadable (scripted_world us ss ps) path_item"
  by (simp_all add: item_has_form_def path_unreadable_def empty_item_def path_item_def
      truthy_str_def scripted_world_def)

lemma buffer_file_well_formed [simp]: "well_formed w [buffer_file]"
  by (simp add: well_formed_def)

theorem uploadFiles_failures_witness:
  "uploadFiles (FileArray []) (scripted_world [upload_ok_reply 5 (Some [''U1''])] [] [])
      = Some (scripted_world [upload_ok_reply 5 (Some [''U1''])] [] [], Inl FilesNotNonEmptyArray)
   \<and> uploadFiles (FileArray [buffer_file, empty_item])
        (scripted_world [upload_ok_reply 5 (Some [''U1''])] [] [])
      = Some (scripted_world [upload_ok_reply 5 (Some [''U1''])] [] [], Inl FileItemInvalid)
   \<and> (\<exists>e. uploadFiles (FileArray [path_item]) (scripted_world [upload_ok_reply 5 (Some [''U1''])] [] [])
          = Some (scripted_world [upload_ok_reply 5 (Some [''U1''])] [] [], Inl e) \<and>
        (e = FileItemInvalid \<or> (\<exists>m. e = ReadFileFailed m)))
   \<and> (\<exists>form. uploadFiles (FileArray [buffer_file]) (scripted_world [(60000, RejectsAbort)] [] [])
          = Some (uploaded form (60000, RejectsAbort) (scripted_world [(60000, RejectsAbort)] [] []),
                  Inl (RequestTimedOut 60000)))
   \<and> (\<exists>form. uploadFiles (FileArray [buffer_file]) (scripted_world [(7, RejectsOther ''ECONNRESET'')] [] [])
          = Some (uploaded form (7, RejectsOther ''ECONNRESET'')
                    (scripted_world [(7, RejectsOther ''ECONNRESET'')] [] []),
                  Inl (FetchRejected ''ECONNRESET'')))
   \<and> (\<exists>form e. uploadFiles (FileArray [buffer_file]) (scripted_world [upload_error_reply 5] [] [])
          = Some (uploaded form (upload_error_reply 5) (scripted_world [upload_error_reply 5] [] []), Inl e) \<and>
        err_body e = Some \<lparr>success = False, uploads = None, reason = Some ''boom''\<rparr>)
   \<and> (\<exists>form. uploadFiles (FileArray [buffer_file]) (scripted_world [upload_garbled_reply 5] [] [])
          = Some (uploaded form (upload_garbled_reply 5) (scripted_world [upload_garbled_reply 5] [] []),
                  Inl (JsonParseFailed ''Unexpected token'')))
   \<and> (\<exists>form e. uploadFiles (FileArray [buffer_file]) (scripted_world [upload_refused_reply 5] [] [])
          = Some (uploaded form (upload_refused_reply 5) (scripted_world [upload_refused_reply 5] [] []), Inl e) \<and>
        err_body e = Some \<lparr>success = False, uploads = None, reason = Some ''quota''\<rparr>)
   \<and> (\<exists>w' res. uploadFiles (FileArray [buffer_file]) (scripted_world [(60000, RejectsAbort)] [] [])
          = Some (w', res) \<and> isl res \<and>
        upload_fails (scripted_world [(60000, RejectsAbort)] [] []) (FileArray [buffer_file])
          (60000, RejectsAbort))
   \<and> (\<exists>w' res. uploadFiles (FileArray [buffer_file]) (scripted_world [upload_ok_reply 5 (Some [''U1''])] [] [])
          = Some (w', res) \<and> \<not> isl res \<and>
        \<not> upload_fails (scripted_world [upload_ok_reply 5 (Some [''U1''])] [] []) (FileArray [buffer_file])
          (upload_ok_reply 5 (Some [''U1''])))"
proof -
  note T = uploadFiles_failures
  let ?W = "scripted_world [upload_ok_reply 5 (Some [''U1''])] [] []"
  let ?A = "scripted_world [(60000, RejectsAbort)] [] []"
  let ?R = "scripted_world [(7, RejectsOther ''ECONNRESET'')] [] []"
  let ?E = "scripted_world [upload_error_reply 5] [] []"
  let ?G = "scripted_world [upload_garbled_reply 5] [] []"
  let ?F = "scripted_world [upload_refused_reply 5] [] []"
  let ?be = "\<lparr>success = False, uploads = None, reason = Some ''boom''\<rparr>"
  let ?bf = "\<lparr>success = False, uploads = None, reason = Some ''quota''\<rparr>"
  let ?re = "\<lparr>resp_status = 500, statusText = ''Internal Server Error'', json = Inr ?be\<rparr>"
  let ?rg = "\<lparr>resp_status = 200, statusText = ''OK'', json = Inl ''Unexpected token'' :: string + upload_body\<rparr>"
  let ?rf = "\<lparr>resp_status = 200, statusText = ''OK'', json = Inr ?bf\<rparr>"
  have 1: "uploadFiles (FileArray []) ?W = Some (?W, Inl FilesNotNonEmptyArray)"
    by (rule T[where files = "FileArray []" and w = ?W, THEN conjunct1, rule_format]) simp
  have 2: "uploadFiles (FileArray [buffer_file, empty_item]) ?W = Some (?W, Inl FileItemInvalid)"
    by (rule T[where fs = "[buffer_file, empty_item]" and w = ?W,
          THEN conjunct2, THEN conjunct1, rule_format]) simp
  have 3: "\<exists>e. uploadFiles (FileArray [path_item]) ?W = Some (?W, Inl e) \<and>
        (e = FileItemInvalid \<or> (\<exists>m. e = ReadFileFailed m))"
    by (rule T[where fs = "[path_item]" and w = ?W,
          THEN conjunct2, THEN conjunct2, THEN conjunct1, rule_format]) simp
  have 4: "\<exists>form. uploadFiles (FileArray [buffer_file]) ?A
          = Some (uploaded form (60000, RejectsAbort) ?A, Inl (RequestTimedOut 60000))"
    by (rule T[where fs = "[buffer_file]" and w = ?A and r = "(60000, RejectsAbort)" and rs = "[]",
          THEN conjunct2, THEN conjunct2, THEN conjunct2, THEN conjunct1, rule_format]) simp
  have 5: "\<exists>form. uploadFiles (FileArray [buffer_file]) ?R
          = Some (uploaded form (7, RejectsOther ''ECONNRESET'') ?R, Inl (FetchRejected ''ECONNRESET''))"
    by (rule T[where fs = "[buffer_file]" and w = ?R and r = "(7, RejectsOther ''ECONNRESET'')" and rs = "[]"
          and m = "''ECONNRESET''",
          THEN conjunct2, THEN conjunct2, THEN conjunct2, THEN conjunct2, THEN conjunct1, rule_format]) simp
  have "\<exists>form e. uploadFiles (FileArray [buffer_file]) ?E
          = Some (uploaded form (upload_error_reply 5) ?E, Inl e) \<and>
        e = UploadFailed (resp_status ?re) (statusText ?re) (safeParseJSON ?re) \<and>
        err_body e = safeParseJSON ?re"
    by (rule T[where fs = "[buffer_file]" and w = ?E and r = "upload_error_reply 5" and rs = "[]"
          and resp = ?re,
          THEN conjunct2, THEN conjunct2, THEN conjunct2, THEN conjunct2, THEN conjunct2,
          THEN conjunct1, rule_format])
       (simp add: upload_error_reply_def ok_def)
  then have 6: "\<exists>form e. uploadFiles (FileArray [buffer_file]) ?E
          = Some (uploaded form (upload_error_reply 5) ?E, Inl e) \<and> err_body e = Some ?be"
    by (auto simp: safeParseJSON_def)
  have 7: "\<exists>form. uploadFiles (FileArray [buffer_file]) ?G
          = Some (uploaded form (upload_garbled_reply 5) ?G, Inl (JsonParseFailed ''Unexpected token''))"
    by (rule T[where fs = "[buffer_file]" and w = ?G and r = "upload_garbled_reply 5" and rs = "[]"
          and resp = ?rg and m = "''Unexpected token''",
          THEN conjunct2, THEN conjunct2, THEN conjunct2, THEN conjunct2, THEN conjunct2,
          THEN conjunct2, THEN conjunct1, rule_format])
       (simp add: upload_garbled_reply_def ok_def)
  have "\<exists>form e. uploadFiles (FileArray [buffer_file]) ?F
          = Some (uploaded form (upload_refused_reply 5) ?F, Inl e) \<and>
        e = UploadNotSuccessful ?bf \<and> err_body e = safeParseJSON ?rf"
    by (rule T[where fs = "[buffer_file]" and w = ?F and r = "upload_refused_reply 5" and rs = "[]"
          and resp = ?rf and j = ?bf,
          THEN conjunct2, THEN conjunct2, THEN conjunct2, THEN conjunct2, THEN conjunct2,
          THEN conjunct2, THEN conjunct2, THEN conjunct1, rule_format])
       (simp add: upload_refused_reply_def ok_def)
  then have 8: "\<exists>form e. uploadFiles (FileArray [buffer_file]) ?F
          = Some (uploaded form (upload_refused_reply 5) ?F, Inl e) \<and> err_body e = Some ?bf"
    by (auto simp: safeParseJSON_def)
  have f: "upload_fails ?A (FileArray [buffer_file]) (60000, RejectsAbort)"
    "\<not> upload_fails ?W (FileArray [buffer_file]) (upload_ok_reply 5 (Some [''U1'']))"
    by (simp_all add: upload_fails_def upload_ok_reply_def ok_def)
  have "\<exists>w' res. uploadFiles (FileArray [buffer_file]) ?A = Some (w', res) \<and>
        (isl res \<longleftrightarrow> upload_fails ?A (FileArray [buffer_file]) (60000, RejectsAbort))"
    by (rule T[where files = "FileArray [buffer_file]" and w = ?A and r = "(60000, RejectsAbort)" and rs = "[]",
          THEN conjunct2, THEN conjunct2, THEN conjunct2, THEN conjunct2, THEN conjunct2,
          THEN conjunct2, THEN conjunct2, THEN conjunct2, THEN conjunct1, rule_format]) simp
  with f have 9: "\<exists>w' res. uploadFiles (FileArray [buffer_file]) ?A = Some (w', res) \<and> isl res \<and>
        upload_fails ?A (FileArray [buffer_file]) (60000, RejectsAbort)"
    by simp
  have "\<exists>w' res. uploadFiles (FileArray [buffer_file]) ?W = Some (w', res) \<and>
        (isl res \<longleftrightarrow> upload_fails ?W (FileArray [buffer_file]) (upload_ok_reply 5 (Some [''U1''])))"
    by (rule T[where files = "FileArray [buffer_file]" and w = ?W and r = "upload_ok_reply 5 (Some [''U1''])"
          and rs = "[]",
          THEN conjunct2, THEN conjunct2, THEN conjunct2, THEN conjunct2, THEN conjunct2,
          THEN conjunct2, THEN conjunct2, THEN conjunct2, THEN conjunct1, rule_format]) simp
  with f have 10: "\<exists>w' res. uploadFiles (FileArray [buffer_file]) ?W = Some (w', res) \<and> \<not> isl res \<and>
        \<not> upload_fails ?W (FileArray [buffer_file]) (upload_ok_reply 5 (Some [''U1'']))"
    by simp
  from 1 2 3 4 5 6 7 8 9 10 show ?thesis by blast
qed

section \<open>retryAsync around uploadFiles\<close>

lemma retryLoop_success:
  "fn w = Some (w1, Inr v) \<Longrightarrow> retryLoop fn retries backoffMs i w = Some (w1, Inr v)"
  by (subst retryLoop.simps) simp

lemma retryLoop_throw:
  "fn w = Some (w1, Inl e) \<Longrightarrow> Suc i > retries \<Longrightarrow>
     retryLoop fn retries backoffMs i w = Some (w1, Inl e)"
  by (subst retryLoop.simps) simp

lemma retryLoop_again:
  "fn w = Some (w1, Inl e) \<Longrightarrow> \<not> Suc i > retries \<Longrightarrow>
     retryLoop fn retries backoffMs i w =
       retryLoop fn retries backoffMs (Suc i) (wait (backoffMs * Suc i) w1)"
  by (subst retryLoop.simps) simp

lemma retryLoop_None: "fn w = None \<Longrightarrow> retryLoop fn retries backoffMs i w = None"
  by (subst retryLoop.simps) simp

lemma waits_simps [simp]:
  "waits [] = []" "waits (evs @ evs') = waits evs @ waits evs'"
  "waits (Waited ms # evs) = ms # waits evs" "waits (Uploaded form r # evs) = waits evs"
  "waits (StatusQueried uploadId q # evs) = waits evs" "waits (Posted p pr # evs) = waits evs"
  by (simp_all add: waits_def)

lemma uploads_in_simps [simp]:
  "uploads_in [] = 0" "uploads_in (evs @ evs') = uploads_in evs + uploads_in evs'"
  "uploads_in (Waited ms # evs) = uploads_in evs" "uploads_in (Uploaded form r # evs) = Suc (uploads_in evs)"
  "uploads_in (StatusQueried uploadId q # evs) = uploads_in evs" "uploads_in (Posted p pr # evs) = uploads_in evs"
  by (simp_all add: uploads_in_def)

lemma uploadFiles_trace:
  assumes "uploadFiles files w = Some (w1, r)"
  shows "\<exists>evs. trace w1 = trace w @ evs \<and> waits evs = [] \<and> uploads_in evs \<le> 1 \<and>
     list_all (\<lambda>e. is_upload e \<or> is_wait e) evs"
proof -
  from assms consider "trace w1 = trace w" | form q where "trace w1 = trace w @ [Uploaded form q]"
    by (auto simp: uploadFiles_eq uploaded_def split: files_arg.splits if_splits sum.splits list.splits)
  then show ?thesis
  proof cases
    case 1
    then show ?thesis by (intro exI[of _ "[]"]) simp
  next
    case 2
    then show ?thesis by (intro exI[of _ "[Uploaded form q]"]) simp
  qed
qed

lemma retryLoop_trace:
  assumes fn: "\<And>w w1 r. fn w = Some (w1, r) \<Longrightarrow>
      \<exists>evs. trace w1 = trace w @ evs \<and> waits evs = [] \<and> uploads_in evs \<le> 1 \<and>
        list_all (\<lambda>e. is_upload e \<or> is_wait e) evs"
  shows "retryLoop fn retries backoffMs i w = Some (w', res) \<Longrightarrow>
     \<exists>evs k. trace w' = trace w @ evs \<and>
        waits evs = map (\<lambda>j. backoffMs * j) [Suc i..<Suc (i + k)] \<and>
        (k = 0 \<or> i + k \<le> retries) \<and> (isl res \<longrightarrow> retries \<le> i + k) \<and>
        uploads_in evs \<le> Suc k \<and> list_all (\<lambda>e. is_upload e \<or> is_wait e) evs \<and>
        (\<forall>e. res = Inl e \<longrightarrow> (\<exists>wl. fn wl = Some (w', Inl e)))"
  using fn
proof (induction fn retries backoffMs i w rule: retryLoop.induct)
  case (1 fn retries backoffMs i w)
  note eq = "1.prems"(1) and fnp = "1.prems"(2)
  show ?case
  proof (cases "fn w")
    case None
    with eq show ?thesis by (simp add: retryLoop_None)
  next
    case (Some a)
    then obtain w1 r where f: "fn w = Some (w1, r)" by (cases a) auto
    from fnp[OF f] obtain evs1 where
      e1: "trace w1 = trace w @ evs1" "waits evs1 = []" "uploads_in evs1 \<le> 1"
        "list_all (\<lambda>e. is_upload e \<or> is_wait e) evs1" by blast
    show ?thesis
    proof (cases r)
      case (Inr v)
      with f eq have "w' = w1" "res = Inr v" by (simp_all add: retryLoop_success)
      with e1 show ?thesis by (intro exI[of _ evs1] exI[of _ 0]) simp
    next
      case (Inl e)
      show ?thesis
      proof (cases "Suc i > retries")
        case True
        with f Inl eq have "w' = w1" "res = Inl e" by (simp_all add: retryLoop_throw)
        with e1 True f Inl show ?thesis by (intro exI[of _ evs1] exI[of _ 0]) auto
      next
        case False
        let ?w2 = "wait (backoffMs * Suc i) w1"
        have f': "fn w = Some (w1, Inl e)" using f Inl by simp
        have c: "retryLoop fn retries backoffMs (Suc i) ?w2 = Some (w', res)"
          using eq unfolding retryLoop_again[where fn = fn and w = w and backoffMs = backoffMs, OF f' False] .
        have "\<exists>evs k. trace w' = trace ?w2 @ evs \<and>
            waits evs = map (\<lambda>j. backoffMs * j) [Suc (Suc i)..<Suc (Suc i + k)] \<and>
            (k = 0 \<or> Suc i + k \<le> retries) \<and> (isl res \<longrightarrow> retries \<le> Suc i + k) \<and>
            uploads_in evs \<le> Suc k \<and> list_all (\<lambda>e. is_upload e \<or> is_wait e) evs \<and>
            (\<forall>e. res = Inl e \<longrightarrow> (\<exists>wl. fn wl = Some (w', Inl e)))"
          by (rule "1.IH"[OF f refl Inl False c]) (rule fnp)
        then obtain evs k where
          p: "trace w' = trace ?w2 @ evs"
            "waits evs = map (\<lambda>j. backoffMs * j) [Suc (Suc i)..<Suc (Suc i + k)]"
            "k = 0 \<or> Suc i + k \<le> retries" "isl res \<longrightarrow> retries \<le> Suc i + k"
            "uploads_in evs \<le> Suc k" "list_all (\<lambda>e. is_upload e \<or> is_wait e) evs"
            "\<forall>e. res = Inl e \<longrightarrow> (\<exists>wl. fn wl = Some (w', Inl e))"
          by blast
        have u: "[Suc i..<Suc (i + Suc k)] = Suc i # [Suc (Suc i)..<Suc (Suc i + k)]"
          by (simp add: upt_conv_Cons)
        show ?thesis
          using p e1 False u
          by (intro exI[of _ "evs1 @ Waited (backoffMs * Suc i) # evs"] exI[of _ "Suc k"])
             (auto simp: wait_def)
      qed
    qed
  qed
qed

lemma buildForm_cong:
  "readFileSync w' = readFileSync w \<Longrightarrow> basename w' = basename w \<Longrightarrow>
     buildForm w' fs form = buildForm w fs form"
  by (induction fs arbitrary: form) (auto simp: Let_def split: sum.splits option.splits)

lemma retryAsync_three_attempts:
  assumes "files = FileArray fs" "fs \<noteq> []" "buildForm w fs [] = Inr form"
    "uploadReplies w = r1 # r2 # r3 # rs"
    "upload_result r1 = Inl e1" "upload_result r2 = Inl e2" "upload_result r3 = Inr ups"
    "2 \<le> retries"
  shows "retryAsync (uploadFiles files) retries backoffMs w =
     Some (uploaded form r3 (wait (backoffMs * 2) (uploaded form r2 (wait (backoffMs * 1) (uploaded form r1 w)))),
           Inr ups)"
proof -
  let ?w1 = "uploaded form r1 w"
  let ?w2 = "wait (backoffMs * Suc 0) ?w1"
  let ?w3 = "uploaded form r2 ?w2"
  let ?w4 = "wait (backoffMs * Suc (Suc 0)) ?w3"
  have b2: "buildForm ?w2 fs [] = Inr form"
    using assms(3) by (subst buildForm_cong[of ?w2 w]) (simp_all add: wait_def uploaded_def)
  have b4: "buildForm ?w4 fs [] = Inr form"
    using assms(3) by (subst buildForm_cong[of ?w4 w]) (simp_all add: wait_def uploaded_def)
  have u1: "uploadFiles files w = Some (?w1, Inl e1)"
    using uploadFiles_sends[OF assms(1,2,3,4)] assms(5) by simp
  have u2: "uploadFiles files ?w2 = Some (?w3, Inl e2)"
    using uploadFiles_sends[OF assms(1,2) b2, of r2 "r3 # rs"] assms(4,6)
    by (simp add: wait_def uploaded_def)
  have u3: "uploadFiles files ?w4 = Some (uploaded form r3 ?w4, Inr ups)"
    using uploadFiles_sends[OF assms(1,2) b4, of r3 rs] assms(4,7)
    by (simp add: wait_def uploaded_def)
  have n0: "\<not> Suc 0 > retries" and n1: "\<not> Suc (Suc 0) > retries" using assms(8) by simp_all
  have "retryLoop (uploadFiles files) retries backoffMs 0 w
      = retryLoop (uploadFiles files) retries backoffMs (Suc 0) ?w2"
    by (rule retryLoop_again[where fn = "uploadFiles files" and w = w, OF u1 n0])
  also have "\<dots> = retryLoop (uploadFiles files) retries backoffMs (Suc (Suc 0)) ?w4"
    by (rule retryLoop_again[where fn = "uploadFiles files" and w = ?w2, OF u2 n1])
  also have "\<dots> = Some (uploaded form r3 ?w4, Inr ups)"
    by (rule retryLoop_success[where fn = "uploadFiles files" and w = ?w4, OF u3])
  finally show ?thesis by (simp add: retryAsync_def numeral_2_eq_2)
qed

lemma submitPostWithFiles_eq:
  assumes "sw_files args = FileArray fs" "fs \<noteq> []"
    "reply_permission_ok (sw_replyPermission args)" "quote_ok (sw_quotePostID args)"
  shows "submitPostWithFiles cfg args w =
     (case retryAsync (uploadFiles (sw_files args)) (maxRetries cfg) 300 w of
        None \<Rightarrow> None
      | Some (w1, Inl err) \<Rightarrow> Some (w1, Inl (UploadingFilesFailed (message_of err)))
      | Some (w1, Inr ups) \<Rightarrow>
          (case pollUploads cfg (sw_pollOptions args) (sw_timeoutMs args) (now w1) ups [] w1 of
             None \<Rightarrow> None
           | Some (w2, Inl e) \<Rightarrow> Some (w2, Inl e)
           | Some (w2, Inr finalSrcs) \<Rightarrow>
               submitPost \<lparr>sp_body = sw_body args, sp_medias = finalSrcs,
                 sp_replyPermission = sw_replyPermission args,
                 sp_quotePostID = sw_quotePostID args, sp_userIP = None\<rparr> w2))"
proof -
  have "\<exists>rp. (if sw_replyPermission args = JUndefined then Inr JUndefined
      else validateReplyPermission (sw_replyPermission args)) = Inr rp"
    using assms(3)
    by (cases "validateReplyPermission (sw_replyPermission args)") (auto simp: reply_permission_ok_def)
  moreover have "\<exists>qid. (if \<not> nullish (sw_quotePostID args) then validateQuotePostID (sw_quotePostID args)
      else Inr JUndefined) = Inr qid"
    using assms(4)
    by (cases "nullish (sw_quotePostID args)") (auto simp: quote_ok_def validateQuotePostID_def Let_def)
  ultimately show ?thesis
    using assms(1,2) by (auto simp: submitPostWithFiles_def)
qed

lemma retried_simps [simp]:
  "uploadReplies (retried form b i rs w) = drop (length rs) (uploadReplies w)"
  "statusReplies (retried form b i rs w) = statusReplies w"
  "postReplies (retried form b i rs w) = postReplies w"
  "readFileSync (retried form b i rs w) = readFileSync w"
  "basename (retried form b i rs w) = basename w"
  "trace (retried form b i rs w) = trace w @ retry_events form b i rs"
  by (induction rs arbitrary: i w) (simp_all add: drop_Suc tl_drop)

lemma retry_events_counts [simp]:
  "uploads_in (retry_events form b i rs) = length rs"
  "waits (retry_events form b i rs) = map (\<lambda>j. b * j) [Suc i..<Suc (i + length rs)]"
  by (induction rs arbitrary: i) (simp_all del: upt_Suc add: upt_conv_Cons)

lemma backed_off_simps [simp]:
  "uploadReplies (backed_off b i n w) = uploadReplies w"
  "statusReplies (backed_off b i n w) = statusReplies w"
  "postReplies (backed_off b i n w) = postReplies w"
  "readFileSync (backed_off b i n w) = readFileSync w"
  "basename (backed_off b i n w) = basename w"
  "trace (backed_off b i n w) = trace w @ map (\<lambda>j. Waited (b * j)) [Suc i..<Suc (i + n)]"
  by (induction n arbitrary: i w) (simp_all del: upt_Suc add: upt_conv_Cons)

lemma retryLoop_upload_prefix:
  "fs \<noteq> [] \<Longrightarrow> buildForm w fs [] = Inr form \<Longrightarrow> uploadReplies w = fails @ rest \<Longrightarrow>
   list_all failing_reply fails \<Longrightarrow> i + length fails \<le> retries \<Longrightarrow>
   retryLoop (uploadFiles (FileArray fs)) retries b i w =
     retryLoop (uploadFiles (FileArray fs)) retries b (i + length fails) (retried form b i fails w)"
proof (induction fails arbitrary: i w)
  case Nil
  then show ?case by simp
next
  case (Cons r fails)
  from Cons.prems(4) obtain e where e: "upload_result r = Inl e"
    by (cases "upload_result r") (auto simp: failing_reply_def)
  from Cons.prems(3) have c: "uploadReplies w = r # (fails @ rest)" by simp
  have u: "uploadFiles (FileArray fs) w = Some (uploaded form r w, Inl e)"
    using uploadFiles_sends[OF refl Cons.prems(1,2) c] e by simp
  from Cons.prems(5) have n: "\<not> Suc i > retries" by simp
  let ?w2 = "wait (b * Suc i) (uploaded form r w)"
  have 1: "retryLoop (uploadFiles (FileArray fs)) retries b i w =
      retryLoop (uploadFiles (FileArray fs)) retries b (Suc i) ?w2"
    by (rule retryLoop_again[where fn = "uploadFiles (FileArray fs)" and w = w, OF u n])
  have b2: "buildForm ?w2 fs [] = Inr form"
    using Cons.prems(2) by (subst buildForm_cong[of ?w2 w]) simp_all
  have c2: "uploadReplies ?w2 = fails @ rest" using c by simp
  from Cons.prems(4) have f2: "list_all failing_reply fails" by simp
  from Cons.prems(5) have l2: "Suc i + length fails \<le> retries" by simp
  from Cons.IH[OF Cons.prems(1) b2 c2 f2 l2] 1 show ?case by simp
qed

lemma retryAsync_upload_run:
  assumes "fs \<noteq> []" "buildForm w fs [] = Inr form" "uploadReplies w = fails @ r # rs"
    "list_all failing_reply fails" "length fails \<le> retries"
    "\<not> isl (upload_result r) \<or> length fails = retries"
  shows "retryAsync (uploadFiles (FileArray fs)) retries b w =
     Some (uploaded form r (retried form b 0 fails w), upload_result r)"
proof -
  let ?w1 = "retried form b 0 fails w"
  have p: "retryLoop (uploadFiles (FileArray fs)) retries b 0 w =
      retryLoop (uploadFiles (FileArray fs)) retries b (0 + length fails) ?w1"
    using assms(5) by (intro retryLoop_upload_prefix[OF assms(1,2,3,4)]) simp
  have b1: "buildForm ?w1 fs [] = Inr form"
    using assms(2) by (subst buildForm_cong[of ?w1 w]) simp_all
  have c1: "uploadReplies ?w1 = r # rs" using assms(3) by simp
  have u: "uploadFiles (FileArray fs) ?w1 = Some (uploaded form r ?w1, upload_result r)"
    by (rule uploadFiles_sends[OF refl assms(1) b1 c1])
  have "retryLoop (uploadFiles (FileArray fs)) retries b (length fails) ?w1 =
      Some (uploaded form r ?w1, upload_result r)"
  proof (cases "upload_result r")
    case (Inr ups)
    with u show ?thesis
      by (intro retryLoop_success[where fn = "uploadFiles (FileArray fs)" and w = ?w1, THEN trans]) simp_all
  next
    case (Inl e)
    with assms(6) have "Suc (length fails) > retries" by simp
    with u Inl show ?thesis
      using retryLoop_throw[where fn = "uploadFiles (FileArray fs)" and w = ?w1 and e = e
          and ?w1.0 = "uploaded form r ?w1" and i = "length fails" and retries = retries and backoffMs = b]
      by simp
  qed
  with p show ?thesis by (simp add: retryAsync_def)
qed

lemma retryLoop_local_failure:
  "fs \<noteq> [] \<Longrightarrow> buildForm w fs [] = Inl e \<Longrightarrow> n = retries - i \<Longrightarrow> i \<le> retries \<Longrightarrow>
   retryLoop (uploadFiles (FileArray fs)) retries b i w = Some (backed_off b i n w, Inl e)"
proof (induction n arbitrary: i w)
  case 0
  then have u: "uploadFiles (FileArray fs) w = Some (w, Inl e)" by (simp add: uploadFiles_eq)
  from 0 have "Suc i > retries" by simp
  from retryLoop_throw[where fn = "uploadFiles (FileArray fs)", OF u this] show ?case by simp
next
  case (Suc n)
  then have u: "uploadFiles (FileArray fs) w = Some (w, Inl e)" by (simp add: uploadFiles_eq)
  from Suc.prems have n: "\<not> Suc i > retries" by simp
  let ?w2 = "wait (b * Suc i) w"
  have 1: "retryLoop (uploadFiles (FileArray fs)) retries b i w =
      retryLoop (uploadFiles (FileArray fs)) retries b (Suc i) ?w2"
    by (rule retryLoop_again[where fn = "uploadFiles (FileArray fs)" and w = w, OF u n])
  have b2: "buildForm ?w2 fs [] = Inl e"
    using Suc.prems(2) by (subst buildForm_cong[of ?w2 w]) simp_all
  from Suc.prems have "n = retries - Suc i" "Suc i \<le> retries" by simp_all
  from Suc.IH[OF Suc.prems(1) b2 this] 1 show ?case by simp
qed


lemma retry_run_counts:
  "uploads_in (retry_events form b 0 fails @ [Uploaded form r]) = Suc (length fails)"
  "waits (retry_events form b 0 fails @ [Uploaded form r]) = map (\<lambda>j. b * j) [1..<Suc (length fails)]"
  by (simp_all del: upt_Suc)

text \<open>
  Claim C4. In every run of the retried upload of \<open>submitPostWithFiles\<close> that returns, the
  trace gains \<open>k\<close> waits with \<open>k\<close> at most \<open>maxRetries\<close>, the waits are 300, 600, ... ,
  \<open>300 * k\<close> in this order, and at most \<open>k + 1\<close> upload requests are made; when the run fails
  all \<open>maxRetries\<close> retries were used and the error is the one of the last attempt. With a
  well-formed list, replies that fail twice and then succeed, and \<open>maxRetries\<close> at least 2,
  the upload succeeds after exactly three requests with waits of 300 and 600 between
  them; in general, when the replies \<open>fails\<close>, at most \<open>maxRetries\<close> of them, all make the
  upload fail and the next reply succeeds, the retried upload succeeds after one request
  more than there are \<open>fails\<close>, with a wait of \<open>300 * N\<close> before retry attempt \<open>N\<close>. When
  \<open>maxRetries + 1\<close> replies in a row make the upload fail, the retried upload fails with the
  error of the last attempt after exactly \<open>maxRetries + 1\<close> requests and \<open>maxRetries\<close> waits,
  and \<open>submitPostWithFiles\<close> fails with a new error whose message wraps the message of that
  error. A list that \<open>uploadFiles\<close> rejects before any request is retried as well: after
  \<open>maxRetries\<close> waits \<open>submitPostWithFiles\<close> fails with the wrapped error. And whenever the
  retried upload fails, \<open>submitPostWithFiles\<close> fails with the wrapped error.
\<close>

theorem submitPostWithFiles_upload_retry:
  "(retryAsync (uploadFiles files) (maxRetries cfg) 300 w = Some (w1, res) \<longrightarrow>
      (\<exists>evs k. trace w1 = trace w @ evs \<and> k \<le> maxRetries cfg \<and>
         waits evs = map (\<lambda>j. 300 * j) [1..<Suc k] \<and> uploads_in evs \<le> Suc k \<and>
         (isl res \<longrightarrow> k = maxRetries cfg) \<and>
         (\<forall>e. res = Inl e \<longrightarrow> (\<exists>wl. uploadFiles files wl = Some (w1, Inl e)))))
   \<and> (files = FileArray fs \<and> fs \<noteq> [] \<and> buildForm w fs [] = Inr form \<and>
      uploadReplies w = r1 # r2 # r3 # rs \<and> upload_result r1 = Inl e1 \<and>
      upload_result r2 = Inl e2 \<and> upload_result r3 = Inr ups \<and> 2 \<le> maxRetries cfg \<longrightarrow>
      (\<exists>w3. retryAsync (uploadFiles files) (maxRetries cfg) 300 w = Some (w3, Inr ups) \<and>
         trace w3 = trace w @
           [Uploaded form r1, Waited 300, Uploaded form r2, Waited 600, Uploaded form r3]))
   \<and> (sw_files args = FileArray fs \<and> fs \<noteq> [] \<and> reply_permission_ok (sw_replyPermission args) \<and>
      quote_ok (sw_quotePostID args) \<and>
      retryAsync (uploadFiles (sw_files args)) (maxRetries cfg) 300 w = Some (w1, Inl e) \<longrightarrow>
      submitPostWithFiles cfg args w = Some (w1, Inl (UploadingFilesFailed (message_of e))))
   \<and> (well_formed w fs \<and> uploadReplies w = fails @ r # rs \<and> list_all failing_reply fails \<and>
      length fails \<le> maxRetries cfg \<and> upload_result r = Inr ups \<longrightarrow>
      (\<exists>form evs.
         retryAsync (uploadFiles (FileArray fs)) (maxRetries cfg) 300 w =
           Some (uploaded form r (retried form 300 0 fails w), Inr ups) \<and>
         trace (uploaded form r (retried form 300 0 fails w)) = trace w @ evs \<and>
         evs = retry_events form 300 0 fails @ [Uploaded form r] \<and>
         uploads_in evs = Suc (length fails) \<and>
         waits evs = map (\<lambda>j. 300 * j) [1..<Suc (length fails)]))
   \<and> (sw_files args = FileArray fs \<and> well_formed w fs \<and>
      reply_permission_ok (sw_replyPermission args) \<and> quote_ok (sw_quotePostID args) \<and>
      uploadReplies w = fails @ r # rs \<and> list_all failing_reply fails \<and>
      length fails = maxRetries cfg \<and> upload_result r = Inl e \<longrightarrow>
      (\<exists>form evs.
         retryAsync (uploadFiles (FileArray fs)) (maxRetries cfg) 300 w =
           Some (uploaded form r (retried form 300 0 fails w), Inl e) \<and>
         submitPostWithFiles cfg args w =
           Some (uploaded form r (retried form 300 0 fails w),
                 Inl (UploadingFilesFailed (message_of e))) \<and>
         trace (uploaded form r (retried form 300 0 fails w)) = trace w @ evs \<and>
         evs = retry_events form 300 0 fails @ [Uploaded form r] \<and>
         uploads_in evs = Suc (maxRetries cfg) \<and>
         waits evs = map (\<lambda>j. 300 * j) [1..<Suc (maxRetries cfg)]))
   \<and> (sw_files args = FileArray fs \<and> fs \<noteq> [] \<and>
      (list_ex (\<lambda>f. \<not> item_has_form f) fs \<or> list_ex (path_unreadable w) fs) \<and>
      reply_permission_ok (sw_replyPermission args) \<and> quote_ok (sw_quotePostID args) \<longrightarrow>
      (\<exists>e. (e = FileItemInvalid \<or> (\<exists>m. e = ReadFileFailed m)) \<and>
         retryAsync (uploadFiles (FileArray fs)) (maxRetries cfg) 300 w =
           Some (backed_off 300 0 (maxRetries cfg) w, Inl e) \<and>
         submitPostWithFiles cfg args w =
           Some (backed_off 300 0 (maxRetries cfg) w, Inl (UploadingFilesFailed (message_of e))) \<and>
         trace (backed_off 300 0 (maxRetries cfg) w) =
           trace w @ map (\<lambda>j. Waited (300 * j)) [1..<Suc (maxRetries cfg)]))"
proof -
  have 1: "\<exists>evs k. trace w1 = trace w @ evs \<and> k \<le> maxRetries cfg \<and>
         waits evs = map (\<lambda>j. 300 * j) [1..<Suc k] \<and> uploads_in evs \<le> Suc k \<and>
         (isl res \<longrightarrow> k = maxRetries cfg) \<and>
         (\<forall>e. res = Inl e \<longrightarrow> (\<exists>wl. uploadFiles files wl = Some (w1, Inl e)))"
    if a: "retryAsync (uploadFiles files) (maxRetries cfg) 300 w = Some (w1, res)"
  proof -
    from a have "retryLoop (uploadFiles files) (maxRetries cfg) 300 0 w = Some (w1, res)"
      by (simp add: retryAsync_def)
    then have "\<exists>evs k. trace w1 = trace w @ evs \<and>
        waits evs = map (\<lambda>j. 300 * j) [Suc 0..<Suc (0 + k)] \<and>
        (k = 0 \<or> 0 + k \<le> maxRetries cfg) \<and> (isl res \<longrightarrow> maxRetries cfg \<le> 0 + k) \<and>
        uploads_in evs \<le> Suc k \<and> list_all (\<lambda>e. is_upload e \<or> is_wait e) evs \<and>
        (\<forall>e. res = Inl e \<longrightarrow> (\<exists>wl. uploadFiles files wl = Some (w1, Inl e)))"
      by (rule retryLoop_trace[where fn = "uploadFiles files", rotated]) (rule uploadFiles_trace)
    then obtain evs k where
      p: "trace w1 = trace w @ evs" "waits evs = map (\<lambda>j. 300 * j) [Suc 0..<Suc (0 + k)]"
        "k = 0 \<or> 0 + k \<le> maxRetries cfg" "isl res \<longrightarrow> maxRetries cfg \<le> 0 + k"
        "uploads_in evs \<le> Suc k"
        "\<forall>e. res = Inl e \<longrightarrow> (\<exists>wl. uploadFiles files wl = Some (w1, Inl e))"
      by blast
    then show ?thesis
      by (intro exI[of _ evs] exI[of _ k]) auto
  qed
  have 2: "\<exists>w3. retryAsync (uploadFiles files) (maxRetries cfg) 300 w = Some (w3, Inr ups) \<and>
         trace w3 = trace w @
           [Uploaded form r1, Waited 300, Uploaded form r2, Waited 600, Uploaded form r3]"
    if a: "files = FileArray fs \<and> fs \<noteq> [] \<and> buildForm w fs [] = Inr form \<and>
      uploadReplies w = r1 # r2 # r3 # rs \<and> upload_result r1 = Inl e1 \<and>
      upload_result r2 = Inl e2 \<and> upload_result r3 = Inr ups \<and> 2 \<le> maxRetries cfg"
    for form
  proof -
    from a have "retryAsync (uploadFiles files) (maxRetries cfg) 300 w =
     Some (uploaded form r3 (wait (300 * 2) (uploaded form r2 (wait (300 * 1) (uploaded form r1 w)))),
           Inr ups)"
      by (intro retryAsync_three_attempts[where fs = fs and rs = rs and ?e1.0 = e1 and ?e2.0 = e2]) simp_all
    then show ?thesis by (simp add: wait_def uploaded_def)
  qed
  have 3: "submitPostWithFiles cfg args w = Some (w1, Inl (UploadingFilesFailed (message_of e)))"
    if a: "sw_files args = FileArray fs \<and> fs \<noteq> [] \<and> reply_permission_ok (sw_replyPermission args) \<and>
      quote_ok (sw_quotePostID args) \<and>
      retryAsync (uploadFiles (sw_files args)) (maxRetries cfg) 300 w = Some (w1, Inl e)"
    for w1 e
    using a submitPostWithFiles_eq[of args fs cfg w] by auto
  have 4: "\<exists>form evs.
         retryAsync (uploadFiles (FileArray fs)) (maxRetries cfg) 300 w =
           Some (uploaded form r (retried form 300 0 fails w), Inr ups) \<and>
         trace (uploaded form r (retried form 300 0 fails w)) = trace w @ evs \<and>
         evs = retry_events form 300 0 fails @ [Uploaded form r] \<and>
         uploads_in evs = Suc (length fails) \<and>
         waits evs = map (\<lambda>j. 300 * j) [1..<Suc (length fails)]"
    if a: "well_formed w fs \<and> uploadReplies w = fails @ r # rs \<and> list_all failing_reply fails \<and>
      length fails \<le> maxRetries cfg \<and> upload_result r = Inr ups"
  proof -
    from a well_formed_form obtain form where f: "buildForm w fs [] = Inr form" by blast
    from a have ne: "fs \<noteq> []" by (simp add: well_formed_def)
    from a have c: "uploadReplies w = fails @ r # rs" and fl: "list_all failing_reply fails"
      and l: "length fails \<le> maxRetries cfg" and ok: "\<not> isl (upload_result r) \<or> length fails = maxRetries cfg"
      and u: "upload_result r = Inr ups"
      by simp_all
    from retryAsync_upload_run[OF ne f c fl l ok, of 300] u
    have "retryAsync (uploadFiles (FileArray fs)) (maxRetries cfg) 300 w =
           Some (uploaded form r (retried form 300 0 fails w), Inr ups)" by simp
    then show ?thesis
      using retry_run_counts[of form 300 fails r]
      by (intro exI[of _ form] exI[of _ "retry_events form 300 0 fails @ [Uploaded form r]"]) simp
  qed
  have 5: "\<exists>form evs.
         retryAsync (uploadFiles (FileArray fs)) (maxRetries cfg) 300 w =
           Some (uploaded form r (retried form 300 0 fails w), Inl e) \<and>
         submitPostWithFiles cfg args w =
           Some (uploaded form r (retried form 300 0 fails w),
                 Inl (UploadingFilesFailed (message_of e))) \<and>
         trace (uploaded form r (retried form 300 0 fails w)) = trace w @ evs \<and>
         evs = retry_events form 300 0 fails @ [Uploaded form r] \<and>
         uploads_in evs = Suc (maxRetries cfg) \<and>
         waits evs = map (\<lambda>j. 300 * j) [1..<Suc (maxRetries cfg)]"
    if a: "sw_files args = FileArray fs \<and> well_formed w fs \<and>
      reply_permission_ok (sw_replyPermission args) \<and> quote_ok (sw_quotePostID args) \<and>
      uploadReplies w = fails @ r # rs \<and> list_all failing_reply fails \<and>
      length fails = maxRetries cfg \<and> upload_result r = Inl e" for e
  proof -
    from a well_formed_form obtain form where f: "buildForm w fs [] = Inr form" by blast
    from a have ne: "fs \<noteq> []" by (simp add: well_formed_def)
    from a have c: "uploadReplies w = fails @ r # rs" and fl: "list_all failing_reply fails"
      and l: "length fails \<le> maxRetries cfg" and ok: "\<not> isl (upload_result r) \<or> length fails = maxRetries cfg"
      and u: "upload_result r = Inl e" and len: "length fails = maxRetries cfg"
      and sf: "sw_files args = FileArray fs"
      and k: "reply_permission_ok (sw_replyPermission args)" "quote_ok (sw_quotePostID args)"
      by simp_all
    from retryAsync_upload_run[OF ne f c fl l ok, of 300] u
    have r: "retryAsync (uploadFiles (FileArray fs)) (maxRetries cfg) 300 w =
           Some (uploaded form r (retried form 300 0 fails w), Inl e)" by simp
    have s: "submitPostWithFiles cfg args w =
           Some (uploaded form r (retried form 300 0 fails w),
                 Inl (UploadingFilesFailed (message_of e)))"
      using r sf by (simp add: submitPostWithFiles_eq[OF sf ne k])
    from r s show ?thesis
      using retry_run_counts[of form 300 fails r] len
      by (intro exI[of _ form] exI[of _ "retry_events form 300 0 fails @ [Uploaded form r]"]) simp
  qed
  have 6: "\<exists>e. (e = FileItemInvalid \<or> (\<exists>m. e = ReadFileFailed m)) \<and>
         retryAsync (uploadFiles (FileArray fs)) (maxRetries cfg) 300 w =
           Some (backed_off 300 0 (maxRetries cfg) w, Inl e) \<and>
         submitPostWithFiles cfg args w =
           Some (backed_off 300 0 (maxRetries cfg) w, Inl (UploadingFilesFailed (message_of e))) \<and>
         trace (backed_off 300 0 (maxRetries cfg) w) =
           trace w @ map (\<lambda>j. Waited (300 * j)) [1..<Suc (maxRetries cfg)]"
    if a: "sw_files args = FileArray fs \<and> fs \<noteq> [] \<and>
      (list_ex (\<lambda>f. \<not> item_has_form f) fs \<or> list_ex (path_unreadable w) fs) \<and>
      reply_permission_ok (sw_replyPermission args) \<and> quote_ok (sw_quotePostID args)"
  proof -
    from a have ne: "fs \<noteq> []" and sf: "sw_files args = FileArray fs"
      and k: "reply_permission_ok (sw_replyPermission args)" "quote_ok (sw_quotePostID args)"
      by simp_all
    from a buildForm_fails_iff[of w fs "[]"] obtain e where e: "buildForm w fs [] = Inl e"
      by (cases "buildForm w fs []") auto
    have r: "retryAsync (uploadFiles (FileArray fs)) (maxRetries cfg) 300 w =
           Some (backed_off 300 0 (maxRetries cfg) w, Inl e)"
      unfolding retryAsync_def by (rule retryLoop_local_failure[OF ne e]) simp_all
    have s: "submitPostWithFiles cfg args w =
           Some (backed_off 300 0 (maxRetries cfg) w, Inl (UploadingFilesFailed (message_of e)))"
      using r sf by (simp add: submitPostWithFiles_eq[OF sf ne k])
    from buildForm_error[OF e] r s show ?thesis
      by (intro exI[of _ e]) (simp del: upt_Suc)
  qed
  show ?thesis by (intro conjI impI) (erule 1 2 3 4 5 6)+
qed


lemma example_files_post_simps [simp]:
  "sw_files example_files_post = FileArray [buffer_file]"
  "sw_replyPermission example_files_post = JUndefined" "sw_quotePostID example_files_post = JNull"
  "sw_body example_files_post = ''hello''" "sw_timeoutMs example_files_post = 120000"
  "sw_pollOptions example_files_post = \<lparr>po_intervalMs = None, po_timeoutMs = None\<rparr>"
  by (simp_all add: example_files_post_def)

lemma args_ok_simps [simp]: "reply_permission_ok JUndefined" "quote_ok JNull"
  by (simp_all add: reply_permission_ok_def validateReplyPermission_def quote_ok_def nullish_def)

lemma example_failing_replies [simp]:
  "failing_reply (upload_error_reply ms)" "failing_reply (ms, RejectsAbort)"
  by (simp_all add: failing_reply_def)

theorem submitPostWithFiles_upload_retry_witness:
  "(\<exists>w3. retryAsync (uploadFiles (FileArray [buffer_file])) (maxRetries DEFAULTS) 300
        (scripted_world [upload_error_reply 5, (60000, RejectsAbort), upload_ok_reply 5 (Some [''U1''])] [] [])
        = Some (w3, Inr [''U1'']) \<and>
      trace w3 = [Uploaded [png_part] (upload_error_reply 5), Waited 300,
        Uploaded [png_part] (60000, RejectsAbort), Waited 600,
        Uploaded [png_part] (upload_ok_reply 5 (Some [''U1'']))] \<and>
      (\<exists>evs k. trace w3 = evs \<and> k \<le> 3 \<and> waits evs = map (\<lambda>j. 300 * j) [1..<Suc k] \<and>
         uploads_in evs \<le> Suc k))
   \<and> (\<exists>form evs.
        retryAsync (uploadFiles (FileArray [buffer_file])) (maxRetries DEFAULTS) 300
          (scripted_world [upload_error_reply 5, (60000, RejectsAbort), upload_ok_reply 5 (Some [''U1''])] [] [])
        = Some (uploaded form (upload_ok_reply 5 (Some [''U1'']))
                 (retried form 300 0 [upload_error_reply 5, (60000, RejectsAbort)]
                   (scripted_world [upload_error_reply 5, (60000, RejectsAbort),
                      upload_ok_reply 5 (Some [''U1''])] [] [])),
                Inr [''U1'']) \<and>
        uploads_in evs = 3 \<and> waits evs = [300, 600] \<and>
        evs = retry_events form 300 0 [upload_error_reply 5, (60000, RejectsAbort)] @
                [Uploaded form (upload_ok_reply 5 (Some [''U1'']))])
   \<and> (\<exists>form evs.
        submitPostWithFiles (DEFAULTS\<lparr>maxRetries := 1\<rparr>) example_files_post
          (scripted_world [(60000, RejectsAbort), upload_error_reply 5] [] [])
        = Some (uploaded form (upload_error_reply 5)
                 (retried form 300 0 [(60000, RejectsAbort)]
                   (scripted_world [(60000, RejectsAbort), upload_error_reply 5] [] [])),
                Inl (UploadingFilesFailed ''Upload failed: boom'')) \<and>
        uploads_in evs = 2 \<and> waits evs = [300] \<and>
        evs = retry_events form 300 0 [(60000, RejectsAbort)] @ [Uploaded form (upload_error_reply 5)])
   \<and> submitPostWithFiles (DEFAULTS\<lparr>maxRetries := 0\<rparr>) example_files_post
        (scripted_world [upload_error_reply 5] [] [])
      = Some (uploaded [png_part] (upload_error_reply 5) (scripted_world [upload_error_reply 5] [] []),
              Inl (UploadingFilesFailed ''Upload failed: boom''))
   \<and> (\<exists>e. submitPostWithFiles DEFAULTS (example_files_post\<lparr>sw_files := FileArray [empty_item]\<rparr>)
          (scripted_world [upload_ok_reply 5 (Some [''U1''])] [] [])
        = Some (backed_off 300 0 3 (scripted_world [upload_ok_reply 5 (Some [''U1''])] [] []),
                Inl (UploadingFilesFailed (message_of e))) \<and>
        (e = FileItemInvalid \<or> (\<exists>m. e = ReadFileFailed m)) \<and>
        trace (backed_off 300 0 3 (scripted_world [upload_ok_reply 5 (Some [''U1''])] [] []))
          = [Waited 300, Waited 600, Waited 900])"
proof -
  note T = submitPostWithFiles_upload_retry
  let ?Wa = "scripted_world [upload_error_reply 5, (60000, RejectsAbort), upload_ok_reply 5 (Some [''U1''])] [] []"
  let ?fs = "FileArray [buffer_file]"
  have m: "maxRetries DEFAULTS = 3" by (simp add: DEFAULTS_def)
  let ?e = "UploadFailed 500 ''Internal Server Error'' (Some \<lparr>success = False, uploads = None, reason = Some ''boom''\<rparr>)"
  have "\<exists>w3. retryAsync (uploadFiles ?fs) (maxRetries DEFAULTS) 300 ?Wa = Some (w3, Inr [''U1'']) \<and>
      trace w3 = trace ?Wa @ [Uploaded [png_part] (upload_error_reply 5), Waited 300,
        Uploaded [png_part] (60000, RejectsAbort), Waited 600,
        Uploaded [png_part] (upload_ok_reply 5 (Some [''U1'']))]"
    by (rule T[where files = ?fs and cfg = DEFAULTS and w = ?Wa and fs = "[buffer_file]" and form = "[png_part]"
      and ?r1.0 = "upload_error_reply 5" and ?r2.0 = "(60000, RejectsAbort)"
      and ?r3.0 = "upload_ok_reply 5 (Some [''U1''])" and rs = "[]" and ?e1.0 = ?e
      and ?e2.0 = "RequestTimedOut 60000" and ups = "[''U1'']", THEN conjunct2, THEN conjunct1, rule_format])
      (simp add: m del: buildForm.simps)
  then obtain w3 where
    a: "retryAsync (uploadFiles ?fs) (maxRetries DEFAULTS) 300 ?Wa = Some (w3, Inr [''U1''])"
      "trace w3 = [Uploaded [png_part] (upload_error_reply 5), Waited 300,
        Uploaded [png_part] (60000, RejectsAbort), Waited 600,
        Uploaded [png_part] (upload_ok_reply 5 (Some [''U1'']))]"
    by auto
  have "\<exists>evs k. trace w3 = trace ?Wa @ evs \<and> k \<le> maxRetries DEFAULTS \<and>
         waits evs = map (\<lambda>j. 300 * j) [1..<Suc k] \<and> uploads_in evs \<le> Suc k \<and>
         (isl (Inr [''U1''] :: error + string list) \<longrightarrow> k = maxRetries DEFAULTS) \<and>
         (\<forall>e. (Inr [''U1''] :: error + string list) = Inl e \<longrightarrow>
            (\<exists>wl. uploadFiles ?fs wl = Some (w3, Inl e)))"
    by (rule T[where files = ?fs and cfg = DEFAULTS and w = ?Wa and ?w1.0 = w3 and res = "Inr [''U1'']",
          THEN conjunct1, rule_format]) (rule a(1))
  then have b: "\<exists>evs k. trace w3 = evs \<and> k \<le> 3 \<and> waits evs = map (\<lambda>j. 300 * j) [1..<Suc k] \<and>
         uploads_in evs \<le> Suc k"
    by (auto simp: m)
  have "\<exists>form evs.
         retryAsync (uploadFiles ?fs) (maxRetries DEFAULTS) 300 ?Wa =
           Some (uploaded form (upload_ok_reply 5 (Some [''U1'']))
                  (retried form 300 0 [upload_error_reply 5, (60000, RejectsAbort)] ?Wa), Inr [''U1'']) \<and>
         trace (uploaded form (upload_ok_reply 5 (Some [''U1'']))
                  (retried form 300 0 [upload_error_reply 5, (60000, RejectsAbort)] ?Wa)) = trace ?Wa @ evs \<and>
         evs = retry_events form 300 0 [upload_error_reply 5, (60000, RejectsAbort)] @
                 [Uploaded form (upload_ok_reply 5 (Some [''U1'']))] \<and>
         uploads_in evs = Suc (length [upload_error_reply 5, (60000, RejectsAbort)]) \<and>
         waits evs = map (\<lambda>j. 300 * j) [1..<Suc (length [upload_error_reply 5, (60000, RejectsAbort)])]"
    by (rule T[where cfg = DEFAULTS and w = ?Wa and fs = "[buffer_file]"
          and fails = "[upload_error_reply 5, (60000, RejectsAbort)]"
          and r = "upload_ok_reply 5 (Some [''U1''])" and rs = "[]" and ups = "[''U1'']",
          THEN conjunct2, THEN conjunct2, THEN conjunct2, THEN conjunct1, rule_format])
       (simp add: m)
  then have c: "\<exists>form evs.
        retryAsync (uploadFiles ?fs) (maxRetries DEFAULTS) 300 ?Wa
        = Some (uploaded form (upload_ok_reply 5 (Some [''U1'']))
                 (retried form 300 0 [upload_error_reply 5, (60000, RejectsAbort)] ?Wa), Inr [''U1'']) \<and>
        uploads_in evs = 3 \<and> waits evs = [300, 600] \<and>
        evs = retry_events form 300 0 [upload_error_reply 5, (60000, RejectsAbort)] @
                [Uploaded form (upload_ok_reply 5 (Some [''U1'']))]"
    by (elim exE conjE) (intro exI conjI, assumption, simp_all)
  let ?Wb = "scripted_world [(60000, RejectsAbort), upload_error_reply 5] [] []"
  let ?cb = "DEFAULTS\<lparr>maxRetries := 1\<rparr>"
  have msg: "message_of ?e = ''Upload failed: boom''" by (simp add: truthy_str_def)
  have "\<exists>form evs.
         retryAsync (uploadFiles ?fs) (maxRetries ?cb) 300 ?Wb =
           Some (uploaded form (upload_error_reply 5) (retried form 300 0 [(60000, RejectsAbort)] ?Wb), Inl ?e) \<and>
         submitPostWithFiles ?cb example_files_post ?Wb =
           Some (uploaded form (upload_error_reply 5) (retried form 300 0 [(60000, RejectsAbort)] ?Wb),
                 Inl (UploadingFilesFailed (message_of ?e))) \<and>
         trace (uploaded form (upload_error_reply 5) (retried form 300 0 [(60000, RejectsAbort)] ?Wb))
           = trace ?Wb @ evs \<and>
         evs = retry_events form 300 0 [(60000, RejectsAbort)] @ [Uploaded form (upload_error_reply 5)] \<and>
         uploads_in evs = Suc (maxRetries ?cb) \<and>
         waits evs = map (\<lambda>j. 300 * j) [1..<Suc (maxRetries ?cb)]"
    by (rule T[where cfg = ?cb and args = example_files_post and w = ?Wb and fs = "[buffer_file]"
          and fails = "[(60000, RejectsAbort)]" and r = "upload_error_reply 5" and rs = "[]" and e = ?e,
          THEN conjunct2, THEN conjunct2, THEN conjunct2, THEN conjunct2, THEN conjunct1, rule_format])
       simp
  then have d: "\<exists>form evs.
        submitPostWithFiles ?cb example_files_post ?Wb
        = Some (uploaded form (upload_error_reply 5) (retried form 300 0 [(60000, RejectsAbort)] ?Wb),
                Inl (UploadingFilesFailed ''Upload failed: boom'')) \<and>
        uploads_in evs = 2 \<and> waits evs = [300] \<and>
        evs = retry_events form 300 0 [(60000, RejectsAbort)] @ [Uploaded form (upload_error_reply 5)]"
    unfolding msg by (elim exE conjE) (intro exI conjI, assumption, simp_all)
  let ?Wc = "scripted_world [upload_error_reply 5] [] []"
  have u: "uploadFiles ?fs ?Wc = Some (uploaded [png_part] (upload_error_reply 5) ?Wc, Inl ?e)"
    by (simp add: uploadFiles_eq del: buildForm.simps)
  have r: "retryAsync (uploadFiles ?fs) 0 300 ?Wc = Some (uploaded [png_part] (upload_error_reply 5) ?Wc, Inl ?e)"
    unfolding retryAsync_def
    by (rule retryLoop_throw[where fn = "uploadFiles ?fs" and w = ?Wc, OF u]) simp
  have e: "submitPostWithFiles (DEFAULTS\<lparr>maxRetries := 0\<rparr>) example_files_post ?Wc
      = Some (uploaded [png_part] (upload_error_reply 5) ?Wc, Inl (UploadingFilesFailed ''Upload failed: boom''))"
    using T[where args = example_files_post and cfg = "DEFAULTS\<lparr>maxRetries := 0\<rparr>" and w = ?Wc
        and fs = "[buffer_file]" and ?w1.0 = "uploaded [png_part] (upload_error_reply 5) ?Wc" and e = ?e,
        THEN conjunct2, THEN conjunct2, THEN conjunct1] r msg
    by simp
  let ?Wd = "scripted_world [upload_ok_reply 5 (Some [''U1''])] [] []"
  let ?al = "example_files_post\<lparr>sw_files := FileArray [empty_item]\<rparr>"
  have "\<exists>e. (e = FileItemInvalid \<or> (\<exists>m. e = ReadFileFailed m)) \<and>
         retryAsync (uploadFiles (FileArray [empty_item])) (maxRetries DEFAULTS) 300 ?Wd =
           Some (backed_off 300 0 (maxRetries DEFAULTS) ?Wd, Inl e) \<and>
         submitPostWithFiles DEFAULTS ?al ?Wd =
           Some (backed_off 300 0 (maxRetries DEFAULTS) ?Wd, Inl (UploadingFilesFailed (message_of e))) \<and>
         trace (backed_off 300 0 (maxRetries DEFAULTS) ?Wd) =
           trace ?Wd @ map (\<lambda>j. Waited (300 * j)) [1..<Suc (maxRetries DEFAULTS)]"
    by (rule T[where cfg = DEFAULTS and args = ?al and w = ?Wd and fs = "[empty_item]",
          THEN conjunct2, THEN conjunct2, THEN conjunct2, THEN conjunct2, THEN conjunct2, rule_format])
       (simp add: example_files_post_def)
  then have f: "\<exists>e. submitPostWithFiles DEFAULTS ?al ?Wd
        = Some (backed_off 300 0 3 ?Wd, Inl (UploadingFilesFailed (message_of e))) \<and>
        (e = FileItemInvalid \<or> (\<exists>m. e = ReadFileFailed m)) \<and>
        trace (backed_off 300 0 3 ?Wd) = [Waited 300, Waited 600, Waited 900]"
    unfolding m by (elim exE conjE) (intro exI conjI, assumption, assumption, simp add: upt_rec)
  from a b have ab: "\<exists>w3. retryAsync (uploadFiles ?fs) (maxRetries DEFAULTS) 300 ?Wa = Some (w3, Inr [''U1'']) \<and>
      trace w3 = [Uploaded [png_part] (upload_error_reply 5), Waited 300,
        Uploaded [png_part] (60000, RejectsAbort), Waited 600,
        Uploaded [png_part] (upload_ok_reply 5 (Some [''U1'']))] \<and>
      (\<exists>evs k. trace w3 = evs \<and> k \<le> 3 \<and> waits evs = map (\<lambda>j. 300 * j) [1..<Suc k] \<and>
         uploads_in evs \<le> Suc k)"
    by blast
  show ?thesis by (intro conjI) (rule ab c d e f)+
qed

section \<open>submitPostWithFiles\<close>

lemma retryAsync_first_success:
  "fn w = Some (w1, Inr v) \<Longrightarrow> retryAsync fn retries backoffMs w = Some (w1, Inr v)"
  unfolding retryAsync_def by (rule retryLoop_success)

text \<open>
  Claim C10. When the upload endpoint answers a well-formed list with a success status and
  a body with \<open>success\<close> true and no \<open>uploads\<close> field, \<open>uploadFiles\<close> returns the empty list;
  and \<open>submitPostWithFiles\<close> (with arguments that pass validation and a reply of the post
  endpoint) then makes the upload request and the post request and nothing else, so it
  polls nothing, and the post carries an empty \<open>medias\<close> list.
\<close>

theorem uploadFiles_no_uploads_field:
  "(files = FileArray fs \<and> fs \<noteq> [] \<and> buildForm w fs [] = Inr form \<and> uploadReplies w = r # rs \<and>
    snd r = Resolves resp \<and> ok resp \<and> json resp = Inr j \<and> success j \<and> uploads j = None \<longrightarrow>
      uploadFiles files w = Some (uploaded form r w, Inr []))
   \<and> (sw_files args = FileArray fs \<and> fs \<noteq> [] \<and> buildForm w fs [] = Inr form \<and>
      uploadReplies w = r # rs \<and>
      snd r = Resolves resp \<and> ok resp \<and> json resp = Inr j \<and> success j \<and> uploads j = None \<and>
      reply_permission_ok (sw_replyPermission args) \<and> quote_ok (sw_quotePostID args) \<and>
      postReplies w = pr # prs \<longrightarrow>
      (\<exists>w' res p. submitPostWithFiles cfg args w = Some (w', res) \<and>
         trace w' = trace w @ [Uploaded form r, Posted p pr] \<and> p_medias p = []))"
proof -
  have 1: "uploadFiles files w = Some (uploaded form r w, Inr [])"
    if a: "files = FileArray fs \<and> fs \<noteq> [] \<and> buildForm w fs [] = Inr form \<and> uploadReplies w = r # rs \<and>
      snd r = Resolves resp \<and> ok resp \<and> json resp = Inr j \<and> success j \<and> uploads j = None"
    for files
  proof -
    from a have "upload_result r = Inr []" by (simp add: upload_result_def)
    with a show ?thesis using uploadFiles_sends[of files fs w form r rs] by simp
  qed
  have 2: "\<exists>w' res p. submitPostWithFiles cfg args w = Some (w', res) \<and>
         trace w' = trace w @ [Uploaded form r, Posted p pr] \<and> p_medias p = []"
    if a: "sw_files args = FileArray fs \<and> fs \<noteq> [] \<and> buildForm w fs [] = Inr form \<and>
      uploadReplies w = r # rs \<and>
      snd r = Resolves resp \<and> ok resp \<and> json resp = Inr j \<and> success j \<and> uploads j = None \<and>
      reply_permission_ok (sw_replyPermission args) \<and> quote_ok (sw_quotePostID args) \<and>
      postReplies w = pr # prs"
  proof -
    let ?w1 = "uploaded form r w"
    let ?a = "\<lparr>sp_body = sw_body args, sp_medias = [],
                 sp_replyPermission = sw_replyPermission args,
                 sp_quotePostID = sw_quotePostID args, sp_userIP = None\<rparr>"
    from a 1[of "sw_files args"] have u: "uploadFiles (sw_files args) w = Some (?w1, Inr [])" by simp
    have r: "retryAsync (uploadFiles (sw_files args)) (maxRetries cfg) 300 w = Some (?w1, Inr [])"
      by (rule retryAsync_first_success[where fn = "uploadFiles (sw_files args)" and w = w, OF u])
    from a have f: "sw_files args = FileArray fs" "fs \<noteq> []"
      and k: "reply_permission_ok (sw_replyPermission args)" "quote_ok (sw_quotePostID args)"
      by auto
    have e: "submitPostWithFiles cfg args w = submitPost ?a ?w1"
      by (simp add: submitPostWithFiles_eq[OF f k] r)
    have "\<exists>v. (if sp_replyPermission ?a = JUndefined then Inr (JStr ''PUBLIC'')
            else validateReplyPermission (sp_replyPermission ?a)) = Inr v"
      using reply_permission_ok_result[OF k(1)] by (auto split: if_splits)
    then obtain v where v: "(if sp_replyPermission ?a = JUndefined then Inr (JStr ''PUBLIC'')
            else validateReplyPermission (sp_replyPermission ?a)) = Inr v"
      by blast
    have "\<exists>qid. (if nullish (sp_quotePostID ?a) then Inr JNull
                 else validateQuotePostID (sp_quotePostID ?a)) = Inr qid"
      using quote_ok_result[OF k(2)] by (auto split: if_splits)
    then obtain qid where q: "(if nullish (sp_quotePostID ?a) then Inr JNull
                 else validateQuotePostID (sp_quotePostID ?a)) = Inr qid"
      by blast
    have p: "postReplies ?w1 = pr # prs" using a by (simp add: uploaded_def)
    from submitPost_sends[OF v q p] obtain w' res where
      "submitPost ?a ?w1 = Some (w', res)"
      "trace w' = trace ?w1 @ [Posted \<lparr>p_body = sp_body ?a, p_medias = sp_medias ?a, p_replyPermission = v,
                        p_quotePostID = qid,
                        p_userIP = (if truthy_str (sp_userIP ?a) then sp_userIP ?a else None)\<rparr> pr]"
      by blast
    with e show ?thesis
      by (intro exI[of _ w'] exI[of _ res]
          exI[of _ "\<lparr>p_body = sp_body ?a, p_medias = sp_medias ?a, p_replyPermission = v,
                        p_quotePostID = qid,
                        p_userIP = (if truthy_str (sp_userIP ?a) then sp_userIP ?a else None)\<rparr>"])
         (simp add: uploaded_def)
  qed
  from 1 2 show ?thesis by blast
qed

theorem uploadFiles_no_uploads_field_witness:
  "uploadFiles (FileArray [buffer_file]) (scripted_world [upload_ok_reply 5 None] [] [example_reply])
     = Some (uploaded [png_part] (upload_ok_reply 5 None)
               (scripted_world [upload_ok_reply 5 None] [] [example_reply]), Inr [])
   \<and> (\<exists>w' res p. submitPostWithFiles DEFAULTS example_files_post
          (scripted_world [upload_ok_reply 5 None] [] [example_reply]) = Some (w', res) \<and>
        trace w' = [Uploaded [png_part] (upload_ok_reply 5 None), Posted p example_reply] \<and>
        p_medias p = [])"
proof -
  note T = uploadFiles_no_uploads_field
  let ?W = "scripted_world [upload_ok_reply 5 None] [] [example_reply]"
  let ?resp = "\<lparr>resp_status = 200, statusText = ''OK'',
        json = Inr \<lparr>success = True, uploads = None, reason = None\<rparr>\<rparr>"
  let ?j = "\<lparr>success = True, uploads = None, reason = None\<rparr>"
  have 1: "uploadFiles (FileArray [buffer_file]) ?W
     = Some (uploaded [png_part] (upload_ok_reply 5 None) ?W, Inr [])"
    by (rule T[where files = "FileArray [buffer_file]" and fs = "[buffer_file]" and w = ?W
          and form = "[png_part]" and r = "upload_ok_reply 5 None" and rs = "[]" and resp = ?resp
          and j = ?j, THEN conjunct1, rule_format])
       (simp add: upload_ok_reply_def ok_def del: buildForm.simps)
  have 2: "\<exists>w' res p. submitPostWithFiles DEFAULTS example_files_post ?W = Some (w', res) \<and>
        trace w' = trace ?W @ [Uploaded [png_part] (upload_ok_reply 5 None), Posted p example_reply] \<and>
        p_medias p = []"
    by (rule T[where args = example_files_post and fs = "[buffer_file]" and w = ?W
          and form = "[png_part]" and r = "upload_ok_reply 5 None" and rs = "[]" and resp = ?resp
          and j = ?j and pr = example_reply and prs = "[]", THEN conjunct2, rule_format])
       (simp add: upload_ok_reply_def ok_def del: buildForm.simps)
  from 1 2 show ?thesis by simp
qed

lemma pollUploads_append:
  "pollUploads cfg po timeoutMs start (pre @ post) acc w =
     (case pollUploads cfg po timeoutMs start pre acc w of
        None \<Rightarrow> None
      | Some (w1, Inl e) \<Rightarrow> Some (w1, Inl e)
      | Some (w1, Inr acc1) \<Rightarrow> pollUploads cfg po timeoutMs start post acc1 w1)"
  by (induction pre arbitrary: acc w)
     (auto simp: Let_def split: option.splits sum.splits prod.splits)

lemma pollUploads_step:
  "pollUploads cfg po timeoutMs start (uploadId # rest) acc w =
     (if timeoutMs - (now w - start) \<le> 0 then Some (w, Inl ProcessingTimeout)
      else
        (case pollLoop uploadId (poll_interval cfg po)
                (min (timeoutMs - (now w - start)) (poll_timeout cfg po)) (now w) w of
           None \<Rightarrow> None
         | Some (w1, Inl e) \<Rightarrow> Some (w1, Inl e)
         | Some (w1, Inr statusObj) \<Rightarrow>
             if status statusObj \<noteq> Some ''PROCESSED'' then
               Some (w1, Inl (UploadTerminalState uploadId statusObj))
             else if \<not> truthy_str (src statusObj) then
               Some (w1, Inl (UploadNoSrc uploadId statusObj))
             else pollUploads cfg po timeoutMs start rest (acc @ [the (src statusObj)]) w1))"
  by (simp add: Let_def pollUntilProcessed_eq poll_interval_def poll_timeout_def)

text \<open>
  Claim C5. Let the upload of \<open>submitPostWithFiles\<close> return the identifiers
  \<open>pre @ uploadId # post\<close> in the world \<open>w0\<close>, and let the polls of \<open>pre\<close> succeed and end in
  the world \<open>w1\<close>. The remaining time is \<open>timeoutMs - (now w1 - now w0)\<close>, measured from the
  start of the polling phase. When it is zero or negative the call fails with the timeout
  error in the world \<open>w1\<close>, so no status query is made for \<open>uploadId\<close>. Otherwise the call
  continues as the polling loop of \<open>uploadId\<close> does when it is started in \<open>w1\<close> with the timeout
  \<open>min\<close> of the remaining time and the poll option timeout (the configured default when the
  option is absent), followed by the checks of the status, the polls of \<open>post\<close> and the
  submission.
\<close>

theorem submitPostWithFiles_poll_budget:
  "(sw_files args = FileArray fs \<and> fs \<noteq> [] \<and> reply_permission_ok (sw_replyPermission args) \<and>
    quote_ok (sw_quotePostID args) \<and>
    retryAsync (uploadFiles (sw_files args)) (maxRetries cfg) 300 w = Some (w0, Inr (pre @ uploadId # post)) \<and>
    pollUploads cfg (sw_pollOptions args) (sw_timeoutMs args) (now w0) pre [] w0 = Some (w1, Inr srcs) \<and>
    sw_timeoutMs args - (now w1 - now w0) \<le> 0 \<longrightarrow>
      submitPostWithFiles cfg args w = Some (w1, Inl ProcessingTimeout))
   \<and> (sw_files args = FileArray fs \<and> fs \<noteq> [] \<and> reply_permission_ok (sw_replyPermission args) \<and>
    quote_ok (sw_quotePostID args) \<and>
    retryAsync (uploadFiles (sw_files args)) (maxRetries cfg) 300 w = Some (w0, Inr (pre @ uploadId # post)) \<and>
    pollUploads cfg (sw_pollOptions args) (sw_timeoutMs args) (now w0) pre [] w0 = Some (w1, Inr srcs) \<and>
    sw_timeoutMs args - (now w1 - now w0) > 0 \<longrightarrow>
      submitPostWithFiles cfg args w =
        (case pollLoop uploadId (poll_interval cfg (sw_pollOptions args))
                (min (sw_timeoutMs args - (now w1 - now w0)) (poll_timeout cfg (sw_pollOptions args)))
                (now w1) w1 of
           None \<Rightarrow> None
         | Some (w2, Inl e) \<Rightarrow> Some (w2, Inl e)
         | Some (w2, Inr statusObj) \<Rightarrow>
             if status statusObj \<noteq> Some ''PROCESSED'' then
               Some (w2, Inl (UploadTerminalState uploadId statusObj))
             else if \<not> truthy_str (src statusObj) then
               Some (w2, Inl (UploadNoSrc uploadId statusObj))
             else
               (case pollUploads cfg (sw_pollOptions args) (sw_timeoutMs args) (now w0) post
                       (srcs @ [the (src statusObj)]) w2 of
                  None \<Rightarrow> None
                | Some (w3, Inl e) \<Rightarrow> Some (w3, Inl e)
                | Some (w3, Inr finalSrcs) \<Rightarrow>
                    submitPost \<lparr>sp_body = sw_body args, sp_medias = finalSrcs,
                      sp_replyPermission = sw_replyPermission args,
                      sp_quotePostID = sw_quotePostID args, sp_userIP = None\<rparr> w3)))"
proof -
  let ?po = "sw_pollOptions args" and ?T = "sw_timeoutMs args"
  have e: "submitPostWithFiles cfg args w =
      (case pollUploads cfg ?po ?T (now w0) (uploadId # post) srcs w1 of
         None \<Rightarrow> None
       | Some (w2, Inl e) \<Rightarrow> Some (w2, Inl e)
       | Some (w2, Inr finalSrcs) \<Rightarrow>
           submitPost \<lparr>sp_body = sw_body args, sp_medias = finalSrcs,
             sp_replyPermission = sw_replyPermission args,
             sp_quotePostID = sw_quotePostID args, sp_userIP = None\<rparr> w2)"
    if a: "sw_files args = FileArray fs \<and> fs \<noteq> [] \<and> reply_permission_ok (sw_replyPermission args) \<and>
      quote_ok (sw_quotePostID args) \<and>
      retryAsync (uploadFiles (sw_files args)) (maxRetries cfg) 300 w = Some (w0, Inr (pre @ uploadId # post)) \<and>
      pollUploads cfg ?po ?T (now w0) pre [] w0 = Some (w1, Inr srcs)"
  proof -
    from a have f: "sw_files args = FileArray fs" "fs \<noteq> []"
      and k: "reply_permission_ok (sw_replyPermission args)" "quote_ok (sw_quotePostID args)"
      and r: "retryAsync (uploadFiles (sw_files args)) (maxRetries cfg) 300 w = Some (w0, Inr (pre @ uploadId # post))"
      and p: "pollUploads cfg ?po ?T (now w0) pre [] w0 = Some (w1, Inr srcs)"
      by auto
    have "pollUploads cfg ?po ?T (now w0) (pre @ uploadId # post) [] w0
        = pollUploads cfg ?po ?T (now w0) (uploadId # post) srcs w1"
      by (simp only: pollUploads_append p option.case prod.case sum.case)
    then show ?thesis
      by (simp add: submitPostWithFiles_eq[OF f k] r del: pollUploads.simps)
  qed
  have 1: "submitPostWithFiles cfg args w = Some (w1, Inl ProcessingTimeout)"
    if a: "sw_files args = FileArray fs \<and> fs \<noteq> [] \<and> reply_permission_ok (sw_replyPermission args) \<and>
      quote_ok (sw_quotePostID args) \<and>
      retryAsync (uploadFiles (sw_files args)) (maxRetries cfg) 300 w = Some (w0, Inr (pre @ uploadId # post)) \<and>
      pollUploads cfg ?po ?T (now w0) pre [] w0 = Some (w1, Inr srcs) \<and>
      ?T - (now w1 - now w0) \<le> 0"
  proof -
    from a have h: "sw_files args = FileArray fs \<and> fs \<noteq> [] \<and> reply_permission_ok (sw_replyPermission args) \<and>
      quote_ok (sw_quotePostID args) \<and>
      retryAsync (uploadFiles (sw_files args)) (maxRetries cfg) 300 w = Some (w0, Inr (pre @ uploadId # post)) \<and>
      pollUploads cfg ?po ?T (now w0) pre [] w0 = Some (w1, Inr srcs)" by blast
    from a have "pollUploads cfg ?po ?T (now w0) (uploadId # post) srcs w1 = Some (w1, Inl ProcessingTimeout)"
      by (simp only: pollUploads_step) simp
    with e[OF h] show ?thesis by simp
  qed
  have 2: "submitPostWithFiles cfg args w =
        (case pollLoop uploadId (poll_interval cfg ?po)
                (min (?T - (now w1 - now w0)) (poll_timeout cfg ?po)) (now w1) w1 of
           None \<Rightarrow> None
         | Some (w2, Inl e) \<Rightarrow> Some (w2, Inl e)
         | Some (w2, Inr statusObj) \<Rightarrow>
             if status statusObj \<noteq> Some ''PROCESSED'' then
               Some (w2, Inl (UploadTerminalState uploadId statusObj))
             else if \<not> truthy_str (src statusObj) then
               Some (w2, Inl (UploadNoSrc uploadId statusObj))
             else
               (case pollUploads cfg ?po ?T (now w0) post (srcs @ [the (src statusObj)]) w2 of
                  None \<Rightarrow> None
                | Some (w3, Inl e) \<Rightarrow> Some (w3, Inl e)
                | Some (w3, Inr finalSrcs) \<Rightarrow>
                    submitPost \<lparr>sp_body = sw_body args, sp_medias = finalSrcs,
                      sp_replyPermission = sw_replyPermission args,
                      sp_quotePostID = sw_quotePostID args, sp_userIP = None\<rparr> w3))"
    if a: "sw_files args = FileArray fs \<and> fs \<noteq> [] \<and> reply_permission_ok (sw_replyPermission args) \<and>
      quote_ok (sw_quotePostID args) \<and>
      retryAsync (uploadFiles (sw_files args)) (maxRetries cfg) 300 w = Some (w0, Inr (pre @ uploadId # post)) \<and>
      pollUploads cfg ?po ?T (now w0) pre [] w0 = Some (w1, Inr srcs) \<and>
      ?T - (now w1 - now w0) > 0"
  proof -
    from a have h: "sw_files args = FileArray fs \<and> fs \<noteq> [] \<and> reply_permission_ok (sw_replyPermission args) \<and>
      quote_ok (sw_quotePostID args) \<and>
      retryAsync (uploadFiles (sw_files args)) (maxRetries cfg) 300 w = Some (w0, Inr (pre @ uploadId # post)) \<and>
      pollUploads cfg ?po ?T (now w0) pre [] w0 = Some (w1, Inr srcs)" by blast
    from a have n: "\<not> ?T - (now w1 - now w0) \<le> 0" by simp
    show ?thesis
      unfolding e[OF h]
      by (simp only: pollUploads_step n if_False)
         (auto split: option.splits sum.splits prod.splits)
  qed
  from 1 2 show ?thesis by blast
qed

lemma example_upload_phase:
  "retryAsync (uploadFiles (FileArray [buffer_file])) retries backoffMs
     (scripted_world (upload_ok_reply ms ids # us) ss ps)
   = Some (uploaded [png_part] (upload_ok_reply ms ids) (scripted_world (upload_ok_reply ms ids # us) ss ps),
           Inr (case ids of None \<Rightarrow> [] | Some xs \<Rightarrow> xs))"
  by (rule retryAsync_first_success) (simp add: uploadFiles_eq del: buildForm.simps)

theorem submitPostWithFiles_poll_budget_witness:
  "submitPostWithFiles DEFAULTS (example_files_post\<lparr>sw_timeoutMs := 0\<rparr>)
      (scripted_world [upload_ok_reply 5 (Some [''U1''])] [status_reply 5 ''PROCESSED'' (Some ''S1'')] [example_reply])
    = Some (uploaded [png_part] (upload_ok_reply 5 (Some [''U1'']))
              (scripted_world [upload_ok_reply 5 (Some [''U1''])] [status_reply 5 ''PROCESSED'' (Some ''S1'')]
                 [example_reply]),
            Inl ProcessingTimeout)
   \<and> (\<exists>w' res p. submitPostWithFiles DEFAULTS example_files_post
          (scripted_world [upload_ok_reply 5 (Some [''U1''])] [status_reply 5 ''PROCESSED'' (Some ''S1'')]
             [example_reply]) = Some (w', res) \<and>
        trace w' = [Uploaded [png_part] (upload_ok_reply 5 (Some [''U1''])),
                    StatusQueried ''U1'' (status_reply 5 ''PROCESSED'' (Some ''S1'')),
                    Posted p example_reply] \<and>
        p_medias p = [''S1''])"
proof -
  note T = submitPostWithFiles_poll_budget
  let ?u = "upload_ok_reply 5 (Some [''U1''])"
  let ?q = "status_reply 5 ''PROCESSED'' (Some ''S1'')"
  let ?W = "scripted_world [?u] [?q] [example_reply]"
  let ?w0 = "uploaded [png_part] ?u ?W"
  let ?s = "\<lparr>status = Some ''PROCESSED'', src = Some ''S1'', missing = False\<rparr>"
  have r: "retryAsync (uploadFiles (FileArray [buffer_file])) (maxRetries DEFAULTS) 300 ?W
      = Some (?w0, Inr ([] @ ''U1'' # []))"
    using example_upload_phase[of "maxRetries DEFAULTS" 300 5 "Some [''U1'']" "[]" "[?q]" "[example_reply]"]
    by simp
  have 1: "submitPostWithFiles DEFAULTS (example_files_post\<lparr>sw_timeoutMs := 0\<rparr>) ?W
      = Some (?w0, Inl ProcessingTimeout)"
    by (rule T[where args = "example_files_post\<lparr>sw_timeoutMs := 0\<rparr>" and cfg = DEFAULTS and w = ?W
          and fs = "[buffer_file]" and ?w0.0 = ?w0 and ?w1.0 = ?w0 and pre = "[]" and post = "[]"
          and uploadId = "''U1''" and srcs = "[]", THEN conjunct1, rule_format])
       (simp add: r example_files_post_def)
  have p: "pollLoop ''U1'' i t st ?w0 = Some (answered ''U1'' ?q ?w0, Inr ?s)" for i t st
    by (rule pollLoop_terminal[where rs = "[]"]) simp_all
  have 2: "submitPostWithFiles DEFAULTS example_files_post ?W =
      submitPost \<lparr>sp_body = sw_body example_files_post, sp_medias = [''S1''],
                      sp_replyPermission = sw_replyPermission example_files_post,
                      sp_quotePostID = sw_quotePostID example_files_post, sp_userIP = None\<rparr>
        (answered ''U1'' ?q ?w0)"
    using T[where args = example_files_post and cfg = DEFAULTS and w = ?W
          and fs = "[buffer_file]" and ?w0.0 = ?w0 and ?w1.0 = ?w0 and pre = "[]" and post = "[]"
          and uploadId = "''U1''" and srcs = "[]", THEN conjunct2, rule_format] r
    by (simp add: p truthy_str_def)
  from submitPost_sends[of "\<lparr>sp_body = sw_body example_files_post, sp_medias = [''S1''],
                      sp_replyPermission = sw_replyPermission example_files_post,
                      sp_quotePostID = sw_quotePostID example_files_post, sp_userIP = None\<rparr>"
      "JStr ''PUBLIC''" JNull "answered ''U1'' ?q ?w0" example_reply "[]"]
  have "\<exists>w' res p. submitPost \<lparr>sp_body = sw_body example_files_post, sp_medias = [''S1''],
                      sp_replyPermission = sw_replyPermission example_files_post,
                      sp_quotePostID = sw_quotePostID example_files_post, sp_userIP = None\<rparr>
        (answered ''U1'' ?q ?w0) = Some (w', res) \<and>
        trace w' = [Uploaded [png_part] ?u, StatusQueried ''U1'' ?q, Posted p example_reply] \<and>
        p_medias p = [''S1'']"
    by (auto simp: nullish_def)
  with 1 2 show ?thesis by simp
qed

section \<open>The invariant of submitPostWithFiles\<close>

lemma finals_simps [simp]:
  "finals [] = []" "finals (evs @ evs') = finals evs @ finals evs'"
  "finals (e # evs) = final_of e @ finals evs"
  by (simp_all add: finals_def)

lemma posts_simps [simp]:
  "posts [] = []" "posts (evs @ evs') = posts evs @ posts evs'"
  "posts (e # evs) = posted_of e @ posts evs"
  by (simp_all add: posts_def)

lemma pollLoop_finals:
  "pollLoop uploadId interval timeoutMs start w = Some (w', res) \<Longrightarrow>
     \<exists>evs. trace w' = trace w @ evs \<and> posts evs = [] \<and>
       finals evs = (case res of Inl e \<Rightarrow> [] | Inr s \<Rightarrow> [(uploadId, s)])"
proof (induction uploadId interval timeoutMs start w rule: pollLoop.induct)
  case (1 uploadId interval timeoutMs start w)
  show ?case
  proof (cases "statusReplies w")
    case Nil
    with 1 show ?thesis by (simp add: pollLoop_None)
  next
    case (Cons r rs)
    let ?w1 = "answered uploadId r w"
    show ?thesis
    proof (cases "status_result r")
      case (Inl e)
      with Cons 1(2) have "w' = ?w1" "res = Inl e" by (simp_all add: pollLoop_error)
      with Inl show ?thesis by (intro exI[of _ "[StatusQueried uploadId r]"]) simp
    next
      case (Inr s)
      show ?thesis
      proof (cases "terminal s")
        case True
        with Cons Inr 1(2) have "w' = ?w1" "res = Inr s" by (simp_all add: pollLoop_terminal)
        with Inr True show ?thesis by (intro exI[of _ "[StatusQueried uploadId r]"]) simp
      next
        case False
        show ?thesis
        proof (cases "now w + int (fst r) - start > timeoutMs")
          case True
          with Cons Inr False 1(2) have "w' = ?w1" "res = Inl (PollTimeout s)"
            by (simp_all add: pollLoop_timeout)
          with Inr False show ?thesis by (intro exI[of _ "[StatusQueried uploadId r]"]) simp
        next
          case t: False
          have g: "getUploadStatus uploadId w = Some (?w1, Inr s)"
            using Cons Inr by (simp add: getUploadStatus_eq)
          have c: "pollLoop uploadId interval timeoutMs start (wait interval ?w1) = Some (w', res)"
            using pollLoop_continue[OF Cons Inr False t] 1(2) by simp
          have n: "status s \<noteq> Some ''PROCESSED''"
            "\<not> (status s = Some ''DELETED'' \<or> status s = Some ''ATTACHED'')"
            using False by (auto simp: terminal_def)
          have t': "\<not> timeoutMs < now ?w1 - start" using t by simp
          from 1(1)[OF g refl refl n t' c]
          obtain evs where
            p: "trace w' = trace (wait interval ?w1) @ evs" "posts evs = []"
            "finals evs = (case res of Inl e \<Rightarrow> [] | Inr s \<Rightarrow> [(uploadId, s)])"
            by blast
          show ?thesis
            using p Inr False
            by (intro exI[of _ "StatusQueried uploadId r # Waited interval # evs"])
               (simp add: wait_def)
        qed
      qed
    qed
  qed
qed

lemma pollUploads_finals:
  "pollUploads cfg po timeoutMs start ups acc w = Some (w', res) \<Longrightarrow>
     \<exists>evs. trace w' = trace w @ evs \<and> posts evs = [] \<and>
       (case res of
          Inr srcs \<Rightarrow>
            map fst (finals evs) = ups \<and> list_all processed_with_src (map snd (finals evs)) \<and>
            srcs = acc @ map (\<lambda>f. the (src (snd f))) (finals evs)
        | Inl e \<Rightarrow>
            (\<forall>s\<in>set (map snd (finals evs)). \<not> processed_with_src s \<longrightarrow> err_statusObj e = Some s))"
proof (induction ups arbitrary: acc w)
  case Nil
  then show ?case by (intro exI[of _ "[]"]) auto
next
  case (Cons uploadId rest)
  note eq = Cons.prems
  show ?case
  proof (cases "timeoutMs - (now w - start) \<le> 0")
    case True
    with eq have "w' = w" "res = Inl ProcessingTimeout" by (simp_all only: pollUploads_step) simp_all
    then show ?thesis by (intro exI[of _ "[]"]) simp
  next
    case rem: False
    let ?poll = "pollLoop uploadId (poll_interval cfg po)
        (min (timeoutMs - (now w - start)) (poll_timeout cfg po)) (now w) w"
    show ?thesis
    proof (cases ?poll)
      case None
      with eq rem show ?thesis by (simp only: pollUploads_step) simp
    next
      case (Some a)
      then obtain w1 r where pl: "?poll = Some (w1, r)" by (cases a) auto
      from pollLoop_finals[OF pl] obtain evs1 where
        e1: "trace w1 = trace w @ evs1" "posts evs1 = []"
          "finals evs1 = (case r of Inl e \<Rightarrow> [] | Inr s \<Rightarrow> [(uploadId, s)])"
        by blast
      show ?thesis
      proof (cases r)
        case (Inl e)
        with eq rem pl have "w' = w1" "res = Inl e" by (simp_all only: pollUploads_step) simp_all
        with e1 Inl show ?thesis by (intro exI[of _ evs1]) simp
      next
        case (Inr s)
        show ?thesis
        proof (cases "processed_with_src s")
          case False
          with eq rem pl Inr have "w' = w1"
            "res = Inl (UploadTerminalState uploadId s) \<or> res = Inl (UploadNoSrc uploadId s)"
            by (simp_all only: pollUploads_step)
               (auto simp: processed_with_src_def split: if_splits)
          with e1 Inr show ?thesis by (intro exI[of _ evs1]) auto
        next
          case True
          with eq rem pl Inr
          have c: "pollUploads cfg po timeoutMs start rest (acc @ [the (src s)]) w1 = Some (w', res)"
            by (simp only: pollUploads_step) (simp add: processed_with_src_def)
          from Cons.IH[OF c] obtain evs where
            p: "trace w' = trace w1 @ evs" "posts evs = []"
             "(case res of
                Inr srcs \<Rightarrow>
                  map fst (finals evs) = rest \<and> list_all processed_with_src (map snd (finals evs)) \<and>
                  srcs = (acc @ [the (src s)]) @ map (\<lambda>f. the (src (snd f))) (finals evs)
              | Inl e \<Rightarrow>
                  (\<forall>s\<in>set (map snd (finals evs)). \<not> processed_with_src s \<longrightarrow> err_statusObj e = Some s))"
            by blast
          show ?thesis
            using p e1 Inr True
            by (intro exI[of _ "evs1 @ evs"]) (cases res; auto)
        qed
      qed
    qed
  qed
qed

lemma upload_events_finals:
  "list_all (\<lambda>e. is_upload e \<or> is_wait e) evs \<Longrightarrow> finals evs = [] \<and> posts evs = []"
proof (induction evs)
  case Nil
  then show ?case by simp
next
  case (Cons e evs)
  then show ?case by (cases e) auto
qed

lemma retryAsync_upload_finals:
  assumes "retryAsync (uploadFiles files) retries backoffMs w = Some (w1, r)"
  shows "\<exists>evs. trace w1 = trace w @ evs \<and> finals evs = [] \<and> posts evs = []"
proof -
  from assms have "retryLoop (uploadFiles files) retries backoffMs 0 w = Some (w1, r)"
    by (simp add: retryAsync_def)
  then have "\<exists>evs k. trace w1 = trace w @ evs \<and>
        waits evs = map (\<lambda>j. backoffMs * j) [Suc 0..<Suc (0 + k)] \<and>
        (k = 0 \<or> 0 + k \<le> retries) \<and> (isl r \<longrightarrow> retries \<le> 0 + k) \<and>
        uploads_in evs \<le> Suc k \<and> list_all (\<lambda>e. is_upload e \<or> is_wait e) evs \<and>
        (\<forall>e. r = Inl e \<longrightarrow> (\<exists>wl. uploadFiles files wl = Some (w1, Inl e)))"
    by (rule retryLoop_trace[where fn = "uploadFiles files", rotated]) (rule uploadFiles_trace)
  then obtain evs where "trace w1 = trace w @ evs" "list_all (\<lambda>e. is_upload e \<or> is_wait e) evs"
    by blast
  with upload_events_finals[of evs] show ?thesis by blast
qed

lemma submitPost_trace:
  assumes "submitPost a w = Some (w', res)"
  shows "(trace w' = trace w \<and> isl res) \<or>
     (\<exists>p r. trace w' = trace w @ [Posted p r] \<and> p_medias p = sp_medias a)"
  using assms
  by (auto simp: submitPost_def fetch_post_def fetchWithTimeout_def Let_def
      split: sum.splits list.splits fetch_outcome.splits if_splits)

lemma submitPostWithFiles_invalid:
  assumes "sw_files args = FileArray fs" "fs \<noteq> []"
    "\<not> (reply_permission_ok (sw_replyPermission args) \<and> quote_ok (sw_quotePostID args))"
  shows "\<exists>e. submitPostWithFiles cfg args w = Some (w, Inl e)"
proof (cases "reply_permission_ok (sw_replyPermission args)")
  case False
  then obtain e where "validateReplyPermission (sw_replyPermission args) = Inl e"
    by (cases "validateReplyPermission (sw_replyPermission args)") (auto simp: reply_permission_ok_def)
  moreover from this have "sw_replyPermission args \<noteq> JUndefined"
    by (auto simp: validateReplyPermission_def)
  ultimately show ?thesis using assms(1,2) by (simp add: submitPostWithFiles_def)
next
  case True
  with assms(3) have q: "\<not> quote_ok (sw_quotePostID args)" by simp
  then have n: "\<not> nullish (sw_quotePostID args)" by (simp add: quote_ok_def)
  with q have v: "validateQuotePostID (sw_quotePostID args) = Inl QuotePostIDInvalid"
    by (simp add: quote_ok_def validateQuotePostID_def Let_def)
  from True have "\<exists>rp. (if sw_replyPermission args = JUndefined then Inr JUndefined
      else validateReplyPermission (sw_replyPermission args)) = Inr rp"
    by (cases "validateReplyPermission (sw_replyPermission args)") (auto simp: reply_permission_ok_def)
  with n v show ?thesis using assms(1,2) by (auto simp: submitPostWithFiles_def)
qed

text \<open>
  The invariant of every run of \<open>submitPostWithFiles\<close> with a non-empty file list that
  returns, read off the trace.
\<close>

lemma submitPostWithFiles_invariant:
  "sw_files args = FileArray fs \<and> fs \<noteq> [] \<and> submitPostWithFiles cfg args w = Some (w', res) \<longrightarrow>
     (\<exists>evs. trace w' = trace w @ evs \<and>
        (\<forall>s\<in>set (map snd (finals evs)). \<not> processed_with_src s \<longrightarrow>
           posts evs = [] \<and> (\<exists>e. res = Inl e \<and> err_statusObj e = Some s)) \<and>
        (\<forall>p\<in>set (posts evs).
           list_all processed_with_src (map snd (finals evs)) \<and>
           p_medias p = map (\<lambda>f. the (src (snd f))) (finals evs) \<and>
           (\<forall>w0 ups. retryAsync (uploadFiles (sw_files args)) (maxRetries cfg) 300 w = Some (w0, Inr ups) \<longrightarrow>
              map fst (finals evs) = ups)) \<and>
        (\<forall>v. res = Inr v \<longrightarrow> length (posts evs) = 1))"
proof (intro impI)
  assume a: "sw_files args = FileArray fs \<and> fs \<noteq> [] \<and> submitPostWithFiles cfg args w = Some (w', res)"
  then have f: "sw_files args = FileArray fs" "fs \<noteq> []"
    and run: "submitPostWithFiles cfg args w = Some (w', res)" by auto
  let ?goal = "\<lambda>evs. trace w' = trace w @ evs \<and>
        (\<forall>s\<in>set (map snd (finals evs)). \<not> processed_with_src s \<longrightarrow>
           posts evs = [] \<and> (\<exists>e. res = Inl e \<and> err_statusObj e = Some s)) \<and>
        (\<forall>p\<in>set (posts evs).
           list_all processed_with_src (map snd (finals evs)) \<and>
           p_medias p = map (\<lambda>f. the (src (snd f))) (finals evs) \<and>
           (\<forall>w0 ups. retryAsync (uploadFiles (sw_files args)) (maxRetries cfg) 300 w = Some (w0, Inr ups) \<longrightarrow>
              map fst (finals evs) = ups)) \<and>
        (\<forall>v. res = Inr v \<longrightarrow> length (posts evs) = 1)"
  show "\<exists>evs. ?goal evs"
  proof (cases "reply_permission_ok (sw_replyPermission args) \<and> quote_ok (sw_quotePostID args)")
    case False
    from submitPostWithFiles_invalid[OF f False, of cfg w] run
    have "w' = w" "isl res" by auto
    then have "?goal []" by auto
    then show ?thesis ..
  next
    case True
    then have k: "reply_permission_ok (sw_replyPermission args)" "quote_ok (sw_quotePostID args)"
      by simp_all
    note eq = submitPostWithFiles_eq[OF f k, of cfg w]
    let ?up = "retryAsync (uploadFiles (sw_files args)) (maxRetries cfg) 300 w"
    show ?thesis
    proof (cases ?up)
      case None
      with eq run show ?thesis by simp
    next
      case (Some a1)
      then obtain w1 r1 where up: "?up = Some (w1, r1)" by (cases a1) auto
      from retryAsync_upload_finals[OF up] obtain evs1 where
        e1: "trace w1 = trace w @ evs1" "finals evs1 = []" "posts evs1 = []" by blast
      show ?thesis
      proof (cases r1)
        case (Inl err)
        with eq run up have "w' = w1" "isl res" by auto
        with e1 have "?goal evs1" by auto
        then show ?thesis ..
      next
        case (Inr ups)
        let ?pl = "pollUploads cfg (sw_pollOptions args) (sw_timeoutMs args) (now w1) ups [] w1"
        show ?thesis
        proof (cases ?pl)
          case None
          with eq run up Inr show ?thesis by simp
        next
          case (Some a2)
          then obtain w2 r2 where pl: "?pl = Some (w2, r2)" by (cases a2) auto
          from pollUploads_finals[OF pl] obtain evs2 where
            e2: "trace w2 = trace w1 @ evs2" "posts evs2 = []"
              "(case r2 of
                  Inr srcs \<Rightarrow>
                    map fst (finals evs2) = ups \<and> list_all processed_with_src (map snd (finals evs2)) \<and>
                    srcs = [] @ map (\<lambda>f. the (src (snd f))) (finals evs2)
                | Inl e \<Rightarrow>
                    (\<forall>s\<in>set (map snd (finals evs2)). \<not> processed_with_src s \<longrightarrow> err_statusObj e = Some s))"
            by blast
          show ?thesis
          proof (cases r2)
            case (Inl e)
            with eq run up Inr pl have "w' = w2" "res = Inl e" by auto
            with e1 e2 Inl have "?goal (evs1 @ evs2)" by auto
            then show ?thesis ..
          next
            case srcs: (Inr srcs)
            let ?a = "\<lparr>sp_body = sw_body args, sp_medias = srcs,
                 sp_replyPermission = sw_replyPermission args,
                 sp_quotePostID = sw_quotePostID args, sp_userIP = None\<rparr>"
            from eq run up Inr pl srcs have sp: "submitPost ?a w2 = Some (w', res)" by simp
            from e2 srcs have g: "map fst (finals evs2) = ups"
              "list_all processed_with_src (map snd (finals evs2))"
              "srcs = map (\<lambda>f. the (src (snd f))) (finals evs2)" by simp_all
            from g(2) have ok: "\<forall>s\<in>set (map snd (finals evs2)). processed_with_src s"
              by (simp add: list_all_iff)
            from submitPost_trace[OF sp] show ?thesis
            proof
              assume "trace w' = trace w2 \<and> isl res"
              with e1 e2 ok have "?goal (evs1 @ evs2)" by auto
              then show ?thesis ..
            next
              assume "\<exists>p r. trace w' = trace w2 @ [Posted p r] \<and> p_medias p = sp_medias ?a"
              then obtain p r where
                t: "trace w' = trace w2 @ [Posted p r]" and m: "p_medias p = srcs" by auto
              have "?goal (evs1 @ evs2 @ [Posted p r])"
                using e1 e2(1,2) ok g t m up Inr by auto
              then show ?thesis ..
            qed
          qed
        qed
      qed
    qed
  qed
qed

lemma polled_all_simps [simp]:
  "postReplies (polled_all i ids scs w) = postReplies w"
  "uploadReplies (polled_all i ids scs w) = uploadReplies w"
  "trace (polled_all i ids scs w) = trace w @ polls_events i ids scs"
  by (induction i ids scs w rule: polled_all.induct) simp_all

lemma script_replies_app [simp]: "script_replies sc @ xs = fst sc @ snd sc # xs"
  by (simp add: script_replies_def)

lemma polled_all_rest:
  "length scs = length ids \<Longrightarrow> statusReplies w = concat (map script_replies scs) @ rest \<Longrightarrow>
     statusReplies (polled_all i ids scs w) = rest \<and>
     now (polled_all i ids scs w) = now w + sum_list (map (script_time i) scs)"
proof (induction i ids scs w rule: polled_all.induct)
  case (1 interval uploadId ids sc scs w)
  let ?w1 = "answered uploadId (snd sc) (polled uploadId interval (fst sc) w)"
  have "statusReplies ?w1 = concat (map script_replies scs) @ rest"
    using "1.prems"(2) by simp
  with "1.IH"[of] "1.prems"(1) show ?case
    by (simp add: script_time_def algebra_simps)
qed simp_all

lemma poll_events_posts [simp]: "posts (poll_events uploadId i rs) = []"
  by (induction rs) simp_all

lemma polls_events_posts [simp]: "posts (polls_events i ids scs) = []"
  by (induction i ids scs rule: polls_events.induct) simp_all

lemma polled_all_snoc:
  "length scs = length ids \<Longrightarrow>
     polled_all i (ids @ [uploadId]) (scs @ [sc]) w =
       answered uploadId (snd sc) (polled uploadId i (fst sc) (polled_all i ids scs w))"
proof (induction i ids scs w rule: polled_all.induct)
  case (1 interval uploadId ids sc scs w)
  then show ?case by simp
qed simp_all

lemma polls_in_budget_append:
  "polls_in_budget T pt i e (scs @ scs') =
     (polls_in_budget T pt i e scs \<and>
      polls_in_budget T pt i (e + sum_list (map (script_time i) scs)) scs')"
  by (induction scs arbitrary: e) (auto simp: algebra_simps)

lemma pollUploads_scripts:
  "length scs = length ids \<Longrightarrow> statusReplies w = concat (map script_replies scs) @ rest \<Longrightarrow>
   polls_in_budget T (poll_timeout cfg po) (poll_interval cfg po) (now w - start) scs \<Longrightarrow>
   list_all2 script_ends scs ss \<Longrightarrow> list_all processed_with_src ss \<Longrightarrow>
   pollUploads cfg po T start (ids @ later) acc w =
     pollUploads cfg po T start later (acc @ map (\<lambda>s. the (src s)) ss)
       (polled_all (poll_interval cfg po) ids scs w)"
proof (induction scs arbitrary: ids ss acc w)
  case Nil
  then show ?case by simp
next
  case (Cons sc scs)
  from Cons.prems(1) obtain uploadId ids' where ids: "ids = uploadId # ids'"
    by (cases ids) auto
  from Cons.prems(4) obtain s ss' where ss: "ss = s # ss'" and e: "script_ends sc s"
    and r4: "list_all2 script_ends scs ss'"
    by (cases ss) auto
  from Cons.prems(5) ss have ps: "processed_with_src s" and r5: "list_all processed_with_src ss'"
    by simp_all
  let ?i = "poll_interval cfg po" and ?pt = "poll_timeout cfg po"
  let ?rem = "T - (now w - start)"
  from Cons.prems(3) have rem: "\<not> ?rem \<le> 0" and nt: "list_all non_terminal_reply (fst sc)"
    and wb: "within_budget (min ?rem ?pt) ?i (now w - now w) (fst sc)"
    and r3: "polls_in_budget T ?pt ?i (now w - start + script_time ?i sc) scs"
    by simp_all
  have c: "statusReplies w = fst sc @ snd sc # (concat (map script_replies scs) @ rest)"
    using Cons.prems(2) by simp
  from e have sr: "status_result (snd sc) = Inr s" and tm: "terminal s"
    by (simp_all add: script_ends_def)
  let ?w1 = "answered uploadId (snd sc) (polled uploadId ?i (fst sc) w)"
  have pl: "pollLoop uploadId ?i (min ?rem ?pt) (now w) w = Some (?w1, Inr s)"
    by (rule pollLoop_script_terminal[OF c nt wb sr tm])
  have step: "pollUploads cfg po T start (uploadId # (ids' @ later)) acc w =
      pollUploads cfg po T start (ids' @ later) (acc @ [the (src s)]) ?w1"
    using rem pl ps by (simp only: pollUploads_step) (simp add: processed_with_src_def)
  have r1: "length scs = length ids'" using Cons.prems(1) ids by simp
  have r2: "statusReplies ?w1 = concat (map script_replies scs) @ rest" using c by simp
  have r3': "polls_in_budget T ?pt ?i (now ?w1 - start) scs"
    using r3 by (simp add: script_time_def algebra_simps)
  from Cons.IH[OF r1 r2 r3' r4 r5, where acc = "acc @ [the (src s)]"] step ids ss
  show ?case by simp
qed


lemma submitPostWithFiles_unprocessed:
  assumes f: "sw_files args = FileArray fs" "fs \<noteq> []"
    and k: "reply_permission_ok (sw_replyPermission args)" "quote_ok (sw_quotePostID args)"
    and up: "retryAsync (uploadFiles (sw_files args)) (maxRetries cfg) 300 w =
        Some (w1, Inr (ids @ uploadId # later))"
    and len: "length scs = length ids"
    and rep: "statusReplies w1 = concat (map script_replies (scs @ [sc])) @ rest"
    and bud: "polls_in_budget (sw_timeoutMs args) (poll_timeout cfg (sw_pollOptions args))
        (poll_interval cfg (sw_pollOptions args)) 0 (scs @ [sc])"
    and ends: "list_all2 script_ends scs ss" "list_all processed_with_src ss"
    and last: "script_ends sc s" "\<not> processed_with_src s"
  shows "submitPostWithFiles cfg args w =
      Some (polled_all (poll_interval cfg (sw_pollOptions args)) (ids @ [uploadId]) (scs @ [sc]) w1,
            Inl (if status s = Some ''PROCESSED'' then UploadNoSrc uploadId s
                 else UploadTerminalState uploadId s))"
proof -
  let ?po = "sw_pollOptions args" and ?T = "sw_timeoutMs args"
  let ?i = "poll_interval cfg ?po" and ?pt = "poll_timeout cfg ?po"
  let ?w2 = "polled_all ?i ids scs w1"
  let ?w3 = "answered uploadId (snd sc) (polled uploadId ?i (fst sc) ?w2)"
  have rep1: "statusReplies w1 = concat (map script_replies scs) @ (fst sc @ snd sc # rest)"
    using rep by simp
  from bud have b1: "polls_in_budget ?T ?pt ?i (now w1 - now w1) scs"
    and b2: "polls_in_budget ?T ?pt ?i (sum_list (map (script_time ?i) scs)) [sc]"
    by (simp_all add: polls_in_budget_append)
  have "pollUploads cfg ?po ?T (now w1) (ids @ uploadId # later) [] w1 =
      pollUploads cfg ?po ?T (now w1) (uploadId # later) ([] @ map (\<lambda>s. the (src s)) ss) ?w2"
    by (rule pollUploads_scripts[OF len rep1 b1 ends])
  then have p1: "pollUploads cfg ?po ?T (now w1) (ids @ uploadId # later) [] w1 =
      pollUploads cfg ?po ?T (now w1) (uploadId # later) (map (\<lambda>s. the (src s)) ss) ?w2"
    by simp
  from polled_all_rest[OF len rep1, of ?i]
  have c2: "statusReplies ?w2 = fst sc @ snd sc # rest"
    and n2: "now ?w2 = now w1 + sum_list (map (script_time ?i) scs)" by simp_all
  let ?rem = "?T - (now ?w2 - now w1)"
  from b2 n2 have rem: "\<not> ?rem \<le> 0" and nt: "list_all non_terminal_reply (fst sc)"
    and wb: "within_budget (min ?rem ?pt) ?i (now ?w2 - now ?w2) (fst sc)"
    by simp_all
  from last have sr: "status_result (snd sc) = Inr s" and tm: "terminal s"
    by (simp_all add: script_ends_def)
  have pl: "pollLoop uploadId ?i (min ?rem ?pt) (now ?w2) ?w2 = Some (?w3, Inr s)"
    by (rule pollLoop_script_terminal[OF c2 nt wb sr tm])
  have p2: "pollUploads cfg ?po ?T (now w1) (uploadId # later) (map (\<lambda>s. the (src s)) ss) ?w2 =
      Some (?w3, Inl (if status s = Some ''PROCESSED'' then UploadNoSrc uploadId s
                 else UploadTerminalState uploadId s))"
    using rem pl last(2) by (simp only: pollUploads_step) (simp add: processed_with_src_def)
  have "submitPostWithFiles cfg args w =
      Some (?w3, Inl (if status s = Some ''PROCESSED'' then UploadNoSrc uploadId s
                 else UploadTerminalState uploadId s))"
    by (simp add: submitPostWithFiles_eq[OF f k] up p1 p2 del: pollUploads.simps)
  then show ?thesis by (simp add: polled_all_snoc[OF len])
qed

lemma submitPostWithFiles_processed:
  assumes f: "sw_files args = FileArray fs" "fs \<noteq> []"
    and k: "reply_permission_ok (sw_replyPermission args)" "quote_ok (sw_quotePostID args)"
    and up: "retryAsync (uploadFiles (sw_files args)) (maxRetries cfg) 300 w = Some (w1, Inr ids)"
    and len: "length scs = length ids"
    and rep: "statusReplies w1 = concat (map script_replies scs) @ rest"
    and bud: "polls_in_budget (sw_timeoutMs args) (poll_timeout cfg (sw_pollOptions args))
        (poll_interval cfg (sw_pollOptions args)) 0 scs"
    and ends: "list_all2 script_ends scs ss" "list_all processed_with_src ss"
    and post: "postReplies w1 = p # ps"
  shows "\<exists>w' res pl. submitPostWithFiles cfg args w = Some (w', res) \<and>
      trace w' = trace w1 @ polls_events (poll_interval cfg (sw_pollOptions args)) ids scs @ [Posted pl p] \<and>
      p_medias pl = map (\<lambda>s. the (src s)) ss"
proof -
  let ?po = "sw_pollOptions args" and ?T = "sw_timeoutMs args"
  let ?i = "poll_interval cfg ?po" and ?pt = "poll_timeout cfg ?po"
  let ?w2 = "polled_all ?i ids scs w1"
  let ?a = "\<lparr>sp_body = sw_body args, sp_medias = map (\<lambda>s. the (src s)) ss,
     sp_replyPermission = sw_replyPermission args, sp_quotePostID = sw_quotePostID args,
     sp_userIP = None\<rparr>"
  from bud have b1: "polls_in_budget ?T ?pt ?i (now w1 - now w1) scs" by simp
  have "pollUploads cfg ?po ?T (now w1) (ids @ []) [] w1 =
      pollUploads cfg ?po ?T (now w1) [] ([] @ map (\<lambda>s. the (src s)) ss) ?w2"
    by (rule pollUploads_scripts[OF len rep b1 ends])
  then have p1: "pollUploads cfg ?po ?T (now w1) ids [] w1 = Some (?w2, Inr (map (\<lambda>s. the (src s)) ss))"
    by simp
  have e: "submitPostWithFiles cfg args w = submitPost ?a ?w2"
    by (simp add: submitPostWithFiles_eq[OF f k] up p1 del: pollUploads.simps)
  have "\<exists>v. (if sp_replyPermission ?a = JUndefined then Inr (JStr ''PUBLIC'')
         else validateReplyPermission (sp_replyPermission ?a)) = Inr v"
    using reply_permission_ok_result[OF k(1)] by (auto split: if_splits)
  then obtain v where
    v: "(if sp_replyPermission ?a = JUndefined then Inr (JStr ''PUBLIC'')
         else validateReplyPermission (sp_replyPermission ?a)) = Inr v" by blast
  have "\<exists>qid. (if nullish (sp_quotePostID ?a) then Inr JNull
         else validateQuotePostID (sp_quotePostID ?a)) = Inr qid"
    using quote_ok_result[OF k(2)] by (auto split: if_splits)
  then obtain qid where
    q: "(if nullish (sp_quotePostID ?a) then Inr JNull
         else validateQuotePostID (sp_quotePostID ?a)) = Inr qid" by blast
  have pr: "postReplies ?w2 = p # ps" using post by simp
  from submitPost_sends[OF v q pr] obtain w' res where
    "submitPost ?a ?w2 = Some (w', res)"
    "trace w' = trace ?w2 @ [Posted \<lparr>p_body = sp_body ?a, p_medias = sp_medias ?a, p_replyPermission = v,
        p_quotePostID = qid,
        p_userIP = (if truthy_str (sp_userIP ?a) then sp_userIP ?a else None)\<rparr> p]"
    by blast
  with e show ?thesis
    by (intro exI[of _ w'] exI[of _ res]
        exI[of _ "\<lparr>p_body = sp_body ?a, p_medias = sp_medias ?a, p_replyPermission = v,
          p_quotePostID = qid,
          p_userIP = (if truthy_str (sp_userIP ?a) then sp_userIP ?a else None)\<rparr>"]) simp
qed

lemma upload_phase:
  assumes "well_formed w fs" "uploadReplies w = fails @ u # us" "list_all failing_reply fails"
    "length fails \<le> retries" "upload_result u = Inr ups"
  shows "\<exists>form. buildForm w fs [] = Inr form \<and>
      retryAsync (uploadFiles (FileArray fs)) retries b w =
        Some (uploaded form u (retried form b 0 fails w), Inr ups)"
proof -
  from assms(1) well_formed_form obtain form where f: "buildForm w fs [] = Inr form" by blast
  from assms(1) have ne: "fs \<noteq> []" by (simp add: well_formed_def)
  from assms(5) have ok: "\<not> isl (upload_result u) \<or> length fails = retries" by simp
  from retryAsync_upload_run[OF ne f assms(2,3,4) ok, of b] assms(5) f show ?thesis
    by (intro exI[of _ form]) simp
qed

text \<open>
  Claim C1. Take a run of \<open>submitPostWithFiles\<close> with a well-formed file list and arguments
  that pass validation, in which the upload succeeds (after at most \<open>maxRetries\<close> failing
  replies) and returns upload identifiers, and in which the status endpoint answers the
  polls one after another, each poll with non-terminal statuses that arrive within its
  timeout and then a terminal status. When the polls of the first identifiers end
  \<open>PROCESSED\<close> with a \<open>src\<close> and the poll of the next identifier ends with a status \<open>s\<close> that
  is not \<open>PROCESSED\<close>, or is \<open>PROCESSED\<close> without a truthy \<open>src\<close>, the call fails with the error
  that carries \<open>s\<close> (the terminal-state error, or the missing-source error), the later
  identifiers are not polled and no post request is made. When the polls of all identifiers
  end \<open>PROCESSED\<close> with a \<open>src\<close>, the post request is made and its \<open>medias\<close> are exactly the
  \<open>src\<close> values of the polls in upload order. And in every run with a non-empty file list
  that returns: if a poll of the run ended with a status that is not \<open>PROCESSED\<close> with a
  truthy \<open>src\<close>, then no post request was made and the call fails with the error that
  carries that status object; every post request that was made came after polls that all
  ended \<open>PROCESSED\<close> with a \<open>src\<close>, one poll for each upload identifier in upload order, and
  its \<open>medias\<close> are exactly the \<open>src\<close> values of those polls in that order; and a run that
  succeeds made exactly one post request.
\<close>

theorem submitPostWithFiles_fails_closed:
  "(sw_files args = FileArray fs \<and> well_formed w fs \<and>
    reply_permission_ok (sw_replyPermission args) \<and> quote_ok (sw_quotePostID args) \<and>
    uploadReplies w = fails @ u # us \<and> list_all failing_reply fails \<and>
    length fails \<le> maxRetries cfg \<and> upload_result u = Inr (ids @ uploadId # later) \<and>
    length scs = length ids \<and>
    statusReplies w = concat (map script_replies (scs @ [sc])) @ rest \<and>
    polls_in_budget (sw_timeoutMs args) (poll_timeout cfg (sw_pollOptions args))
      (poll_interval cfg (sw_pollOptions args)) 0 (scs @ [sc]) \<and>
    list_all2 script_ends scs ss \<and> list_all processed_with_src ss \<and>
    script_ends sc s \<and> \<not> processed_with_src s \<longrightarrow>
      (\<exists>form w' e. buildForm w fs [] = Inr form \<and>
         submitPostWithFiles cfg args w = Some (w', Inl e) \<and>
         e = (if status s = Some ''PROCESSED'' then UploadNoSrc uploadId s
              else UploadTerminalState uploadId s) \<and>
         err_statusObj e = Some s \<and>
         trace w' = trace w @ retry_events form 300 0 fails @ [Uploaded form u] @
           polls_events (poll_interval cfg (sw_pollOptions args)) (ids @ [uploadId]) (scs @ [sc]) \<and>
         posts (trace w') = posts (trace w)))
   \<and> (sw_files args = FileArray fs \<and> well_formed w fs \<and>
    reply_permission_ok (sw_replyPermission args) \<and> quote_ok (sw_quotePostID args) \<and>
    uploadReplies w = fails @ u # us \<and> list_all failing_reply fails \<and>
    length fails \<le> maxRetries cfg \<and> upload_result u = Inr ids \<and>
    length scs = length ids \<and>
    statusReplies w = concat (map script_replies scs) @ rest \<and>
    polls_in_budget (sw_timeoutMs args) (poll_timeout cfg (sw_pollOptions args))
      (poll_interval cfg (sw_pollOptions args)) 0 scs \<and>
    list_all2 script_ends scs ss \<and> list_all processed_with_src ss \<and>
    postReplies w = p # ps \<longrightarrow>
      (\<exists>form w' res pl. buildForm w fs [] = Inr form \<and>
         submitPostWithFiles cfg args w = Some (w', res) \<and>
         trace w' = trace w @ retry_events form 300 0 fails @ [Uploaded form u] @
           polls_events (poll_interval cfg (sw_pollOptions args)) ids scs @ [Posted pl p] \<and>
         p_medias pl = map (\<lambda>s. the (src s)) ss))
   \<and> (sw_files args = FileArray fs \<and> fs \<noteq> [] \<and> submitPostWithFiles cfg args w = Some (w', res) \<longrightarrow>
     (\<exists>evs. trace w' = trace w @ evs \<and>
        (\<forall>s\<in>set (map snd (finals evs)). \<not> processed_with_src s \<longrightarrow>
           posts evs = [] \<and> (\<exists>e. res = Inl e \<and> err_statusObj e = Some s)) \<and>
        (\<forall>p\<in>set (posts evs).
           list_all processed_with_src (map snd (finals evs)) \<and>
           p_medias p = map (\<lambda>f. the (src (snd f))) (finals evs) \<and>
           (\<forall>w0 ups. retryAsync (uploadFiles (sw_files args)) (maxRetries cfg) 300 w = Some (w0, Inr ups) \<longrightarrow>
              map fst (finals evs) = ups)) \<and>
        (\<forall>v. res = Inr v \<longrightarrow> length (posts evs) = 1)))"
proof -
  let ?i = "poll_interval cfg (sw_pollOptions args)"
  have 1: "\<exists>form w' e. buildForm w fs [] = Inr form \<and>
         submitPostWithFiles cfg args w = Some (w', Inl e) \<and>
         e = (if status s = Some ''PROCESSED'' then UploadNoSrc uploadId s
              else UploadTerminalState uploadId s) \<and>
         err_statusObj e = Some s \<and>
         trace w' = trace w @ retry_events form 300 0 fails @ [Uploaded form u] @
           polls_events ?i (ids @ [uploadId]) (scs @ [sc]) \<and>
         posts (trace w') = posts (trace w)"
    if a: "sw_files args = FileArray fs \<and> well_formed w fs \<and>
      reply_permission_ok (sw_replyPermission args) \<and> quote_ok (sw_quotePostID args) \<and>
      uploadReplies w = fails @ u # us \<and> list_all failing_reply fails \<and>
      length fails \<le> maxRetries cfg \<and> upload_result u = Inr (ids @ uploadId # later) \<and>
      length scs = length ids \<and>
      statusReplies w = concat (map script_replies (scs @ [sc])) @ rest \<and>
      polls_in_budget (sw_timeoutMs args) (poll_timeout cfg (sw_pollOptions args)) ?i 0 (scs @ [sc]) \<and>
      list_all2 script_ends scs ss \<and> list_all processed_with_src ss \<and>
      script_ends sc s \<and> \<not> processed_with_src s"
  proof -
    from a have f: "sw_files args = FileArray fs" and wf: "well_formed w fs"
      and k: "reply_permission_ok (sw_replyPermission args)" "quote_ok (sw_quotePostID args)"
      and ur: "uploadReplies w = fails @ u # us" "list_all failing_reply fails"
        "length fails \<le> maxRetries cfg" "upload_result u = Inr (ids @ uploadId # later)"
      and len: "length scs = length ids"
      and rep: "statusReplies w = concat (map script_replies (scs @ [sc])) @ rest"
      and bud: "polls_in_budget (sw_timeoutMs args) (poll_timeout cfg (sw_pollOptions args)) ?i 0 (scs @ [sc])"
      and ends: "list_all2 script_ends scs ss" "list_all processed_with_src ss"
      and last: "script_ends sc s" "\<not> processed_with_src s"
      by blast+
    from wf have ne: "fs \<noteq> []" by (simp add: well_formed_def)
    from upload_phase[OF wf ur, of 300] obtain form where bf: "buildForm w fs [] = Inr form" and
      "retryAsync (uploadFiles (FileArray fs)) (maxRetries cfg) 300 w =
        Some (uploaded form u (retried form 300 0 fails w), Inr (ids @ uploadId # later))" by blast
    with f have up: "retryAsync (uploadFiles (sw_files args)) (maxRetries cfg) 300 w =
        Some (uploaded form u (retried form 300 0 fails w), Inr (ids @ uploadId # later))" by simp
    let ?w1 = "uploaded form u (retried form 300 0 fails w)"
    have rep1: "statusReplies ?w1 = concat (map script_replies (scs @ [sc])) @ rest"
      using rep by simp
    let ?w' = "polled_all ?i (ids @ [uploadId]) (scs @ [sc]) ?w1"
    let ?e = "if status s = Some ''PROCESSED'' then UploadNoSrc uploadId s
              else UploadTerminalState uploadId s"
    have r: "submitPostWithFiles cfg args w = Some (?w', Inl ?e)"
      by (rule submitPostWithFiles_unprocessed[OF f ne k up len rep1 bud ends last])
    have t: "trace ?w' = trace w @ retry_events form 300 0 fails @ [Uploaded form u] @
        polls_events ?i (ids @ [uploadId]) (scs @ [sc])" by simp
    from retryAsync_upload_finals[OF up] have "posts (trace ?w1) = posts (trace w)" by auto
    then have p: "posts (trace ?w') = posts (trace w)" by simp
    have e: "err_statusObj ?e = Some s" by simp
    from bf r t p e show ?thesis
      by (intro exI[of _ form] exI[of _ ?w'] exI[of _ ?e]) (intro conjI, simp_all only:)
  qed
  have 2: "\<exists>form w' res pl. buildForm w fs [] = Inr form \<and>
         submitPostWithFiles cfg args w = Some (w', res) \<and>
         trace w' = trace w @ retry_events form 300 0 fails @ [Uploaded form u] @
           polls_events ?i ids scs @ [Posted pl p] \<and>
         p_medias pl = map (\<lambda>s. the (src s)) ss"
    if a: "sw_files args = FileArray fs \<and> well_formed w fs \<and>
      reply_permission_ok (sw_replyPermission args) \<and> quote_ok (sw_quotePostID args) \<and>
      uploadReplies w = fails @ u # us \<and> list_all failing_reply fails \<and>
      length fails \<le> maxRetries cfg \<and> upload_result u = Inr ids \<and>
      length scs = length ids \<and>
      statusReplies w = concat (map script_replies scs) @ rest \<and>
      polls_in_budget (sw_timeoutMs args) (poll_timeout cfg (sw_pollOptions args)) ?i 0 scs \<and>
      list_all2 script_ends scs ss \<and> list_all processed_with_src ss \<and>
      postReplies w = p # ps"
  proof -
    from a have f: "sw_files args = FileArray fs" and wf: "well_formed w fs"
      and k: "reply_permission_ok (sw_replyPermission args)" "quote_ok (sw_quotePostID args)"
      and ur: "uploadReplies w = fails @ u # us" "list_all failing_reply fails"
        "length fails \<le> maxRetries cfg" "upload_result u = Inr ids"
      and len: "length scs = length ids"
      and rep: "statusReplies w = concat (map script_replies scs) @ rest"
      and bud: "polls_in_budget (sw_timeoutMs args) (poll_timeout cfg (sw_pollOptions args)) ?i 0 scs"
      and ends: "list_all2 script_ends scs ss" "list_all processed_with_src ss"
      and post: "postReplies w = p # ps"
      by blast+
    from wf have ne: "fs \<noteq> []" by (simp add: well_formed_def)
    from upload_phase[OF wf ur, of 300] obtain form where bf: "buildForm w fs [] = Inr form" and
      "retryAsync (uploadFiles (FileArray fs)) (maxRetries cfg) 300 w =
        Some (uploaded form u (retried form 300 0 fails w), Inr ids)" by blast
    with f have up: "retryAsync (uploadFiles (sw_files args)) (maxRetries cfg) 300 w =
        Some (uploaded form u (retried form 300 0 fails w), Inr ids)" by simp
    let ?w1 = "uploaded form u (retried form 300 0 fails w)"
    have rep1: "statusReplies ?w1 = concat (map script_replies scs) @ rest" using rep by simp
    have post1: "postReplies ?w1 = p # ps" using post by simp
    from submitPostWithFiles_processed[OF f ne k up len rep1 bud ends post1]
    obtain w' res pl where
      "submitPostWithFiles cfg args w = Some (w', res)"
      "trace w' = trace ?w1 @ polls_events ?i ids scs @ [Posted pl p]"
      "p_medias pl = map (\<lambda>s. the (src s)) ss" by blast
    with bf show ?thesis
      by (intro exI[of _ form] exI[of _ w'] exI[of _ res] exI[of _ pl]) simp
  qed
  note 3 = submitPostWithFiles_invariant[of args fs cfg w w' res, rule_format]
  show ?thesis by (intro conjI impI) (erule 1 2 3)+
qed


lemma terminal_deleted [simp]: "terminal \<lparr>status = Some ''DELETED'', src = sr, missing = m\<rparr>"
  by (simp add: terminal_def)

lemma example_deleted_run:
  "submitPostWithFiles DEFAULTS example_files_post
     (scripted_world [upload_ok_reply 5 (Some [''U1''])] [status_reply 5 ''DELETED'' None] [example_reply])
   = Some (answered ''U1'' (status_reply 5 ''DELETED'' None)
            (uploaded [png_part] (upload_ok_reply 5 (Some [''U1'']))
              (scripted_world [upload_ok_reply 5 (Some [''U1''])] [status_reply 5 ''DELETED'' None]
                 [example_reply])),
           Inl (UploadTerminalState ''U1'' \<lparr>status = Some ''DELETED'', src = None, missing = False\<rparr>))"
proof -
  let ?u = "upload_ok_reply 5 (Some [''U1''])"
  let ?q = "status_reply 5 ''DELETED'' None"
  let ?W = "scripted_world [?u] [?q] [example_reply]"
  let ?w0 = "uploaded [png_part] ?u ?W"
  let ?s = "\<lparr>status = Some ''DELETED'', src = None, missing = False\<rparr>"
  have r: "retryAsync (uploadFiles (FileArray [buffer_file])) (maxRetries DEFAULTS) 300 ?W
      = Some (?w0, Inr [''U1''])"
    using example_upload_phase[of "maxRetries DEFAULTS" 300 5 "Some [''U1'']" "[]" "[?q]" "[example_reply]"]
    by simp
  have p: "pollLoop ''U1'' i t st ?w0 = Some (answered ''U1'' ?q ?w0, Inr ?s)" for i t st
    by (rule pollLoop_terminal[where rs = "[]"]) simp_all
  have "pollUploads DEFAULTS (sw_pollOptions example_files_post) (sw_timeoutMs example_files_post)
      (now ?w0) [''U1''] [] ?w0 = Some (answered ''U1'' ?q ?w0, Inl (UploadTerminalState ''U1'' ?s))"
    by (simp only: pollUploads_step p) simp
  then show ?thesis
    by (simp add: submitPostWithFiles_eq[where fs = "[buffer_file]"] r del: pollUploads.simps)
qed

lemma example_statuses [simp]:
  "script_ends (pre, status_reply ms ''PROCESSED'' sr) \<lparr>status = Some ''PROCESSED'', src = sr, missing = False\<rparr>"
  "script_ends (pre, status_reply ms ''DELETED'' sr) \<lparr>status = Some ''DELETED'', src = sr, missing = False\<rparr>"
  "processed_with_src \<lparr>status = Some ''PROCESSED'', src = Some (c # cs), missing = m\<rparr>"
  "\<not> processed_with_src \<lparr>status = Some ''PROCESSED'', src = None, missing = m\<rparr>"
  "\<not> processed_with_src \<lparr>status = Some ''DELETED'', src = sr, missing = m\<rparr>"
  by (simp_all add: script_ends_def processed_with_src_def truthy_str_def status_reply_def
      status_result_def ok_def terminal_def)

lemma example_poll_config [simp]:
  "poll_interval DEFAULTS \<lparr>po_intervalMs = None, po_timeoutMs = None\<rparr> = 1000"
  "poll_timeout DEFAULTS \<lparr>po_intervalMs = None, po_timeoutMs = None\<rparr> = 30000"
  "maxRetries DEFAULTS = 3"
  by (simp_all add: poll_interval_def poll_timeout_def DEFAULTS_def)

theorem submitPostWithFiles_fails_closed_witness:
  "(\<exists>w' e. submitPostWithFiles DEFAULTS example_files_post
        (scripted_world [upload_error_reply 5, upload_ok_reply 5 (Some [''U1'', ''U2'', ''U3''])]
           [status_reply 5 ''PENDING'' None, status_reply 5 ''PROCESSED'' (Some ''S1''),
            status_reply 5 ''PROCESSED'' None] [example_reply]) = Some (w', Inl e) \<and>
      e = UploadNoSrc ''U2'' \<lparr>status = Some ''PROCESSED'', src = None, missing = False\<rparr> \<and>
      err_statusObj e = Some \<lparr>status = Some ''PROCESSED'', src = None, missing = False\<rparr> \<and>
      trace w' = [Uploaded [png_part] (upload_error_reply 5), Waited 300,
                  Uploaded [png_part] (upload_ok_reply 5 (Some [''U1'', ''U2'', ''U3''])),
                  StatusQueried ''U1'' (status_reply 5 ''PENDING'' None), Waited 1000,
                  StatusQueried ''U1'' (status_reply 5 ''PROCESSED'' (Some ''S1'')),
                  StatusQueried ''U2'' (status_reply 5 ''PROCESSED'' None)] \<and>
      posts (trace w') = [])
   \<and> (\<exists>w' e. submitPostWithFiles DEFAULTS example_files_post
        (scripted_world [upload_ok_reply 5 (Some [''U1''])] [status_reply 5 ''DELETED'' None]
           [example_reply]) = Some (w', Inl e) \<and>
      e = UploadTerminalState ''U1'' \<lparr>status = Some ''DELETED'', src = None, missing = False\<rparr> \<and>
      err_statusObj e = Some \<lparr>status = Some ''DELETED'', src = None, missing = False\<rparr> \<and>
      trace w' = [Uploaded [png_part] (upload_ok_reply 5 (Some [''U1''])),
                  StatusQueried ''U1'' (status_reply 5 ''DELETED'' None)] \<and>
      posts (trace w') = [])
   \<and> (\<exists>w' res pl. submitPostWithFiles DEFAULTS example_files_post
        (scripted_world [upload_ok_reply 5 (Some [''U1'', ''U2''])]
           [status_reply 5 ''PENDING'' None, status_reply 5 ''PROCESSED'' (Some ''S1''),
            status_reply 5 ''PROCESSED'' (Some ''S2'')] [example_reply]) = Some (w', res) \<and>
      trace w' = [Uploaded [png_part] (upload_ok_reply 5 (Some [''U1'', ''U2''])),
                  StatusQueried ''U1'' (status_reply 5 ''PENDING'' None), Waited 1000,
                  StatusQueried ''U1'' (status_reply 5 ''PROCESSED'' (Some ''S1'')),
                  StatusQueried ''U2'' (status_reply 5 ''PROCESSED'' (Some ''S2'')),
                  Posted pl example_reply] \<and>
      p_medias pl = [''S1'', ''S2''])
   \<and> finals [Uploaded [png_part] (upload_ok_reply 5 (Some [''U1''])),
           StatusQueried ''U1'' (status_reply 5 ''DELETED'' None)]
     = [(''U1'', \<lparr>status = Some ''DELETED'', src = None, missing = False\<rparr>)]
   \<and> posts [Uploaded [png_part] (upload_ok_reply 5 (Some [''U1''])),
          StatusQueried ''U1'' (status_reply 5 ''DELETED'' None)] = []
   \<and> (\<exists>e. (Inl (UploadTerminalState ''U1'' \<lparr>status = Some ''DELETED'', src = None, missing = False\<rparr>)
            :: error + string) = Inl e \<and>
        err_statusObj e = Some \<lparr>status = Some ''DELETED'', src = None, missing = False\<rparr>)"
proof -
  note T = submitPostWithFiles_fails_closed
  let ?pe = "status_reply 5 ''PENDING'' None"
  let ?pa = "status_reply 5 ''PROCESSED'' (Some ''S1'')"
  let ?pb = "status_reply 5 ''PROCESSED'' (Some ''S2'')"
  let ?pn = "status_reply 5 ''PROCESSED'' None"
  let ?de = "status_reply 5 ''DELETED'' None"
  let ?sa = "\<lparr>status = Some ''PROCESSED'', src = Some ''S1'', missing = False\<rparr>"
  let ?sb = "\<lparr>status = Some ''PROCESSED'', src = Some ''S2'', missing = False\<rparr>"
  let ?sn = "\<lparr>status = Some ''PROCESSED'', src = None, missing = False\<rparr>"
  let ?sd = "\<lparr>status = Some ''DELETED'', src = None, missing = False\<rparr>"
  let ?ua = "upload_ok_reply 5 (Some [''U1'', ''U2'', ''U3''])"
  let ?ub = "upload_ok_reply 5 (Some [''U1''])"
  let ?uc = "upload_ok_reply 5 (Some [''U1'', ''U2''])"
  let ?Wa = "scripted_world [upload_error_reply 5, ?ua] [?pe, ?pa, ?pn] [example_reply]"
  let ?Wb = "scripted_world [?ub] [?de] [example_reply]"
  let ?Wc = "scripted_world [?uc] [?pe, ?pa, ?pb] [example_reply]"
  have "\<exists>form w' e. buildForm ?Wa [buffer_file] [] = Inr form \<and>
      submitPostWithFiles DEFAULTS example_files_post ?Wa = Some (w', Inl e) \<and>
      e = (if status ?sn = Some ''PROCESSED'' then UploadNoSrc ''U2'' ?sn
           else UploadTerminalState ''U2'' ?sn) \<and>
      err_statusObj e = Some ?sn \<and>
      trace w' = trace ?Wa @ retry_events form 300 0 [upload_error_reply 5] @ [Uploaded form ?ua] @
        polls_events (poll_interval DEFAULTS (sw_pollOptions example_files_post))
          ([''U1''] @ [''U2'']) ([([?pe], ?pa)] @ [([], ?pn)]) \<and>
      posts (trace w') = posts (trace ?Wa)"
    by (rule T[where args = example_files_post and cfg = DEFAULTS and w = ?Wa and fs = "[buffer_file]"
          and fails = "[upload_error_reply 5]" and u = ?ua and us = "[]"
          and ids = "[''U1'']" and uploadId = "''U2''"
          and later = "[''U3'']" and scs = "[([?pe], ?pa)]" and sc = "([], ?pn)" and rest = "[]"
          and ss = "[?sa]" and s = ?sn, THEN conjunct1, rule_format])
       (simp add: script_time_def script_replies_def)
  then have 1: "\<exists>w' e. submitPostWithFiles DEFAULTS example_files_post ?Wa = Some (w', Inl e) \<and>
      e = UploadNoSrc ''U2'' ?sn \<and> err_statusObj e = Some ?sn \<and>
      trace w' = [Uploaded [png_part] (upload_error_reply 5), Waited 300, Uploaded [png_part] ?ua,
                  StatusQueried ''U1'' ?pe, Waited 1000,
                  StatusQueried ''U1'' ?pa, StatusQueried ''U2'' ?pn] \<and>
      posts (trace w') = []"
    by (auto simp del: buildForm.simps)
  have "\<exists>form w' e. buildForm ?Wb [buffer_file] [] = Inr form \<and>
      submitPostWithFiles DEFAULTS example_files_post ?Wb = Some (w', Inl e) \<and>
      e = (if status ?sd = Some ''PROCESSED'' then UploadNoSrc ''U1'' ?sd
           else UploadTerminalState ''U1'' ?sd) \<and>
      err_statusObj e = Some ?sd \<and>
      trace w' = trace ?Wb @ retry_events form 300 0 [] @ [Uploaded form ?ub] @
        polls_events (poll_interval DEFAULTS (sw_pollOptions example_files_post))
          ([] @ [''U1'']) ([] @ [([], ?de)]) \<and>
      posts (trace w') = posts (trace ?Wb)"
    by (rule T[where args = example_files_post and cfg = DEFAULTS and w = ?Wb and fs = "[buffer_file]"
          and fails = "[]" and u = ?ub and us = "[]"
          and ids = "[]" and uploadId = "''U1''"
          and later = "[]" and scs = "[]" and sc = "([], ?de)" and rest = "[]"
          and ss = "[]" and s = ?sd, THEN conjunct1, rule_format])
       (simp add: script_time_def script_replies_def)
  then have 2: "\<exists>w' e. submitPostWithFiles DEFAULTS example_files_post ?Wb = Some (w', Inl e) \<and>
      e = UploadTerminalState ''U1'' ?sd \<and> err_statusObj e = Some ?sd \<and>
      trace w' = [Uploaded [png_part] ?ub, StatusQueried ''U1'' ?de] \<and>
      posts (trace w') = []"
    by (auto simp del: buildForm.simps)
  have "\<exists>form w' res pl. buildForm ?Wc [buffer_file] [] = Inr form \<and>
      submitPostWithFiles DEFAULTS example_files_post ?Wc = Some (w', res) \<and>
      trace w' = trace ?Wc @ retry_events form 300 0 [] @ [Uploaded form ?uc] @
        polls_events (poll_interval DEFAULTS (sw_pollOptions example_files_post))
          [''U1'', ''U2''] [([?pe], ?pa), ([], ?pb)] @ [Posted pl example_reply] \<and>
      p_medias pl = map (\<lambda>s. the (src s)) [?sa, ?sb]"
    by (rule T[where args = example_files_post and cfg = DEFAULTS and w = ?Wc and fs = "[buffer_file]"
          and fails = "[]" and u = ?uc and us = "[]" and ids = "[''U1'', ''U2'']"
          and scs = "[([?pe], ?pa), ([], ?pb)]" and rest = "[]" and ss = "[?sa, ?sb]"
          and p = example_reply and ps = "[]", THEN conjunct2, THEN conjunct1, rule_format])
       (simp add: script_time_def script_replies_def)
  then have 3: "\<exists>w' res pl. submitPostWithFiles DEFAULTS example_files_post ?Wc = Some (w', res) \<and>
      trace w' = [Uploaded [png_part] ?uc, StatusQueried ''U1'' ?pe, Waited 1000,
                  StatusQueried ''U1'' ?pa, StatusQueried ''U2'' ?pb, Posted pl example_reply] \<and>
      p_medias pl = [''S1'', ''S2'']"
    by (auto simp del: buildForm.simps)
  let ?w' = "answered ''U1'' ?de (uploaded [png_part] ?ub ?Wb)"
  let ?res = "Inl (UploadTerminalState ''U1'' ?sd) :: error + string"
  let ?evs = "[Uploaded [png_part] ?ub, StatusQueried ''U1'' ?de]"
  have h: "sw_files example_files_post = FileArray [buffer_file] \<and> [buffer_file] \<noteq> [] \<and>
      submitPostWithFiles DEFAULTS example_files_post ?Wb = Some (?w', ?res)"
    using example_deleted_run by simp
  have fin: "finals ?evs = [(''U1'', ?sd)]" by simp
  from T[where args = example_files_post and fs = "[buffer_file]" and cfg = DEFAULTS and w = ?Wb
      and w' = ?w' and res = ?res, THEN conjunct2, THEN conjunct2, rule_format, OF h]
  obtain evs where
    e: "trace ?w' = trace ?Wb @ evs"
      "\<forall>s\<in>set (map snd (finals evs)). \<not> processed_with_src s \<longrightarrow>
           posts evs = [] \<and> (\<exists>e. ?res = Inl e \<and> err_statusObj e = Some s)"
    by blast
  from e(1) have "evs = ?evs" by simp
  with e(2) fin have 4: "posts ?evs = [] \<and> (\<exists>e. ?res = Inl e \<and> err_statusObj e = Some ?sd)"
    by simp
  from 4 have 5: "posts ?evs = []" and 6: "\<exists>e. ?res = Inl e \<and> err_statusObj e = Some ?sd"
    by blast+
  show ?thesis by (intro conjI) (rule 1 2 3 fin 5 6)+
qed

end
